(* ===== verification/Stream_Prelude.thy ===== *)
theory Stream_Prelude
  imports Main "HOL-Library.Word"
begin

text \<open>
  Shared vocabulary of the development: the machine types of the C++ sources (an LP64
  little-endian host: \<open>unsigned int\<close> and \<open>int\<close> have 32 bits, \<open>size_t\<close> has 64), the
  byte image of an unsigned integer in memory, the ways a statement of the sources can
  finish (fall through, return a status, throw) and the sequencing of such statements,
  with the generic lemmas the component theories use.
\<close>

unbundle bit_operations_syntax

section \<open>Machine types\<close>

type_synonym byte = "8 word"
type_synonym u16 = "16 word"
type_synonym u32 = "32 word"
type_synonym u64 = "64 word"
type_synonym i32 = "32 word"

text \<open>Collections of rewrite rules: byte images, and the sequencing of statements.\<close>

named_theorems le_simps
named_theorems flow_simps

section \<open>Integers as bytes\<close>

text \<open>
  \<open>le_bytes n w\<close> is the memory image of the first \<open>n\<close> bytes of an unsigned integer on a
  little-endian host, \<open>of_le\<close> the integer a \<open>memcpy\<close> of such bytes produces.
\<close>

primrec le_bytes :: "nat \<Rightarrow> 'a::len word \<Rightarrow> byte list" where
  "le_bytes 0 w = []"
| "le_bytes (Suc n) w = ucast w # le_bytes n (drop_bit 8 w)"

primrec of_le :: "byte list \<Rightarrow> 'a::len word" where
  "of_le [] = 0"
| "of_le (b # bs) = ucast b OR push_bit 8 (of_le bs)"

lemma length_le_bytes [simp, le_simps]: "length (le_bytes n w) = n"
  by (induction n arbitrary: w) auto

lemma of_le_le_bytes [le_simps]:
  "of_le (le_bytes n w) = take_bit (8 * n) (w :: 'a::len word)"
proof (induction n arbitrary: w)
  case 0
  then show ?case by simp
next
  case (Suc n)
  show ?case
  proof (rule bit_word_eqI)
    fix i assume "i < LENGTH('a)"
    then show "bit (of_le (le_bytes (Suc n) w) :: 'a word) i \<longleftrightarrow> bit (take_bit (8 * Suc n) w) i"
      by (cases "i < 8")
        (auto simp: Suc.IH bit_simps not_less)
  qed
qed

lemma of_le_le_bytes_full [simp, le_simps]:
  "LENGTH('a) \<le> 8 * n \<Longrightarrow> of_le (le_bytes n w) = (w :: 'a::len word)"
  by (simp add: of_le_le_bytes take_bit_word_eq_self)

lemma le_bytes_inject:
  assumes "le_bytes n w = le_bytes n (v :: 'a::len word)" and "LENGTH('a) \<le> 8 * n"
  shows "w = v"
  using assms by (metis of_le_le_bytes_full)

section \<open>Integers as text\<close>

text \<open>\<open>std::to_string\<close> on an unsigned value, and the value of a string of decimal digits.\<close>

definition digit_char :: "nat \<Rightarrow> char" where
  "digit_char d = char_of (48 + d)"

fun to_decimal :: "nat \<Rightarrow> string" where
  "to_decimal n =
     (if n < 10 then [digit_char n] else to_decimal (n div 10) @ [digit_char (n mod 10)])"

declare to_decimal.simps [simp del]

definition is_digit :: "char \<Rightarrow> bool" where
  "is_digit c \<longleftrightarrow> 48 \<le> (of_char c :: nat) \<and> (of_char c :: nat) \<le> 57"

definition digit_value :: "char \<Rightarrow> nat" where
  "digit_value c = of_char c - 48"

definition of_decimal :: "string \<Rightarrow> nat" where
  "of_decimal s = foldl (\<lambda>n c. 10 * n + digit_value c) 0 s"

lemma digit_char [simp]:
  assumes "d < 10"
  shows "is_digit (digit_char d)" and "digit_value (digit_char d) = d"
  using assms by (simp_all add: is_digit_def digit_value_def digit_char_def of_char_of)

lemma to_decimal_digits: "\<forall>c \<in> set (to_decimal n). is_digit c"
proof (induction n rule: to_decimal.induct)
  case (1 n)
  then show ?case
    by (cases "n < 10") (auto simp: to_decimal.simps [of n])
qed

lemma to_decimal_nonempty: "to_decimal n \<noteq> []"
  by (subst to_decimal.simps) simp

lemma of_decimal_to_decimal: "of_decimal (to_decimal n) = n"
proof (induction n rule: to_decimal.induct)
  case (1 n)
  then show ?case
    by (cases "n < 10") (auto simp: to_decimal.simps [of n] of_decimal_def)
qed

section \<open>Durations\<close>

text \<open>\<open>std::chrono\<close>: points in time and durations are signed counts; a division truncates.\<close>

definition duration_div :: "int \<Rightarrow> int \<Rightarrow> int" where
  "duration_div d e = (let whole = \<bar>d\<bar> div \<bar>e\<bar> in if (d < 0) = (e < 0) then whole else - whole)"

lemma duration_div_nonneg: "0 \<le> d \<Longrightarrow> 0 < e \<Longrightarrow> duration_div d e = d div e"
  by (simp add: duration_div_def)

section \<open>Flow of control\<close>

text \<open>
  The exceptional outcomes: an exception of the JSON library, \<open>std::logic_error\<close> (thrown by
  \<open>std::stoul\<close> and \<open>std::stoi\<close>), \<open>std::runtime_error\<close>, a dereferenced null pointer,
  undefined behaviour (a read past a buffer, a division by zero, a violated precondition of
  a library call), and running out of the fuel that bounds a recursion of the model.
\<close>

datatype exn =
    Json_exception
  | Logic_error
  | Runtime_error
  | Null_deref
  | Undefined
  | Out_of_fuel

text \<open>How a block of statements finishes: fall through, \<open>return n\<close>, or an exception.\<close>

datatype flow = Next | Ret int | Raise exn

type_synonym 's block = "'s \<Rightarrow> flow \<times> 's"

fun run_blocks :: "'s block list \<Rightarrow> 's block" where
  "run_blocks [] s = (Next, s)"
| "run_blocks (b # bs) s =
     (case b s of
        (Next, s') \<Rightarrow> run_blocks bs s'
      | (Ret n, s') \<Rightarrow> (Ret n, s')
      | (Raise e, s') \<Rightarrow> (Raise e, s'))"

text \<open>\<open>try { b } catch (e) { return r; }\<close>: the state keeps what \<open>b\<close> wrote before throwing.\<close>

definition try_catch :: "exn \<Rightarrow> int \<Rightarrow> 's block \<Rightarrow> 's block" where
  "try_catch e r b s = (case b s of (fl, s') \<Rightarrow> (if fl = Raise e then Ret r else fl, s'))"

lemma snd_try_catch [simp, flow_simps]: "snd (try_catch e r b s) = snd (b s)"
  by (simp add: try_catch_def case_prod_beta)

lemma fst_try_catch [flow_simps]:
  "fst (try_catch e r b s) = (if fst (b s) = Raise e then Ret r else fst (b s))"
  by (simp add: try_catch_def case_prod_beta)

text \<open>The result of a call: the value of its \<open>return\<close>, the final one when it falls through.\<close>

definition result_of :: "int \<Rightarrow> flow \<Rightarrow> exn + int" where
  "result_of r fl = (case fl of Next \<Rightarrow> Inr r | Ret n \<Rightarrow> Inr n | Raise e \<Rightarrow> Inl e)"

lemma result_of_simps [simp, flow_simps]:
  "result_of r Next = Inr r"
  "result_of r (Ret n) = Inr n"
  "result_of r (Raise e) = Inl e"
  by (simp_all add: result_of_def)

lemma run_blocks_append [flow_simps]:
  "run_blocks (bs @ cs) s =
     (case run_blocks bs s of
        (Next, s') \<Rightarrow> run_blocks cs s'
      | r \<Rightarrow> r)"
  by (induction bs arbitrary: s) (auto split: prod.splits flow.splits)

text \<open>A contract of every block is a contract of their sequence, on every way out.\<close>

definition keeps :: "('s \<Rightarrow> bool) \<Rightarrow> 's block \<Rightarrow> bool" where
  "keeps P b \<longleftrightarrow> (\<forall>s. P s \<longrightarrow> P (snd (b s)))"

lemma keepsI [intro?]: "(\<And>s. P s \<Longrightarrow> P (snd (b s))) \<Longrightarrow> keeps P b"
  by (simp add: keeps_def)

lemma keepsD: "keeps P b \<Longrightarrow> P s \<Longrightarrow> P (snd (b s))"
  by (simp add: keeps_def)

lemma keeps_run_blocks:
  "\<forall>b \<in> set bs. keeps P b \<Longrightarrow> keeps P (run_blocks bs)"
proof (induction bs)
  case Nil
  then show ?case by (simp add: keeps_def)
next
  case (Cons b bs)
  then have b: "keeps P b" and bs: "keeps P (run_blocks bs)" by auto
  show ?case
  proof
    fix s assume "P s"
    with b have "P (snd (b s))" by (rule keepsD)
    with bs show "P (snd (run_blocks (b # bs) s))"
      by (auto simp: keeps_def split: prod.splits flow.splits)
  qed
qed

lemma keeps_try_catch: "keeps P b \<Longrightarrow> keeps P (try_catch e r b)"
  by (simp add: keeps_def snd_try_catch)

text \<open>
  Frame conditions have the same shape with two states: a block that never writes a field.
\<close>

definition leaves :: "('s \<Rightarrow> 'a) \<Rightarrow> 's block \<Rightarrow> bool" where
  "leaves f b \<longleftrightarrow> (\<forall>s. f (snd (b s)) = f s)"

lemma leavesI [intro?]: "(\<And>s. f (snd (b s)) = f s) \<Longrightarrow> leaves f b"
  by (simp add: leaves_def)

lemma leavesD: "leaves f b \<Longrightarrow> f (snd (b s)) = f s"
  by (simp add: leaves_def)

lemma leaves_run_blocks: "\<forall>b \<in> set bs. leaves f b \<Longrightarrow> leaves f (run_blocks bs)"
proof (induction bs)
  case Nil
  then show ?case by (simp add: leaves_def)
next
  case (Cons b bs)
  then show ?case
    by (auto simp: leaves_def split: prod.splits flow.splits) (metis snd_conv)+
qed

lemma leaves_try_catch: "leaves f b \<Longrightarrow> leaves f (try_catch e r b)"
  by (simp add: leaves_def snd_try_catch)

text \<open>The exceptions that can leave a block.\<close>

definition raises_only :: "exn set \<Rightarrow> 's block \<Rightarrow> bool" where
  "raises_only E b \<longleftrightarrow> (\<forall>s e. fst (b s) = Raise e \<longrightarrow> e \<in> E)"

lemma raises_onlyI [intro?]: "(\<And>s e. fst (b s) = Raise e \<Longrightarrow> e \<in> E) \<Longrightarrow> raises_only E b"
  by (simp add: raises_only_def)

lemma raises_onlyD: "raises_only E b \<Longrightarrow> fst (b s) = Raise e \<Longrightarrow> e \<in> E"
  by (simp add: raises_only_def)

lemma raises_only_run_blocks:
  "\<forall>b \<in> set bs. raises_only E b \<Longrightarrow> raises_only E (run_blocks bs)"
proof (induction bs)
  case Nil
  then show ?case by (simp add: raises_only_def)
next
  case (Cons b bs)
  then show ?case
    by (auto simp: raises_only_def split: prod.splits flow.splits) (metis fst_conv)+
qed

lemma raises_only_try_catch: "raises_only (insert e E) b \<Longrightarrow> raises_only E (try_catch e r b)"
  by (auto simp: raises_only_def fst_try_catch split: if_splits)

section \<open>Runs of a state machine\<close>

text \<open>
  The contract every stateful component meets: an initial state and an operation per
  input, and an invariant that holds initially and is kept by every operation. What the
  clients use is that it holds after any sequence of operations.
\<close>

locale machine =
  fixes init :: "'s"
    and exec :: "'i \<Rightarrow> 's \<Rightarrow> 's"
    and good :: "'s \<Rightarrow> bool"
  assumes good_init: "good init"
    and good_exec: "good s \<Longrightarrow> good (exec i s)"
begin

lemma good_fold: "good s \<Longrightarrow> good (fold exec ops s)"
  by (induction ops arbitrary: s) (auto intro: good_exec)

lemma good_run: "good (fold exec ops init)"
  by (rule good_fold) (rule good_init)

end

end
