(* ===== verification/Json_Library.thy ===== *)
theory Json_Library
  imports Stream_Prelude
begin

text \<open>
  The JSON library (nlohmann::json) is not part of the sources. Its document type is the
  type variable \<open>'j\<close> of the development and each of its operations that the sources call is
  a field of the record \<open>json_lib\<close>, which every definition that handles documents takes as
  its argument. What the sources rely on is the predicate \<open>json_laws\<close>: documented behaviour
  of the library, a named hypothesis of the theorems that need it. Equality on \<open>'j\<close> stands for
  the library's \<open>operator==\<close>. Theory \<open>Json_Tree\<close> has one library that satisfies the laws,
  which the witnesses use.
\<close>

section \<open>The operations the sources call\<close>

text \<open>A \<open>double\<close> is its IEEE 754 binary64 bit pattern: the sources store, compare and copy it.\<close>

type_synonym double = u64

text \<open>
  Conversions return \<open>None\<close> where the library throws (a subclass of
  \<open>nlohmann::json::exception\<close>). \<open>j_index_const\<close> is \<open>operator[]\<close> on a const document,
  \<open>j_index\<close> the one on a mutable document (which inserts null), \<open>j_put j k v\<close> is
  \<open>j[k] = v\<close>, \<open>j_items\<close> is what a range-for visits, \<open>j_depth\<close> the nesting depth, and
  \<open>j_textual\<close> holds of the documents that JSON text can represent (strings in UTF-8, finite
  numbers).
\<close>

record 'j json_lib =
  j_null :: 'j
  j_find :: "'j \<Rightarrow> string \<Rightarrow> 'j option"
  j_is_null :: "'j \<Rightarrow> bool"
  j_is_string :: "'j \<Rightarrow> bool"
  j_is_number :: "'j \<Rightarrow> bool"
  j_is_array :: "'j \<Rightarrow> bool"
  j_is_object :: "'j \<Rightarrow> bool"
  j_to_string :: "'j \<Rightarrow> string option"
  j_to_uint64 :: "'j \<Rightarrow> u64 option"
  j_to_uint32 :: "'j \<Rightarrow> u32 option"
  j_to_int32 :: "'j \<Rightarrow> i32 option"
  j_to_double :: "'j \<Rightarrow> double option"
  j_value_string :: "'j \<Rightarrow> string \<Rightarrow> string \<Rightarrow> string option"
  j_value_int32 :: "'j \<Rightarrow> string \<Rightarrow> i32 \<Rightarrow> i32 option"
  j_index_const :: "'j \<Rightarrow> string \<Rightarrow> exn + 'j"
  j_index :: "'j \<Rightarrow> string \<Rightarrow> exn + 'j"
  j_items :: "'j \<Rightarrow> 'j list"
  j_dump :: "'j \<Rightarrow> string"
  j_put :: "'j \<Rightarrow> string \<Rightarrow> 'j \<Rightarrow> 'j"
  j_push_back :: "'j \<Rightarrow> 'j \<Rightarrow> 'j"
  j_of_string :: "string \<Rightarrow> 'j"
  j_of_uint64 :: "u64 \<Rightarrow> 'j"
  j_of_int32 :: "i32 \<Rightarrow> 'j"
  j_of_double :: "double \<Rightarrow> 'j"
  j_to_msgpack :: "'j \<Rightarrow> byte list"
  j_from_msgpack :: "byte list \<Rightarrow> 'j option"
  j_parse :: "string \<Rightarrow> 'j option"
  j_textual :: "'j \<Rightarrow> bool"
  j_depth :: "'j \<Rightarrow> nat"

text \<open>
  \<open>operator[]\<close> on a reference that is then read or written further: the member, null if it
  was absent; and the chained assignment \<open>j[a][b] = v\<close>.
\<close>

definition j_member :: "'j json_lib \<Rightarrow> 'j \<Rightarrow> string \<Rightarrow> 'j" where
  "j_member J j k = (case j_find J j k of None \<Rightarrow> j_null J | Some v \<Rightarrow> v)"

definition j_put2 :: "'j json_lib \<Rightarrow> 'j \<Rightarrow> string \<Rightarrow> string \<Rightarrow> 'j \<Rightarrow> 'j" where
  "j_put2 J j a b v = j_put J j a (j_put J (j_member J j a) b v)"

text \<open>\<open>j[a].push_back(v)\<close> and \<open>j[a][b].push_back(v)\<close>.\<close>

definition j_push_at :: "'j json_lib \<Rightarrow> 'j \<Rightarrow> string \<Rightarrow> 'j \<Rightarrow> 'j" where
  "j_push_at J j a v = j_put J j a (j_push_back J (j_member J j a) v)"

definition j_push_at2 :: "'j json_lib \<Rightarrow> 'j \<Rightarrow> string \<Rightarrow> string \<Rightarrow> 'j \<Rightarrow> 'j" where
  "j_push_at2 J j a b v = j_put J j a (j_push_at J (j_member J j a) b v)"

section \<open>What the sources rely on\<close>

text \<open>A document that keys can be assigned to: null (which becomes an object) or an object.\<close>

definition composable :: "'j json_lib \<Rightarrow> 'j \<Rightarrow> bool" where
  "composable J j \<longleftrightarrow> j_is_null J j \<or> j_is_object J j"

definition pushable :: "'j json_lib \<Rightarrow> 'j \<Rightarrow> bool" where
  "pushable J j \<longleftrightarrow> j_is_null J j \<or> j_is_array J j"

definition object_laws :: "'j json_lib \<Rightarrow> bool" where
  "object_laws J \<longleftrightarrow>
     j_is_null J (j_null J) \<and>
     (\<forall>j k. \<not> j_is_object J j \<longrightarrow> j_find J j k = None) \<and>
     (\<forall>j. j_is_object J j \<longrightarrow> \<not> j_is_null J j \<and> \<not> j_is_string J j \<and> \<not> j_is_number J j \<and> \<not> j_is_array J j) \<and>
     (\<forall>j k v. composable J j \<longrightarrow> j_is_object J (j_put J j k v)) \<and>
     (\<forall>j k v k'. composable J j \<longrightarrow>
        j_find J (j_put J j k v) k' = (if k' = k then Some v else j_find J j k'))"

definition array_laws :: "'j json_lib \<Rightarrow> bool" where
  "array_laws J \<longleftrightarrow>
     (\<forall>j. j_is_null J j \<longrightarrow> j_items J j = []) \<and>
     (\<forall>j. j_is_array J j \<longrightarrow> \<not> j_is_null J j \<and> \<not> j_is_string J j \<and> \<not> j_is_number J j) \<and>
     (\<forall>j v. pushable J j \<longrightarrow>
        j_is_array J (j_push_back J j v) \<and> j_items J (j_push_back J j v) = j_items J j @ [v])"

definition scalar_laws :: "'j json_lib \<Rightarrow> bool" where
  "scalar_laws J \<longleftrightarrow>
     (\<forall>s. j_is_string J (j_of_string J s) \<and> j_to_string J (j_of_string J s) = Some s) \<and>
     (\<forall>j. j_is_string J j \<longleftrightarrow> j_to_string J j \<noteq> None) \<and>
     (\<forall>j. j_is_string J j \<longrightarrow> \<not> j_is_null J j) \<and>
     (\<forall>j. j_is_number J j \<longrightarrow> \<not> j_is_null J j \<and> \<not> j_is_string J j) \<and>
     (\<forall>j. j_is_number J j \<longrightarrow> j_to_uint64 J j \<noteq> None) \<and>
     (\<forall>n. j_is_number J (j_of_uint64 J n) \<and> j_to_uint64 J (j_of_uint64 J n) = Some n) \<and>
     (\<forall>n. j_is_number J (j_of_int32 J n) \<and> j_to_int32 J (j_of_int32 J n) = Some n) \<and>
     (\<forall>d. j_is_number J (j_of_double J d) \<and> j_to_double J (j_of_double J d) = Some d)"

definition access_laws :: "'j json_lib \<Rightarrow> bool" where
  "access_laws J \<longleftrightarrow>
     (\<forall>j k d. j_value_string J j k d =
        (if \<not> j_is_object J j then None
         else case j_find J j k of None \<Rightarrow> Some d | Some v \<Rightarrow> j_to_string J v)) \<and>
     (\<forall>j k d. j_value_int32 J j k d =
        (if \<not> j_is_object J j then None
         else case j_find J j k of None \<Rightarrow> Some d | Some v \<Rightarrow> j_to_int32 J v)) \<and>
     (\<forall>j k. j_index_const J j k =
        (if \<not> j_is_object J j then Inl Json_exception
         else case j_find J j k of None \<Rightarrow> Inl Undefined | Some v \<Rightarrow> Inr v)) \<and>
     (\<forall>j k. j_index J j k =
        (if \<not> composable J j then Inl Json_exception
         else case j_find J j k of None \<Rightarrow> Inr (j_null J) | Some v \<Rightarrow> Inr v))"

definition depth_laws :: "'j json_lib \<Rightarrow> bool" where
  "depth_laws J \<longleftrightarrow>
     (\<forall>j k v. j_find J j k = Some v \<longrightarrow> j_depth J v < j_depth J j) \<and>
     (\<forall>j v. v \<in> set (j_items J j) \<longrightarrow> j_depth J v \<le> j_depth J j)"

definition msgpack_laws :: "'j json_lib \<Rightarrow> bool" where
  "msgpack_laws J \<longleftrightarrow> (\<forall>j. j_from_msgpack J (j_to_msgpack J j) = Some j)"

definition text_laws :: "'j json_lib \<Rightarrow> bool" where
  "text_laws J \<longleftrightarrow> (\<forall>j. j_textual J j \<longrightarrow> j_parse J (j_dump J j) = Some j)"

definition json_laws :: "'j json_lib \<Rightarrow> bool" where
  "json_laws J \<longleftrightarrow>
     object_laws J \<and> array_laws J \<and> scalar_laws J \<and> access_laws J \<and> depth_laws J \<and>
     msgpack_laws J \<and> text_laws J"

subsection \<open>The laws as rewrite rules\<close>

named_theorems json_simps

lemma json_laws_kinds [json_simps]:
  assumes "json_laws J"
  shows "j_is_null J (j_null J)"
    and "\<not> j_is_object J (j_null J)"
    and "\<not> j_is_array J (j_null J)"
    and "\<not> j_is_string J (j_null J)"
    and "\<not> j_is_number J (j_null J)"
    and "j_is_string J (j_of_string J s)"
    and "j_is_number J (j_of_uint64 J n)"
    and "j_is_number J (j_of_int32 J i)"
    and "j_is_number J (j_of_double J d)"
    and "\<not> j_is_string J (j_of_uint64 J n)"
    and "\<not> j_is_null J (j_of_uint64 J n)"
    and "\<not> j_is_null J (j_of_string J s)"
  using assms by (auto simp: json_laws_def object_laws_def array_laws_def scalar_laws_def)

lemma json_laws_scalars [json_simps]:
  assumes "json_laws J"
  shows "j_to_string J (j_of_string J s) = Some s"
    and "j_to_uint64 J (j_of_uint64 J n) = Some n"
    and "j_to_int32 J (j_of_int32 J i) = Some i"
    and "j_to_double J (j_of_double J d) = Some d"
    and "j_to_uint64 J (j_of_int32 J i) \<noteq> None"
  using assms by (auto simp: json_laws_def scalar_laws_def)

lemma composable_null [json_simps]: "json_laws J \<Longrightarrow> composable J (j_null J)"
  by (simp add: composable_def json_simps)

lemma pushable_null [json_simps]: "json_laws J \<Longrightarrow> pushable J (j_null J)"
  by (simp add: pushable_def json_simps)

lemma is_object_put [json_simps]:
  "json_laws J \<Longrightarrow> composable J j \<Longrightarrow> j_is_object J (j_put J j k v)"
  by (simp add: json_laws_def object_laws_def)

lemma composable_object: "j_is_object J j \<Longrightarrow> composable J j"
  by (simp add: composable_def)

lemma composable_put [json_simps]:
  "json_laws J \<Longrightarrow> composable J j \<Longrightarrow> composable J (j_put J j k v)"
  by (simp add: is_object_put composable_object)

lemma find_put [json_simps]:
  "json_laws J \<Longrightarrow> composable J j \<Longrightarrow>
     j_find J (j_put J j k v) k' = (if k' = k then Some v else j_find J j k')"
  by (simp add: json_laws_def object_laws_def)

lemma find_non_object: "json_laws J \<Longrightarrow> \<not> j_is_object J j \<Longrightarrow> j_find J j k = None"
  by (simp add: json_laws_def object_laws_def)

lemma find_null [json_simps]: "json_laws J \<Longrightarrow> j_find J (j_null J) k = None"
  by (simp add: find_non_object json_simps)

lemma member_null [json_simps]: "json_laws J \<Longrightarrow> j_member J (j_null J) k = j_null J"
  by (simp add: j_member_def json_simps)

lemma member_put [json_simps]:
  "json_laws J \<Longrightarrow> composable J j \<Longrightarrow>
     j_member J (j_put J j k v) k' = (if k' = k then v else j_member J j k')"
  by (simp add: j_member_def json_simps)

lemma push_back [json_simps]:
  assumes "json_laws J" and "pushable J j"
  shows "j_items J (j_push_back J j v) = j_items J j @ [v]"
    and "j_is_array J (j_push_back J j v)"
    and "pushable J (j_push_back J j v)"
  using assms by (auto simp: json_laws_def array_laws_def pushable_def)

lemma array_not_null: "json_laws J \<Longrightarrow> j_is_array J j \<Longrightarrow> \<not> j_is_null J j"
  by (simp add: json_laws_def array_laws_def)

lemma items_null [json_simps]: "json_laws J \<Longrightarrow> j_items J (j_null J) = []"
  using json_laws_kinds(1) by (auto simp: json_laws_def array_laws_def)

lemma not_null_object: "json_laws J \<Longrightarrow> j_is_object J j \<Longrightarrow> \<not> j_is_null J j"
  by (simp add: json_laws_def object_laws_def)

lemma value_string [json_simps]:
  "json_laws J \<Longrightarrow> j_value_string J j k d =
     (if \<not> j_is_object J j then None
      else case j_find J j k of None \<Rightarrow> Some d | Some v \<Rightarrow> j_to_string J v)"
  by (simp add: json_laws_def access_laws_def)

lemma value_int32 [json_simps]:
  "json_laws J \<Longrightarrow> j_value_int32 J j k d =
     (if \<not> j_is_object J j then None
      else case j_find J j k of None \<Rightarrow> Some d | Some v \<Rightarrow> j_to_int32 J v)"
  by (simp add: json_laws_def access_laws_def)

lemma index_const [json_simps]:
  "json_laws J \<Longrightarrow> j_index_const J j k =
     (if \<not> j_is_object J j then Inl Json_exception
      else case j_find J j k of None \<Rightarrow> Inl Undefined | Some v \<Rightarrow> Inr v)"
  by (simp add: json_laws_def access_laws_def)

lemma index_mutable [json_simps]:
  "json_laws J \<Longrightarrow> j_index J j k =
     (if \<not> composable J j then Inl Json_exception
      else case j_find J j k of None \<Rightarrow> Inr (j_null J) | Some v \<Rightarrow> Inr v)"
  by (simp add: json_laws_def access_laws_def)

lemma depth_find: "json_laws J \<Longrightarrow> j_find J j k = Some v \<Longrightarrow> j_depth J v < j_depth J j"
  by (auto simp: json_laws_def depth_laws_def)

lemma depth_items: "json_laws J \<Longrightarrow> v \<in> set (j_items J j) \<Longrightarrow> j_depth J v \<le> j_depth J j"
  by (auto simp: json_laws_def depth_laws_def)

lemma depth_index_const:
  "json_laws J \<Longrightarrow> j_index_const J j k = Inr v \<Longrightarrow> j_depth J v < j_depth J j"
  by (auto simp: index_const depth_find split: if_splits option.splits)

lemma msgpack_roundtrip [json_simps]:
  "json_laws J \<Longrightarrow> j_from_msgpack J (j_to_msgpack J j) = Some j"
  by (simp add: json_laws_def msgpack_laws_def)

lemma text_roundtrip:
  "json_laws J \<Longrightarrow> j_textual J j \<Longrightarrow> j_parse J (j_dump J j) = Some j"
  by (simp add: json_laws_def text_laws_def)

text \<open>Chained assignment and \<open>push_back\<close>, in terms of what \<open>find\<close> sees afterwards.\<close>

definition composable_at :: "'j json_lib \<Rightarrow> 'j \<Rightarrow> string \<Rightarrow> bool" where
  "composable_at J j k \<longleftrightarrow> composable J j \<and> composable J (j_member J j k)"

lemma put2_composable [json_simps]:
  "json_laws J \<Longrightarrow> composable J j \<Longrightarrow> composable J (j_put2 J j a b v)"
  by (simp add: j_put2_def json_simps)

lemma put2_object [json_simps]:
  "json_laws J \<Longrightarrow> composable J j \<Longrightarrow> j_is_object J (j_put2 J j a b v)"
  by (simp add: j_put2_def json_simps)

lemma find_put2 [json_simps]:
  "json_laws J \<Longrightarrow> composable J j \<Longrightarrow>
     j_find J (j_put2 J j a b v) k = (if k = a then Some (j_put J (j_member J j a) b v) else j_find J j k)"
  by (simp add: j_put2_def json_simps)

lemma member_put2 [json_simps]:
  "json_laws J \<Longrightarrow> composable J j \<Longrightarrow>
     j_member J (j_put2 J j a b v) k = (if k = a then j_put J (j_member J j a) b v else j_member J j k)"
  by (simp add: j_put2_def json_simps)

lemma member_absent: "j_find J j k = None \<Longrightarrow> j_member J j k = j_null J"
  by (simp add: j_member_def)

text \<open>A loop of \<open>j[k].push_back(f(x))\<close> over a container \<open>xs\<close>.\<close>

lemma push_items:
  fixes f :: "'x \<Rightarrow> 'j"
  assumes J: "json_laws J" and "composable J r" and "pushable J (j_member J r k)"
  defines "loop xs \<equiv> foldl (\<lambda>r x. j_push_at J r k (f x)) r xs"
  shows "composable J (loop xs) \<and> pushable J (j_member J (loop xs) k) \<and>
    j_items J (j_member J (loop xs) k) = j_items J (j_member J r k) @ map f xs \<and>
    (\<forall>k'. k' \<noteq> k \<longrightarrow> j_find J (loop xs) k' = j_find J r k') \<and>
    (xs \<noteq> [] \<longrightarrow> j_find J (loop xs) k = Some (j_member J (loop xs) k) \<and> j_is_array J (j_member J (loop xs) k))"
  unfolding loop_def using assms(2,3)
proof (induction xs arbitrary: r)
  case (Cons x xs)
  let ?r = "j_push_at J r k (f x)"
  have r: "composable J ?r" "j_member J ?r k = j_push_back J (j_member J r k) (f x)"
    "pushable J (j_member J ?r k)" "\<And>k'. k' \<noteq> k \<Longrightarrow> j_find J ?r k' = j_find J r k'"
    "j_find J ?r k = Some (j_member J ?r k)" "j_is_array J (j_member J ?r k)"
    using Cons.prems J by (simp_all add: j_push_at_def json_simps)
  show ?case
    using Cons.IH [OF r(1,3)] r J Cons.prems by (cases "xs = []") (simp_all add: json_simps)
qed simp

section \<open>Statements over documents\<close>

text \<open>
  The two idioms of the sources: \<open>auto it = j.find(k); if (it != j.end()) { ... }\<close>, and
  an assignment whose right-hand side converts a document and may throw.
\<close>

definition if_found :: "'j json_lib \<Rightarrow> 'j \<Rightarrow> string \<Rightarrow> ('j \<Rightarrow> 's block) \<Rightarrow> 's block" where
  "if_found J j k f s = (case j_find J j k of None \<Rightarrow> (Next, s) | Some v \<Rightarrow> f v s)"

definition assign :: "'a option \<Rightarrow> ('a \<Rightarrow> 's \<Rightarrow> 's) \<Rightarrow> 's block" where
  "assign x upd s = (case x of None \<Rightarrow> (Raise Json_exception, s) | Some v \<Rightarrow> (Next, upd v s))"

text \<open>A statement on a member of the state: \<open>m_unit.parse(...)\<close> as a statement of the owner.\<close>

definition zoom :: "('s \<Rightarrow> 'a) \<Rightarrow> ('a \<Rightarrow> 's \<Rightarrow> 's) \<Rightarrow> 'a block \<Rightarrow> 's block" where
  "zoom get upd b s = (case b (get s) of (fl, x) \<Rightarrow> (fl, upd x s))"

lemma if_found_simps [flow_simps]:
  "j_find J j k = None \<Longrightarrow> if_found J j k f s = (Next, s)"
  "j_find J j k = Some v \<Longrightarrow> if_found J j k f s = f v s"
  by (simp_all add: if_found_def)

lemma assign_simps [simp, flow_simps]:
  "assign None upd s = (Raise Json_exception, s)"
  "assign (Some x) upd s = (Next, upd x s)"
  by (simp_all add: assign_def)

lemma keeps_if_found: "(\<And>v. keeps P (f v)) \<Longrightarrow> keeps P (if_found J j k f)"
  by (simp add: keeps_def if_found_def split: option.splits)

lemma keeps_assign: "(\<And>x s. P s \<Longrightarrow> P (upd x s)) \<Longrightarrow> keeps P (assign v upd)"
  by (simp add: keeps_def assign_def split: option.splits)

lemma leaves_if_found: "(\<And>v. leaves p (f v)) \<Longrightarrow> leaves p (if_found J j k f)"
  by (simp add: leaves_def if_found_def split: option.splits)

lemma leaves_assign: "(\<And>x s. p (upd x s) = p s) \<Longrightarrow> leaves p (assign v upd)"
  by (simp add: leaves_def assign_def split: option.splits)

lemma leaves_zoom: "(\<And>x s. p (upd x s) = p s) \<Longrightarrow> leaves p (zoom get upd b)"
  by (simp add: leaves_def zoom_def case_prod_beta)

lemma raises_only_if_found: "(\<And>v. raises_only E (f v)) \<Longrightarrow> raises_only E (if_found J j k f)"
  by (simp add: raises_only_def if_found_def split: option.splits)

lemma raises_only_assign: "Json_exception \<in> E \<Longrightarrow> raises_only E (assign v upd)"
  by (simp add: raises_only_def assign_def split: option.splits)

lemma raises_only_zoom: "raises_only E b \<Longrightarrow> raises_only E (zoom get upd b)"
  by (simp add: raises_only_def zoom_def case_prod_beta)

end
