(* ===== verification/Json_Tree.thy ===== *)
theory Json_Tree
  imports Json_Library
begin

text \<open>
  One JSON library that satisfies \<open>json_laws\<close>: documents as trees, objects as association
  lists, and a self-delimiting prefix code in the place of MessagePack. It shows that the
  laws can hold, and it is the library the witnesses of the development compute with.
\<close>

datatype jtree =
    TNull
  | TNum u64
  | TNeg u32
  | TFloat double
  | TStr string
  | TArr "jtree list"
  | TObj "(string \<times> jtree) list"

section \<open>The byte code\<close>

primrec enc_string :: "string \<Rightarrow> byte list" where
  "enc_string [] = [0]"
| "enc_string (c # cs) = 1 # word_of_nat (of_char c) # enc_string cs"

fun dec_string :: "byte list \<Rightarrow> (string \<times> byte list) option" where
  "dec_string (t # bs) =
     (if t = 0 then Some ([], bs)
      else case bs of
        [] \<Rightarrow> None
      | b # bs' \<Rightarrow>
          (case dec_string bs' of
             None \<Rightarrow> None
           | Some (s, rest) \<Rightarrow> Some (char_of (unat b) # s, rest)))"
| "dec_string [] = None"

lemma char_of_byte [simp]: "char_of (unat (word_of_nat (of_char c) :: byte)) = (c :: char)"
proof -
  have "of_char c < (256 :: nat)"
    using nat_of_char_less_256 by simp
  then have "unat (word_of_nat (of_char c) :: byte) = of_char c"
    by (simp add: unat_of_nat)
  then show ?thesis by simp
qed

lemma dec_enc_string [simp]: "dec_string (enc_string s @ rest) = Some (s, rest)"
  by (induction s) auto

fun enc :: "jtree \<Rightarrow> byte list"
  and enc_list :: "jtree list \<Rightarrow> byte list"
  and enc_fields :: "(string \<times> jtree) list \<Rightarrow> byte list" where
  "enc TNull = [0]"
| "enc (TNum n) = 1 # le_bytes 8 n"
| "enc (TNeg n) = 2 # le_bytes 4 n"
| "enc (TFloat d) = 3 # le_bytes 8 d"
| "enc (TStr s) = 4 # enc_string s"
| "enc (TArr ts) = 5 # enc_list ts"
| "enc (TObj fs) = 6 # enc_fields fs"
| "enc_list [] = [0]"
| "enc_list (t # ts) = 1 # enc t @ enc_list ts"
| "enc_fields [] = [0]"
| "enc_fields ((k, t) # fs) = 1 # enc_string k @ enc t @ enc_fields fs"

fun dec :: "nat \<Rightarrow> byte list \<Rightarrow> (jtree \<times> byte list) option"
  and dec_list :: "nat \<Rightarrow> byte list \<Rightarrow> (jtree list \<times> byte list) option"
  and dec_fields :: "nat \<Rightarrow> byte list \<Rightarrow> ((string \<times> jtree) list \<times> byte list) option" where
  "dec (Suc n) (t # bs) =
     (if t = 0 then Some (TNull, bs)
      else if t = 1 then Some (TNum (of_le (take 8 bs)), drop 8 bs)
      else if t = 2 then Some (TNeg (of_le (take 4 bs)), drop 4 bs)
      else if t = 3 then Some (TFloat (of_le (take 8 bs)), drop 8 bs)
      else if t = 4 then map_option (apfst TStr) (dec_string bs)
      else if t = 5 then map_option (apfst TArr) (dec_list n bs)
      else if t = 6 then map_option (apfst TObj) (dec_fields n bs)
      else None)"
| "dec _ _ = None"
| "dec_list (Suc n) (t # bs) =
     (if t = 0 then Some ([], bs)
      else case dec n bs of
        None \<Rightarrow> None
      | Some (x, bs') \<Rightarrow> map_option (apfst (Cons x)) (dec_list n bs'))"
| "dec_list _ _ = None"
| "dec_fields (Suc n) (t # bs) =
     (if t = 0 then Some ([], bs)
      else case dec_string bs of
        None \<Rightarrow> None
      | Some (k, bs') \<Rightarrow>
          (case dec n bs' of
             None \<Rightarrow> None
           | Some (x, bs'') \<Rightarrow> map_option (apfst (Cons (k, x))) (dec_fields n bs'')))"
| "dec_fields _ _ = None"

lemma enc_nonempty: "0 < length (enc t)"
  by (cases t) auto

lemma dec_enc_fuel:
  "length (enc t) \<le> n \<Longrightarrow> dec n (enc t @ rest) = Some (t, rest)"
  "length (enc_list ts) \<le> n \<Longrightarrow> dec_list n (enc_list ts @ rest) = Some (ts, rest)"
  "length (enc_fields fs) \<le> n \<Longrightarrow> dec_fields n (enc_fields fs @ rest) = Some (fs, rest)"
proof (induction t and ts and fs arbitrary: n rest and n rest and n rest
    rule: enc_enc_list_enc_fields.induct)
  case 1
  then show ?case by (cases n) auto
next
  case (2 w)
  then show ?case by (cases n) auto
next
  case (3 w)
  then show ?case by (cases n) auto
next
  case (4 d)
  then show ?case by (cases n) auto
next
  case (5 s)
  then show ?case by (cases n) auto
next
  case (6 ts)
  then show ?case by (cases n) auto
next
  case (7 fs)
  then show ?case by (cases n) auto
next
  case 8
  then show ?case by (cases n) auto
next
  case (9 t ts)
  then show ?case by (cases n) auto
next
  case 10
  then show ?case by (cases n) auto
next
  case (11 k t fs)
  then show ?case by (cases n) auto
qed

definition tree_from_bytes :: "byte list \<Rightarrow> jtree option" where
  "tree_from_bytes bs =
     (case dec (length bs) bs of
        Some (t, []) \<Rightarrow> Some t
      | _ \<Rightarrow> None)"

lemma tree_from_bytes_enc: "tree_from_bytes (enc t) = Some t"
  using dec_enc_fuel(1) [of t "length (enc t)" "[]"] by (simp add: tree_from_bytes_def)

section \<open>The operations\<close>

fun tree_put :: "jtree \<Rightarrow> string \<Rightarrow> jtree \<Rightarrow> jtree" where
  "tree_put (TObj fs) k v = TObj ((k, v) # filter (\<lambda>p. fst p \<noteq> k) fs)"
| "tree_put TNull k v = TObj [(k, v)]"
| "tree_put t k v = t"

fun tree_push :: "jtree \<Rightarrow> jtree \<Rightarrow> jtree" where
  "tree_push (TArr ts) v = TArr (ts @ [v])"
| "tree_push TNull v = TArr [v]"
| "tree_push t v = t"

fun tree_find :: "jtree \<Rightarrow> string \<Rightarrow> jtree option" where
  "tree_find (TObj fs) k = map_of fs k"
| "tree_find t k = None"

fun tree_is_null :: "jtree \<Rightarrow> bool" where
  "tree_is_null TNull = True"
| "tree_is_null t = False"

fun tree_is_number :: "jtree \<Rightarrow> bool" where
  "tree_is_number (TNum n) = True"
| "tree_is_number (TNeg n) = True"
| "tree_is_number (TFloat d) = True"
| "tree_is_number t = False"

fun tree_is_array :: "jtree \<Rightarrow> bool" where
  "tree_is_array (TArr ts) = True"
| "tree_is_array t = False"

fun tree_is_object :: "jtree \<Rightarrow> bool" where
  "tree_is_object (TObj fs) = True"
| "tree_is_object t = False"

fun tree_string :: "jtree \<Rightarrow> string option" where
  "tree_string (TStr s) = Some s"
| "tree_string t = None"

fun tree_uint64 :: "jtree \<Rightarrow> u64 option" where
  "tree_uint64 (TNum n) = Some n"
| "tree_uint64 (TNeg n) = Some (scast n)"
| "tree_uint64 (TFloat d) = Some 0"
| "tree_uint64 t = None"

definition tree_int32 :: "jtree \<Rightarrow> i32 option" where
  "tree_int32 t = (case t of TNeg n \<Rightarrow> Some n | _ \<Rightarrow> map_option ucast (tree_uint64 t))"

fun tree_double :: "jtree \<Rightarrow> double option" where
  "tree_double (TFloat d) = Some d"
| "tree_double (TNum n) = Some (if n = 0 then 0 else 0x3FF0000000000000)"
| "tree_double (TNeg n) = Some 0xBFF0000000000000"
| "tree_double t = None"

fun tree_items :: "jtree \<Rightarrow> jtree list" where
  "tree_items TNull = []"
| "tree_items (TArr ts) = ts"
| "tree_items (TObj fs) = map snd fs"
| "tree_items t = [t]"

text \<open>The text of a document: the characters of its byte code.\<close>

definition tree_dump :: "jtree \<Rightarrow> string" where
  "tree_dump t = map (\<lambda>b. char_of (unat b)) (enc t)"

fun tree_depth :: "jtree \<Rightarrow> nat" where
  "tree_depth (TArr ts) = Suc (sum_list (map tree_depth ts))"
| "tree_depth (TObj fs) = Suc (sum_list (map (\<lambda>p. tree_depth (snd p)) fs))"
| "tree_depth t = 0"

definition tree_lib :: "jtree json_lib" where
  "tree_lib = \<lparr>
     j_null = TNull,
     j_find = tree_find,
     j_is_null = tree_is_null,
     j_is_string = (\<lambda>t. tree_string t \<noteq> None),
     j_is_number = tree_is_number,
     j_is_array = tree_is_array,
     j_is_object = tree_is_object,
     j_to_string = tree_string,
     j_to_uint64 = tree_uint64,
     j_to_uint32 = (\<lambda>t. map_option ucast (tree_uint64 t)),
     j_to_int32 = tree_int32,
     j_to_double = tree_double,
     j_value_string = (\<lambda>t k d.
       if \<not> tree_is_object t then None
       else case tree_find t k of None \<Rightarrow> Some d | Some v \<Rightarrow> tree_string v),
     j_value_int32 = (\<lambda>t k d.
       if \<not> tree_is_object t then None
       else case tree_find t k of None \<Rightarrow> Some d | Some v \<Rightarrow> tree_int32 v),
     j_index_const = (\<lambda>t k.
       if \<not> tree_is_object t then Inl Json_exception
       else case tree_find t k of None \<Rightarrow> Inl Undefined | Some v \<Rightarrow> Inr v),
     j_index = (\<lambda>t k.
       if \<not> (tree_is_null t \<or> tree_is_object t) then Inl Json_exception
       else case tree_find t k of None \<Rightarrow> Inr TNull | Some v \<Rightarrow> Inr v),
     j_items = tree_items,
     j_dump = tree_dump,
     j_put = tree_put,
     j_push_back = tree_push,
     j_of_string = TStr,
     j_of_uint64 = TNum,
     j_of_int32 = TNeg,
     j_of_double = TFloat,
     j_to_msgpack = enc,
     j_from_msgpack = tree_from_bytes,
     j_parse = (\<lambda>s. tree_from_bytes (map (\<lambda>c. word_of_nat (of_char c)) s)),
     j_textual = (\<lambda>t. True),
     j_depth = tree_depth \<rparr>"

section \<open>The laws hold\<close>

lemma map_of_filter_other: "map_of (filter (\<lambda>p. fst p \<noteq> k) fs) k' = (if k' = k then None else map_of fs k')"
  by (induction fs) auto

lemma tree_composable: "composable tree_lib t \<longleftrightarrow> tree_is_null t \<or> tree_is_object t"
  by (simp add: composable_def tree_lib_def)

lemma tree_object_laws: "object_laws tree_lib"
proof -
  have find: "tree_find (tree_put t k v) k' = (if k' = k then Some v else tree_find t k')"
    if "tree_is_null t \<or> tree_is_object t" for t k v k'
    using that by (cases t) (auto simp: map_of_filter_other)
  have kinds: "tree_is_object t \<Longrightarrow> \<not> tree_is_null t \<and> tree_string t = None \<and>
      \<not> tree_is_number t \<and> \<not> tree_is_array t" for t
    by (cases t) auto
  have obj: "tree_is_object (tree_put t k v)" if "tree_is_null t \<or> tree_is_object t" for t k v
    using that by (cases t) auto
  have none: "\<not> tree_is_object t \<Longrightarrow> tree_find t k = None" for t k
    by (cases t) auto
  show ?thesis
    unfolding object_laws_def tree_composable
    using find kinds obj none by (simp add: tree_lib_def)
qed

lemma tree_array_laws: "array_laws tree_lib"
proof -
  have push: "tree_is_array (tree_push t v) \<and> tree_items (tree_push t v) = tree_items t @ [v]"
    if "tree_is_null t \<or> tree_is_array t" for t v
    using that by (cases t) auto
  have kinds: "tree_is_array t \<Longrightarrow> \<not> tree_is_null t \<and> tree_string t = None \<and> \<not> tree_is_number t" for t
    by (cases t) auto
  have null: "tree_is_null t \<Longrightarrow> tree_items t = []" for t
    by (cases t) auto
  show ?thesis
    unfolding array_laws_def pushable_def
    using push kinds null by (simp add: tree_lib_def)
qed

lemma tree_scalar_laws: "scalar_laws tree_lib"
proof -
  have str: "tree_string t \<noteq> None \<Longrightarrow> \<not> tree_is_null t" for t
    by (cases t) auto
  have num: "tree_is_number t \<Longrightarrow> \<not> tree_is_null t \<and> tree_string t = None" for t
    by (cases t) auto
  have u64: "tree_is_number t \<Longrightarrow> tree_uint64 t \<noteq> None" for t
    by (cases t) auto
  show ?thesis
    unfolding scalar_laws_def
    using str num u64 by (simp add: tree_lib_def tree_int32_def)
qed

lemma tree_access_laws: "access_laws tree_lib"
  unfolding access_laws_def tree_composable by (auto simp: tree_lib_def split: option.split)

lemma tree_depth_map_of: "map_of fs k = Some v \<Longrightarrow> tree_depth v \<le> (\<Sum>p\<leftarrow>fs. tree_depth (snd p))"
  by (induction fs) (auto split: if_splits)

lemma tree_depth_mem: "x \<in> set ts \<Longrightarrow> tree_depth x \<le> sum_list (map tree_depth ts)"
  by (induction ts) auto

lemma tree_depth_snd: "(k, x) \<in> set fs \<Longrightarrow> tree_depth x \<le> (\<Sum>p\<leftarrow>fs. tree_depth (snd p))"
  by (induction fs) auto

lemma tree_depth_laws: "depth_laws tree_lib"
proof -
  have "tree_find t k = Some v \<Longrightarrow> tree_depth v < tree_depth t" for t k v
    by (cases t) (auto dest: tree_depth_map_of)
  moreover have "v \<in> set (tree_items t) \<Longrightarrow> tree_depth v \<le> tree_depth t" for t v
    by (cases t) (auto dest!: tree_depth_mem tree_depth_snd)
  ultimately show ?thesis
    unfolding depth_laws_def by (simp add: tree_lib_def)
qed

lemma tree_msgpack_laws: "msgpack_laws tree_lib"
  by (simp add: msgpack_laws_def tree_lib_def tree_from_bytes_enc)

lemma byte_mod [simp]: "word_of_nat (unat b mod 256) = (b :: byte)"
  using unsigned_less [of b, where 'a = nat] by simp

lemma tree_text_laws: "text_laws tree_lib"
  by (simp add: text_laws_def tree_lib_def tree_dump_def comp_def tree_from_bytes_enc)

lemma tree_json_laws: "json_laws tree_lib"
  by (simp add: json_laws_def tree_object_laws tree_array_laws tree_scalar_laws
      tree_access_laws tree_depth_laws tree_msgpack_laws tree_text_laws)

text \<open>Unfolding the library at a concrete document.\<close>

lemmas tree_lib_simps = tree_lib_def j_member_def j_put2_def j_push_at_def j_push_at2_def

end
