(* ===== verification/Protocol_Types.thy ===== *)
theory Protocol_Types
  imports Json_Tree
begin

text \<open>
  The protocol's constants (\<open>Defines.h\<close>), enumerations and value types (\<open>Types.h\<close>,
  \<open>Types.cpp\<close>, \<open>Unit.hpp\<close>, \<open>Unit.cpp\<close>, \<open>TimeResolution.cpp\<close>): post scaling, range, resolution and
  unit, each with its \<open>compose\<close> into a signal member description and its \<open>parse\<close>. The
  lemmas give the round trip \<open>parse\<close> after \<open>compose\<close>, that a section touches its own key
  only, and the invariant of \<open>Resolution\<close>.
\<close>

section \<open>Constants of the transport layer\<close>

definition SIGNAL_NUMBER_MASK :: u32 where "SIGNAL_NUMBER_MASK = 0x000fffff"
definition TYPE_MASK :: u32 where "TYPE_MASK = 0x30000000"
definition TYPE_SHIFT :: nat where "TYPE_SHIFT = 28"
definition SIZE_MASK :: u32 where "SIZE_MASK = 0x0ff00000"
definition SIZE_SHIFT :: nat where "SIZE_SHIFT = 20"
definition METAINFORMATION_MSGPACK :: u32 where "METAINFORMATION_MSGPACK = 2"

lemmas transport_consts =
  SIGNAL_NUMBER_MASK_def TYPE_MASK_def TYPE_SHIFT_def SIZE_MASK_def SIZE_SHIFT_def

section \<open>Keys and names of the presentation layer\<close>

abbreviation (input) PARAMS :: string where "PARAMS \<equiv> ''params''"
abbreviation (input) METHOD :: string where "METHOD \<equiv> ''method''"
abbreviation (input) META_METHOD_APIVERSION :: string where "META_METHOD_APIVERSION \<equiv> ''apiVersion''"
abbreviation (input) VERSION :: string where "VERSION \<equiv> ''version''"
abbreviation (input) META_METHOD_INIT :: string where "META_METHOD_INIT \<equiv> ''init''"
abbreviation (input) COMMANDINTERFACES :: string where "COMMANDINTERFACES \<equiv> ''commandInterfaces''"
abbreviation (input) META_METHOD_AVAILABLE :: string where "META_METHOD_AVAILABLE \<equiv> ''available''"
abbreviation (input) META_METHOD_UNAVAILABLE :: string where "META_METHOD_UNAVAILABLE \<equiv> ''unavailable''"
abbreviation (input) META_STREAMID :: string where "META_STREAMID \<equiv> ''streamId''"
abbreviation (input) META_METHOD_SIGNAL :: string where "META_METHOD_SIGNAL \<equiv> ''signal''"
abbreviation (input) META_SIGNALID :: string where "META_SIGNALID \<equiv> ''signalId''"
abbreviation (input) META_SIGNALIDS :: string where "META_SIGNALIDS \<equiv> ''signalIds''"
abbreviation (input) META_TABLEID :: string where "META_TABLEID \<equiv> ''tableId''"
abbreviation (input) META_VALUEINDEX :: string where "META_VALUEINDEX \<equiv> ''valueIndex''"
abbreviation (input) META_RELATEDSIGNALS :: string where "META_RELATEDSIGNALS \<equiv> ''relatedSignals''"
abbreviation (input) META_TYPE :: string where "META_TYPE \<equiv> ''type''"
abbreviation (input) META_METHOD_SUBSCRIBE :: string where "META_METHOD_SUBSCRIBE \<equiv> ''subscribe''"
abbreviation (input) META_METHOD_UNSUBSCRIBE :: string where "META_METHOD_UNSUBSCRIBE \<equiv> ''unsubscribe''"
abbreviation (input) META_DATATYPE :: string where "META_DATATYPE \<equiv> ''dataType''"
abbreviation (input) META_INTERPRETATION :: string where "META_INTERPRETATION \<equiv> ''interpretation''"
abbreviation (input) DATA_TYPE_INT8 :: string where "DATA_TYPE_INT8 \<equiv> ''int8''"
abbreviation (input) DATA_TYPE_UINT8 :: string where "DATA_TYPE_UINT8 \<equiv> ''uint8''"
abbreviation (input) DATA_TYPE_INT16 :: string where "DATA_TYPE_INT16 \<equiv> ''int16''"
abbreviation (input) DATA_TYPE_UINT16 :: string where "DATA_TYPE_UINT16 \<equiv> ''uint16''"
abbreviation (input) DATA_TYPE_INT32 :: string where "DATA_TYPE_INT32 \<equiv> ''int32''"
abbreviation (input) DATA_TYPE_UINT32 :: string where "DATA_TYPE_UINT32 \<equiv> ''uint32''"
abbreviation (input) DATA_TYPE_INT64 :: string where "DATA_TYPE_INT64 \<equiv> ''int64''"
abbreviation (input) DATA_TYPE_UINT64 :: string where "DATA_TYPE_UINT64 \<equiv> ''uint64''"
abbreviation (input) DATA_TYPE_REAL32 :: string where "DATA_TYPE_REAL32 \<equiv> ''real32''"
abbreviation (input) DATA_TYPE_REAL64 :: string where "DATA_TYPE_REAL64 \<equiv> ''real64''"
abbreviation (input) DATA_TYPE_COMPLEX32 :: string where "DATA_TYPE_COMPLEX32 \<equiv> ''complex32''"
abbreviation (input) DATA_TYPE_COMPLEX64 :: string where "DATA_TYPE_COMPLEX64 \<equiv> ''complex64''"
abbreviation (input) DATA_TYPE_ARRAY :: string where "DATA_TYPE_ARRAY \<equiv> ''array''"
abbreviation (input) DATA_TYPE_DYNAMIC_ARRAY :: string where "DATA_TYPE_DYNAMIC_ARRAY \<equiv> ''dynamicArray''"
abbreviation (input) DATA_TYPE_STRUCT :: string where "DATA_TYPE_STRUCT \<equiv> ''struct''"
abbreviation (input) DATA_TYPE_BITFIELD :: string where "DATA_TYPE_BITFIELD \<equiv> ''bitField''"
abbreviation (input) META_COUNT :: string where "META_COUNT \<equiv> ''count''"
abbreviation (input) META_DEFINITION :: string where "META_DEFINITION \<equiv> ''definition''"
abbreviation (input) META_RULE :: string where "META_RULE \<equiv> ''rule''"
abbreviation (input) META_RULETYPE_EXPLICIT :: string where "META_RULETYPE_EXPLICIT \<equiv> ''explicit''"
abbreviation (input) META_RULETYPE_LINEAR :: string where "META_RULETYPE_LINEAR \<equiv> ''linear''"
abbreviation (input) META_RULETYPE_CONSTANT :: string where "META_RULETYPE_CONSTANT \<equiv> ''constant''"
abbreviation (input) META_NAME :: string where "META_NAME \<equiv> ''name''"
abbreviation (input) META_TIME :: string where "META_TIME \<equiv> ''time''"
abbreviation (input) META_RESOLUTION :: string where "META_RESOLUTION \<equiv> ''resolution''"
abbreviation (input) META_NUMERATOR :: string where "META_NUMERATOR \<equiv> ''num''"
abbreviation (input) META_DENOMINATOR :: string where "META_DENOMINATOR \<equiv> ''denom''"
abbreviation (input) META_ABSOLUTE_REFERENCE :: string where "META_ABSOLUTE_REFERENCE \<equiv> ''absoluteReference''"
abbreviation (input) UNIX_EPOCH :: string where "UNIX_EPOCH \<equiv> ''1970-01-01''"
abbreviation (input) META_METHOD_ALIVE :: string where "META_METHOD_ALIVE \<equiv> ''alive''"
abbreviation (input) META_FILLLEVEL :: string where "META_FILLLEVEL \<equiv> ''fillLevel''"
abbreviation (input) META_START :: string where "META_START \<equiv> ''start''"
abbreviation (input) META_DELTA :: string where "META_DELTA \<equiv> ''delta''"
abbreviation (input) META_UNIT :: string where "META_UNIT \<equiv> ''unit''"
abbreviation (input) META_DISPLAY_NAME :: string where "META_DISPLAY_NAME \<equiv> ''displayName''"
abbreviation (input) META_UNIT_ID :: string where "META_UNIT_ID \<equiv> ''unitId''"
abbreviation (input) META_QUANTITY :: string where "META_QUANTITY \<equiv> ''quantity''"
abbreviation (input) META_POSTSCALING :: string where "META_POSTSCALING \<equiv> ''postScaling''"
abbreviation (input) META_SCALE :: string where "META_SCALE \<equiv> ''scale''"
abbreviation (input) META_POFFSET :: string where "META_POFFSET \<equiv> ''offset''"
abbreviation (input) META_RANGE :: string where "META_RANGE \<equiv> ''range''"
abbreviation (input) META_LOW :: string where "META_LOW \<equiv> ''low''"
abbreviation (input) META_HIGH :: string where "META_HIGH \<equiv> ''high''"
abbreviation (input) META_DIMENSIONS :: string where "META_DIMENSIONS \<equiv> ''dimensions''"
abbreviation (input) META_SIZE :: string where "META_SIZE \<equiv> ''size''"
abbreviation (input) OPENDAQ_LT_STREAM_VERSION :: string where "OPENDAQ_LT_STREAM_VERSION \<equiv> ''1.5.0''"

section \<open>Enumerations\<close>

type_synonym signal_ids = "string list"
type_synonym signal_number = u32

datatype transport_type = TYPE_SIGNALDATA | TYPE_METAINFORMATION

definition transport_code :: "transport_type \<Rightarrow> u32" where
  "transport_code t = (case t of TYPE_SIGNALDATA \<Rightarrow> 1 | TYPE_METAINFORMATION \<Rightarrow> 2)"

datatype sample_type =
    SAMPLETYPE_UNKNOWN
  | SAMPLETYPE_U8 | SAMPLETYPE_S8
  | SAMPLETYPE_U16 | SAMPLETYPE_S16
  | SAMPLETYPE_U32 | SAMPLETYPE_S32
  | SAMPLETYPE_U64 | SAMPLETYPE_S64
  | SAMPLETYPE_REAL32 | SAMPLETYPE_REAL64
  | SAMPLETYPE_BITFIELD32 | SAMPLETYPE_BITFIELD64
  | SAMPLETYPE_COMPLEX32 | SAMPLETYPE_COMPLEX64
  | SAMPLETYPE_ARRAY | SAMPLETYPE_STRUCT

datatype rule_type = RULETYPE_UNKNOWN | RULETYPE_EXPLICIT | RULETYPE_CONSTANT | RULETYPE_LINEAR

section \<open>Range\<close>

text \<open>
  \<open>numeric_limits<double>::lowest()\<close> and \<open>max()\<close> have one bit pattern each, so comparing a
  double with them is comparing bit patterns (a NaN is unequal either way).
\<close>

definition double_lowest :: double where "double_lowest = 0xFFEFFFFFFFFFFFFF"
definition double_max :: double where "double_max = 0x7FEFFFFFFFFFFFFF"

record range =
  low :: double
  high :: double

definition Range_clear :: range where
  "Range_clear = \<lparr>low = double_lowest, high = double_max\<rparr>"

definition Range_isUnlimited :: "range \<Rightarrow> bool" where
  "Range_isUnlimited r \<longleftrightarrow> low r = double_lowest \<and> high r = double_max"

definition Range_compose :: "'j json_lib \<Rightarrow> range \<Rightarrow> 'j \<Rightarrow> 'j" where
  "Range_compose J r c =
     (let c1 = (if low r \<noteq> double_lowest
                then j_put2 J c META_RANGE META_LOW (j_of_double J (low r)) else c)
      in if high r \<noteq> double_max
         then j_put2 J c1 META_RANGE META_HIGH (j_of_double J (high r)) else c1)"

definition Range_parse :: "'j json_lib \<Rightarrow> 'j \<Rightarrow> range block" where
  "Range_parse J c =
     if_found J c META_RANGE (\<lambda>node. run_blocks [
       if_found J node META_LOW (\<lambda>v. assign (j_to_double J v) (\<lambda>x r. r\<lparr>low := x\<rparr>)),
       if_found J node META_HIGH (\<lambda>v. assign (j_to_double J v) (\<lambda>x r. r\<lparr>high := x\<rparr>))])"

section \<open>Post scaling\<close>

text \<open>\<open>x == 0.0\<close> holds for both zeros, \<open>x == 1.0\<close> for one bit pattern.\<close>

definition double_one :: double where "double_one = 0x3FF0000000000000"

definition double_is_zero :: "double \<Rightarrow> bool" where
  "double_is_zero d \<longleftrightarrow> d = 0 \<or> d = 0x8000000000000000"

record postScaling =
  offset :: double
  scale :: double

definition PostScaling_clear :: postScaling where
  "PostScaling_clear = \<lparr>offset = 0, scale = double_one\<rparr>"

definition PostScaling_isOneToOne :: "postScaling \<Rightarrow> bool" where
  "PostScaling_isOneToOne p \<longleftrightarrow> double_is_zero (offset p) \<and> scale p = double_one"

definition PostScaling_compose :: "'j json_lib \<Rightarrow> postScaling \<Rightarrow> 'j \<Rightarrow> 'j" where
  "PostScaling_compose J p c =
     (if PostScaling_isOneToOne p then c
      else j_put2 J (j_put2 J c META_POSTSCALING META_POFFSET (j_of_double J (offset p)))
             META_POSTSCALING META_SCALE (j_of_double J (scale p)))"

definition PostScaling_parse :: "'j json_lib \<Rightarrow> 'j \<Rightarrow> postScaling block" where
  "PostScaling_parse J c =
     if_found J c META_POSTSCALING (\<lambda>node. run_blocks [
       if_found J node META_POFFSET (\<lambda>v. assign (j_to_double J v) (\<lambda>x p. p\<lparr>offset := x\<rparr>)),
       if_found J node META_SCALE (\<lambda>v. assign (j_to_double J v) (\<lambda>x p. p\<lparr>scale := x\<rparr>))])"

section \<open>Resolution\<close>

record resolution =
  numerator :: u64
  denominator :: u64

definition Resolution_default :: resolution where
  "Resolution_default = \<lparr>numerator = 1, denominator = 1\<rparr>"

definition Resolution_init :: "u64 \<Rightarrow> u64 \<Rightarrow> resolution" where
  "Resolution_init n d = \<lparr>numerator = n, denominator = d\<rparr>"

definition TIME_RESOLUTION_1HZ :: resolution where
  "TIME_RESOLUTION_1HZ = Resolution_init 1 1"

definition TIME_FAMILY_1GHZ :: resolution where
  "TIME_FAMILY_1GHZ = Resolution_init 1 1000000000"

definition TIME_FAMILY_NTP :: resolution where
  "TIME_FAMILY_NTP = Resolution_init 1 (push_bit 32 1)"

definition Resolution_compose :: "'j json_lib \<Rightarrow> resolution \<Rightarrow> 'j \<Rightarrow> 'j" where
  "Resolution_compose J r c =
     j_put2 J (j_put2 J c META_RESOLUTION META_NUMERATOR (j_of_uint64 J (numerator r)))
       META_RESOLUTION META_DENOMINATOR (j_of_uint64 J (denominator r))"

text \<open>The local variables of \<open>Resolution::parse\<close>: written to the object only at the end.\<close>

record resolution_locals =
  newNumerator :: u64
  newDenominator :: u64
  parseResult :: int

definition Resolution_parse :: "'j json_lib \<Rightarrow> 'j \<Rightarrow> resolution block" where
  "Resolution_parse J c r =
     (case if_found J c META_RESOLUTION (\<lambda>node. run_blocks [
             if_found J node META_NUMERATOR (\<lambda>v. run_blocks [
               assign (j_to_uint64 J v) (\<lambda>x l. l\<lparr>newNumerator := x\<rparr>),
               (\<lambda>l. if newNumerator l = 0 then (Ret (-1), l) else (Next, l\<lparr>parseResult := 1\<rparr>))]),
             if_found J node META_DENOMINATOR (\<lambda>v. run_blocks [
               assign (j_to_uint64 J v) (\<lambda>x l. l\<lparr>newDenominator := x\<rparr>),
               (\<lambda>l. if newDenominator l = 0 then (Ret (-1), l) else (Next, l\<lparr>parseResult := 1\<rparr>))])])
           \<lparr>newNumerator = numerator r, newDenominator = denominator r, parseResult = 0\<rparr> of
        (Next, l) \<Rightarrow>
          (Ret (parseResult l), \<lparr>numerator = newNumerator l, denominator = newDenominator l\<rparr>)
      | (Ret n, l) \<Rightarrow> (Ret n, r)
      | (Raise e, l) \<Rightarrow> (Raise e, r))"

definition Resolution_toString :: "resolution \<Rightarrow> string" where
  "Resolution_toString r =
     to_decimal (unat (numerator r)) @ ''/'' @ to_decimal (unat (denominator r))"

section \<open>Unit\<close>

definition UNIT_ID_USER :: i32 where "UNIT_ID_USER = 0"
definition UNIT_ID_NONE :: i32 where "UNIT_ID_NONE = -1"
definition UNIT_ID_SECONDS :: i32 where "UNIT_ID_SECONDS = 5457219"
definition UNIT_ID_MILLI_SECONDS :: i32 where "UNIT_ID_MILLI_SECONDS = 4403766"

record munit =
  unit_id :: i32
  displayName :: string
  quantity :: string

definition Unit_clear :: munit where
  "Unit_clear = \<lparr>unit_id = UNIT_ID_NONE, displayName = [], quantity = []\<rparr>"

definition Unit_compose :: "'j json_lib \<Rightarrow> munit \<Rightarrow> 'j \<Rightarrow> 'j" where
  "Unit_compose J u c =
     (if unit_id u \<noteq> UNIT_ID_NONE then
        let c1 = j_put2 J c META_UNIT META_UNIT_ID (j_of_int32 J (unit_id u));
            c2 = j_put2 J c1 META_UNIT META_DISPLAY_NAME (j_of_string J (displayName u))
        in if quantity u \<noteq> [] then j_put2 J c2 META_UNIT META_QUANTITY (j_of_string J (quantity u)) else c2
      else c)"

definition Unit_parse :: "'j json_lib \<Rightarrow> 'j \<Rightarrow> munit block" where
  "Unit_parse J c =
     if_found J c META_UNIT (\<lambda>node. run_blocks [
       if_found J node META_UNIT_ID (\<lambda>v. assign (j_to_int32 J v) (\<lambda>x u. u\<lparr>unit_id := x\<rparr>)),
       if_found J node META_DISPLAY_NAME (\<lambda>v. assign (j_to_string J v) (\<lambda>x u. u\<lparr>displayName := x\<rparr>)),
       if_found J node META_QUANTITY (\<lambda>v. assign (j_to_string J v) (\<lambda>x u. u\<lparr>quantity := x\<rparr>))])"

section \<open>The contract of a section of a member description\<close>

text \<open>
  The producer composes the sections of a member description one after another into one
  document, the consumer parses each section from it. The contract of a section: it
  writes under its own key only, its parser looks at this key only, and parsing what was
  composed gives the value back.
\<close>

locale meta_section =
  fixes compose :: "'j json_lib \<Rightarrow> 'a \<Rightarrow> 'j \<Rightarrow> 'j"
    and parse :: "'j json_lib \<Rightarrow> 'j \<Rightarrow> 'a block"
    and key :: string
    and dflt :: 'a
    and representable :: "'a \<Rightarrow> bool"
    and fin :: flow
  assumes compose_composable:
      "json_laws J \<Longrightarrow> composable J c \<Longrightarrow> composable J (compose J x c)"
    and compose_frame:
      "json_laws J \<Longrightarrow> composable J c \<Longrightarrow> k \<noteq> key \<Longrightarrow> j_find J (compose J x c) k = j_find J c k"
    and parse_local:
      "j_find J c key = j_find J c' key \<Longrightarrow> parse J c x = parse J c' x"
    and parse_compose:
      "json_laws J \<Longrightarrow> composable J c \<Longrightarrow> j_find J c key = None \<Longrightarrow> representable x \<Longrightarrow>
         parse J (compose J x c) dflt = (fin, x)"
begin

text \<open>A later section under another key does not disturb what this one composed.\<close>

lemma parse_later:
  assumes "json_laws J" and "composable J c" and "j_find J c key = None" and "representable x"
    and "j_find J c' key = j_find J (compose J x c) key"
  shows "parse J c' dflt = (fin, x)"
  using parse_local [OF assms(5)] parse_compose [OF assms(1-4)] by simp

lemma member_frame:
  "json_laws J \<Longrightarrow> composable J c \<Longrightarrow> k \<noteq> key \<Longrightarrow> j_member J (compose J x c) k = j_member J c k"
  by (simp add: j_member_def compose_frame)

end

lemmas section_defs = Let_def if_found_def json_simps member_absent composable_object

interpretation Range: meta_section Range_compose Range_parse META_RANGE Range_clear "\<lambda>r. True" Next
proof
  fix J :: "'j json_lib" and c c' :: 'j and x :: range and k
  show "json_laws J \<Longrightarrow> composable J c \<Longrightarrow> composable J (Range_compose J x c)"
    by (simp add: Range_compose_def section_defs)
  show "json_laws J \<Longrightarrow> composable J c \<Longrightarrow> k \<noteq> META_RANGE \<Longrightarrow>
      j_find J (Range_compose J x c) k = j_find J c k"
    by (simp add: Range_compose_def section_defs)
  show "j_find J c META_RANGE = j_find J c' META_RANGE \<Longrightarrow> Range_parse J c x = Range_parse J c' x"
    by (simp add: Range_parse_def if_found_def)
  show "json_laws J \<Longrightarrow> composable J c \<Longrightarrow> j_find J c META_RANGE = None \<Longrightarrow> True \<Longrightarrow>
      Range_parse J (Range_compose J x c) Range_clear = (Next, x)"
    by (simp add: Range_parse_def Range_compose_def Range_clear_def section_defs)
qed

interpretation PostScaling: meta_section PostScaling_compose PostScaling_parse META_POSTSCALING
  PostScaling_clear "\<lambda>p. PostScaling_isOneToOne p \<longrightarrow> p = PostScaling_clear" Next
proof
  fix J :: "'j json_lib" and c c' :: 'j and x :: postScaling and k
  show "json_laws J \<Longrightarrow> composable J c \<Longrightarrow> composable J (PostScaling_compose J x c)"
    by (simp add: PostScaling_compose_def section_defs)
  show "json_laws J \<Longrightarrow> composable J c \<Longrightarrow> k \<noteq> META_POSTSCALING \<Longrightarrow>
      j_find J (PostScaling_compose J x c) k = j_find J c k"
    by (simp add: PostScaling_compose_def section_defs)
  show "j_find J c META_POSTSCALING = j_find J c' META_POSTSCALING \<Longrightarrow>
      PostScaling_parse J c x = PostScaling_parse J c' x"
    by (simp add: PostScaling_parse_def if_found_def)
  show "json_laws J \<Longrightarrow> composable J c \<Longrightarrow> j_find J c META_POSTSCALING = None \<Longrightarrow>
      PostScaling_isOneToOne x \<longrightarrow> x = PostScaling_clear \<Longrightarrow>
      PostScaling_parse J (PostScaling_compose J x c) PostScaling_clear = (Next, x)"
    by (auto simp: PostScaling_parse_def PostScaling_compose_def section_defs)
qed

definition Resolution_valid :: "resolution \<Rightarrow> bool" where
  "Resolution_valid r \<longleftrightarrow> numerator r \<noteq> 0 \<and> denominator r \<noteq> 0"

interpretation Resolution: meta_section Resolution_compose Resolution_parse META_RESOLUTION
  Resolution_default Resolution_valid "Ret 1"
proof
  fix J :: "'j json_lib" and c c' :: 'j and x :: resolution and k
  show "json_laws J \<Longrightarrow> composable J c \<Longrightarrow> composable J (Resolution_compose J x c)"
    by (simp add: Resolution_compose_def section_defs)
  show "json_laws J \<Longrightarrow> composable J c \<Longrightarrow> k \<noteq> META_RESOLUTION \<Longrightarrow>
      j_find J (Resolution_compose J x c) k = j_find J c k"
    by (simp add: Resolution_compose_def section_defs)
  show "j_find J c META_RESOLUTION = j_find J c' META_RESOLUTION \<Longrightarrow>
      Resolution_parse J c x = Resolution_parse J c' x"
    by (simp add: Resolution_parse_def if_found_def)
  show "json_laws J \<Longrightarrow> composable J c \<Longrightarrow> j_find J c META_RESOLUTION = None \<Longrightarrow>
      Resolution_valid x \<Longrightarrow>
      Resolution_parse J (Resolution_compose J x c) Resolution_default = (Ret 1, x)"
    by (simp add: Resolution_parse_def Resolution_compose_def Resolution_valid_def section_defs)
qed

definition Unit_representable :: "munit \<Rightarrow> bool" where
  "Unit_representable u \<longleftrightarrow> (unit_id u = UNIT_ID_NONE \<longrightarrow> u = Unit_clear)"

interpretation Unit: meta_section Unit_compose Unit_parse META_UNIT Unit_clear Unit_representable Next
proof
  fix J :: "'j json_lib" and c c' :: 'j and x :: munit and k
  show "json_laws J \<Longrightarrow> composable J c \<Longrightarrow> composable J (Unit_compose J x c)"
    by (simp add: Unit_compose_def section_defs)
  show "json_laws J \<Longrightarrow> composable J c \<Longrightarrow> k \<noteq> META_UNIT \<Longrightarrow>
      j_find J (Unit_compose J x c) k = j_find J c k"
    by (simp add: Unit_compose_def section_defs)
  show "j_find J c META_UNIT = j_find J c' META_UNIT \<Longrightarrow> Unit_parse J c x = Unit_parse J c' x"
    by (simp add: Unit_parse_def if_found_def)
  show "json_laws J \<Longrightarrow> composable J c \<Longrightarrow> j_find J c META_UNIT = None \<Longrightarrow>
      Unit_representable x \<Longrightarrow> Unit_parse J (Unit_compose J x c) Unit_clear = (Next, x)"
    by (simp add: Unit_parse_def Unit_compose_def Unit_representable_def Unit_clear_def section_defs)
qed

section \<open>Resolution: validity\<close>

text \<open>
  A numerator or denominator of zero is rejected before anything is written, so a valid
  resolution stays valid on every way out of \<open>parse\<close>, and only a successful parse changes it.
\<close>

lemma Resolution_parse_cases:
  assumes "Resolution_parse J c r = (fl, r')"
  obtains (stored) n where "fl = Ret n" "n = 0 \<or> n = 1"
      "numerator r' = numerator r \<or> numerator r' \<noteq> 0"
      "denominator r' = denominator r \<or> denominator r' \<noteq> 0"
      "n = 0 \<Longrightarrow> r' = r"
    | (rejected) "fl = Ret (-1)" "r' = r"
    | (thrown) "fl = Raise Json_exception" "r' = r"
  using assms
  by (auto simp: Resolution_parse_def if_found_def assign_def split: option.splits if_splits)

lemma keeps_Resolution_parse: "keeps Resolution_valid (Resolution_parse J c)"
proof
  fix r assume r: "Resolution_valid r"
  obtain fl r' where eq: "Resolution_parse J c r = (fl, r')" by (cases "Resolution_parse J c r")
  from eq show "Resolution_valid (snd (Resolution_parse J c r))"
    by (cases rule: Resolution_parse_cases) (use r eq in \<open>auto simp: Resolution_valid_def\<close>)
qed

text \<open>The parsers throw what a conversion throws and nothing else.\<close>

lemma raises_only_parse:
  assumes "Json_exception \<in> E"
  shows "raises_only E (Range_parse J c)" and "raises_only E (PostScaling_parse J c)"
    and "raises_only E (Unit_parse J c)" and "raises_only E (Resolution_parse J c)"
proof -
  show "raises_only E (Range_parse J c)" "raises_only E (PostScaling_parse J c)" "raises_only E (Unit_parse J c)"
    unfolding Range_parse_def PostScaling_parse_def Unit_parse_def
    by (intro raises_only_if_found raises_only_run_blocks, simp add: raises_only_if_found raises_only_assign assms)+
  show "raises_only E (Resolution_parse J c)"
  proof
    fix r e assume raised: "fst (Resolution_parse J c r) = Raise e"
    obtain fl r' where eq: "Resolution_parse J c r = (fl, r')" by (cases "Resolution_parse J c r")
    from eq show "e \<in> E"
      by (cases rule: Resolution_parse_cases) (use raised eq assms in auto)
  qed
qed

end
