(* ===== verification/Transport.thy ===== *)
theory Transport
  imports Protocol_Types
begin

text \<open>
  The transport layer: the header word and the additional length field as \<open>StreamWriter\<close>
  writes them (\<open>StreamWriter.cpp\<close>) and as \<open>ProtocolHandler::onHeader\<close> takes them apart. The
  stream the bytes go to (\<open>daq::stream::Stream\<close>) is not part of the sources: its \<open>write\<close> and
  \<open>endPointUrl\<close> are the parameter \<open>stream_io\<close>, and \<open>delivers\<close> is what the library documents of
  \<open>write\<close>: the bytes of all buffers go out in order.
\<close>

section \<open>The stream a writer uses\<close>

record 'w stream_io =
  st_write :: "'w \<Rightarrow> byte list list \<Rightarrow> u64 \<times> 'w"
  st_url :: "'w \<Rightarrow> string"

definition delivers :: "'w stream_io \<Rightarrow> ('w \<Rightarrow> byte list) \<Rightarrow> bool" where
  "delivers S wire \<longleftrightarrow>
     (\<forall>w bufs. wire (snd (st_write S w bufs)) = wire w @ concat bufs) \<and>
     (\<forall>w bufs. st_url S (snd (st_write S w bufs)) = st_url S w)"

text \<open>A stream that keeps what was written: the one the witnesses use.\<close>

definition memory_stream :: "byte list stream_io" where
  "memory_stream = \<lparr>
     st_write = (\<lambda>w bufs. (word_of_nat (length (concat bufs)), w @ concat bufs)),
     st_url = (\<lambda>w. ''memory'') \<rparr>"

lemma memory_stream_delivers: "delivers memory_stream (\<lambda>w. w)"
  by (simp add: delivers_def memory_stream_def)

section \<open>StreamWriter\<close>

text \<open>
  The words of \<open>transportHeaderBuffer\<close> that count, and the bytes that go out first.
  \<open>header |= size << SIZE_SHIFT\<close> shifts a \<open>size_t\<close> and truncates to 32 bits.
\<close>

definition createTransportHeader :: "transport_type \<Rightarrow> u32 \<Rightarrow> u64 \<Rightarrow> u32 list" where
  "createTransportHeader type signalNumber sz =
     (let header = signalNumber OR push_bit TYPE_SHIFT (transport_code type)
      in if sz \<le> 0xff then [header OR ucast (push_bit SIZE_SHIFT sz)]
         else [header, ucast sz])"

definition header_bytes :: "transport_type \<Rightarrow> u32 \<Rightarrow> u64 \<Rightarrow> byte list" where
  "header_bytes type signalNumber sz =
     concat (map (le_bytes 4) (createTransportHeader type signalNumber sz))"

text \<open>\<open>static_cast<int>\<close> of the \<open>size_t\<close> that \<open>Stream::write\<close> returns; its error code is dropped.\<close>

definition int_of_size :: "u64 \<Rightarrow> int" where
  "int_of_size n = sint (ucast n :: i32)"

definition writeSignalData :: "'w stream_io \<Rightarrow> u32 \<Rightarrow> byte list \<Rightarrow> 'w \<Rightarrow> int \<times> 'w" where
  "writeSignalData S signalNumber dat w =
     (let (n, w') = st_write S w [header_bytes TYPE_SIGNALDATA signalNumber (word_of_nat (length dat)), dat]
      in (int_of_size n, w'))"

definition writeMsgPackMetaInformation :: "'w stream_io \<Rightarrow> u32 \<Rightarrow> byte list \<Rightarrow> 'w \<Rightarrow> int \<times> 'w" where
  "writeMsgPackMetaInformation S signalNumber dat w =
     (let littleMetaType = METAINFORMATION_MSGPACK;
          (n, w') = st_write S w
            [header_bytes TYPE_METAINFORMATION signalNumber (word_of_nat (length dat) + 4),
             le_bytes 4 littleMetaType, dat]
      in (int_of_size n, w'))"

definition writeMetaInformation ::
  "'j json_lib \<Rightarrow> 'w stream_io \<Rightarrow> u32 \<Rightarrow> 'j \<Rightarrow> 'w \<Rightarrow> int \<times> 'w" where
  "writeMetaInformation J S signalNumber dat w =
     writeMsgPackMetaInformation S signalNumber (j_to_msgpack J dat) w"

definition writer_id :: "'w stream_io \<Rightarrow> 'w \<Rightarrow> string" where
  "writer_id S w = st_url S w"

section \<open>Taking a header apart\<close>

definition header_signalNumber :: "u32 \<Rightarrow> u32" where
  "header_signalNumber header = header AND SIGNAL_NUMBER_MASK"

definition header_type :: "u32 \<Rightarrow> u32" where
  "header_type header = drop_bit TYPE_SHIFT (header AND TYPE_MASK)"

definition header_length :: "u32 \<Rightarrow> u32" where
  "header_length header = drop_bit SIZE_SHIFT (header AND SIZE_MASK)"

text \<open>
  The three fields as bit fields: 20 bits of signal number, 8 bits of size, 2 bits of type;
  the two highest bits are reserved.
\<close>

lemma header_signalNumber_bits: "header_signalNumber h = take_bit 20 h"
proof -
  have "SIGNAL_NUMBER_MASK = mask 20" by (simp add: SIGNAL_NUMBER_MASK_def mask_eq_exp_minus_1)
  then show ?thesis by (simp add: header_signalNumber_def take_bit_eq_mask)
qed

lemma header_type_bits: "header_type h = take_bit 2 (drop_bit 28 h)"
proof -
  have "drop_bit 28 (TYPE_MASK) = mask 2" by (simp add: TYPE_MASK_def mask_eq_exp_minus_1)
  then show ?thesis by (simp add: header_type_def TYPE_SHIFT_def take_bit_eq_mask)
qed

lemma header_length_bits: "header_length h = take_bit 8 (drop_bit 20 h)"
proof -
  have "drop_bit 20 (SIZE_MASK) = mask 8" by (simp add: SIZE_MASK_def mask_eq_exp_minus_1)
  then show ?thesis by (simp add: header_length_def SIZE_SHIFT_def take_bit_eq_mask)
qed

section \<open>Round trip of a header\<close>

lemma take_bit_self_iff: "take_bit k w = w \<longleftrightarrow> unat w < 2 ^ k" for w :: "'a::len word"
  by (simp add: word_unat_eq_iff unsigned_take_bit_eq take_bit_nat_eq_self_iff)

definition valid_number :: "u32 \<Rightarrow> bool" where
  "valid_number n \<longleftrightarrow> n \<le> SIGNAL_NUMBER_MASK"

lemma valid_number_bits: "valid_number n \<longleftrightarrow> take_bit 20 n = n"
  by (auto simp: valid_number_def take_bit_self_iff SIGNAL_NUMBER_MASK_def word_le_nat_alt)

lemma valid_number_drop: "valid_number n \<Longrightarrow> drop_bit 20 n = 0"
  by (metis valid_number_bits drop_bit_take_bit diff_self_eq_0 take_bit_0)

lemma valid_number_drop28: "valid_number n \<Longrightarrow> drop_bit 28 n = 0"
  using valid_number_drop [of n] drop_bit_drop_bit [of 8 20 n] by simp

lemma short_size: "sz \<le> (0xff :: u64) \<Longrightarrow> take_bit 8 sz = sz"
  by (auto simp: take_bit_self_iff word_le_nat_alt)

lemma ucast_push_short:
  assumes "sz \<le> (0xff :: u64)"
  shows "(ucast (push_bit 20 sz) :: u32) = push_bit 20 (ucast sz)"
  by (rule bit_word_eqI) (auto simp: bit_simps)

lemma short_size_u32:
  assumes "sz \<le> (0xff :: u64)"
  shows "take_bit 8 (ucast sz :: u32) = ucast sz"
proof -
  have "unat (ucast sz :: u32) = take_bit 32 (unat sz)" by (simp add: unsigned_ucast_eq)
  also have "\<dots> \<le> unat sz" by (rule take_bit_nat_less_eq_self)
  also have "\<dots> < 2 ^ 8" using assms by (simp add: word_le_nat_alt)
  finally show ?thesis by (simp only: take_bit_self_iff)
qed

lemma transport_code_bits:
  "take_bit 2 (transport_code t) = transport_code t"
  by (cases t) (simp_all add: transport_code_def)

text \<open>What \<open>onHeader\<close> reads is what \<open>createTransportHeader\<close> was given.\<close>

lemma header_fields:
  fixes t :: transport_type and s :: u32
  assumes "valid_number n" and "take_bit 8 s = s"
  defines "h \<equiv> n OR push_bit 28 (transport_code t) OR push_bit 20 s"
  shows "header_signalNumber h = n" and "header_type h = transport_code t"
    and "header_length h = s"
proof -
  have s20: "take_bit 20 (push_bit 20 s) = 0" and t20: "take_bit 20 (push_bit 28 (transport_code t)) = 0"
    by (simp_all add: take_bit_push_bit)
  show "header_signalNumber h = n"
    using assms(1) by (simp add: h_def header_signalNumber_bits s20 t20 valid_number_bits)
  have "drop_bit 28 (push_bit 20 s) = 0"
  proof (rule bit_word_eqI)
    fix i
    assume "i < LENGTH(32)"
    have "bit s (i + 8) \<longleftrightarrow> bit (take_bit 8 s) (i + 8)" by (simp only: assms(2))
    then show "bit (drop_bit 28 (push_bit 20 s)) i \<longleftrightarrow> bit (0 :: u32) i"
      by (simp add: bit_simps add.commute)
  qed
  moreover have "drop_bit 28 (push_bit 28 (transport_code t)) = transport_code t"
    by (cases t) (simp_all add: transport_code_def)
  ultimately show "header_type h = transport_code t"
    using valid_number_drop28 [OF assms(1)]
    by (simp add: h_def header_type_bits transport_code_bits)
  have "take_bit 8 (drop_bit 20 (push_bit 28 (transport_code t))) = 0"
    by (cases t) (simp_all add: transport_code_def)
  moreover have "take_bit 8 (drop_bit 20 (push_bit 20 s)) = take_bit 8 s"
    by (rule bit_word_eqI) (auto simp: bit_simps)
  ultimately show "header_length h = s"
    using valid_number_drop [OF assms(1)] assms(2)
    by (simp add: h_def header_length_bits)
qed

lemma createTransportHeader_short:
  assumes "valid_number n" and "sz \<le> 0xff"
  obtains h where "createTransportHeader t n sz = [h]" and "header_signalNumber h = n"
    and "header_type h = transport_code t" and "header_length h = ucast sz"
proof -
  have "take_bit 8 (ucast sz :: u32) = ucast sz" using assms(2) by (rule short_size_u32)
  note fields = header_fields [OF assms(1) this, of t]
  have "createTransportHeader t n sz = [n OR push_bit 28 (transport_code t) OR push_bit 20 (ucast sz)]"
    using assms(2) by (simp add: createTransportHeader_def Let_def transport_consts ucast_push_short or.assoc)
  then show thesis using fields by (rule that)
qed

lemma createTransportHeader_long:
  assumes "valid_number n" and "\<not> sz \<le> 0xff"
  obtains h where "createTransportHeader t n sz = [h, ucast sz]" and "header_signalNumber h = n"
    and "header_type h = transport_code t" and "header_length h = 0"
proof -
  note fields = header_fields [OF assms(1), of 0 t, simplified]
  have "createTransportHeader t n sz = [n OR push_bit 28 (transport_code t), ucast sz]"
    using assms(2) by (simp add: createTransportHeader_def Let_def transport_consts)
  then show thesis using fields by (rule that)
qed

section \<open>Messages and their bytes\<close>

text \<open>
  What the presentation layer hands to the transport layer, and the block it becomes on the
  wire: header, optional length field, payload. A meta information payload starts with its
  type word.
\<close>

datatype 'j message = Meta u32 'j | Data u32 "byte list"

definition block_bytes :: "transport_type \<Rightarrow> u32 \<Rightarrow> byte list \<Rightarrow> byte list" where
  "block_bytes t n payload = header_bytes t n (word_of_nat (length payload)) @ payload"

fun message_type :: "'j message \<Rightarrow> transport_type" where
  "message_type (Meta n j) = TYPE_METAINFORMATION"
| "message_type (Data n d) = TYPE_SIGNALDATA"

fun message_number :: "'j message \<Rightarrow> u32" where
  "message_number (Meta n j) = n"
| "message_number (Data n d) = n"

fun message_payload :: "'j json_lib \<Rightarrow> 'j message \<Rightarrow> byte list" where
  "message_payload J (Meta n j) = le_bytes 4 METAINFORMATION_MSGPACK @ j_to_msgpack J j"
| "message_payload J (Data n d) = d"

definition message_bytes :: "'j json_lib \<Rightarrow> 'j message \<Rightarrow> byte list" where
  "message_bytes J m = block_bytes (message_type m) (message_number m) (message_payload J m)"

text \<open>
  The messages the transport layer can carry: a signal number of 20 bits, and a payload
  that is not empty and whose length has 32 bits.
\<close>

definition sendable :: "'j json_lib \<Rightarrow> 'j message \<Rightarrow> bool" where
  "sendable J m \<longleftrightarrow> valid_number (message_number m) \<and>
     message_payload J m \<noteq> [] \<and> length (message_payload J m) < 2 ^ 32"

section \<open>The writer interface\<close>

text \<open>
  \<open>iWriter\<close> is an abstract class: the record of its virtual functions. \<open>StreamWriter\<close> is the
  implementation of the library.
\<close>

record ('j, 'w) iwriter =
  iw_meta :: "u32 \<Rightarrow> 'j \<Rightarrow> 'w \<Rightarrow> int \<times> 'w"
  iw_data :: "u32 \<Rightarrow> byte list \<Rightarrow> 'w \<Rightarrow> int \<times> 'w"
  iw_id :: "'w \<Rightarrow> string"

definition StreamWriter :: "'j json_lib \<Rightarrow> 'w stream_io \<Rightarrow> ('j, 'w) iwriter" where
  "StreamWriter J S = \<lparr>
     iw_meta = writeMetaInformation J S,
     iw_data = writeSignalData S,
     iw_id = writer_id S \<rparr>"

text \<open>
  The contract the producer relies on: on a stream that delivers, each call puts exactly the
  bytes of its message behind what was written before.
\<close>

locale message_writer =
  fixes mk :: "'j json_lib \<Rightarrow> 'w stream_io \<Rightarrow> ('j, 'w) iwriter"
    and bytes_of :: "'j json_lib \<Rightarrow> 'j message \<Rightarrow> byte list"
  assumes meta_appends:
      "delivers S wire \<Longrightarrow> wire (snd (iw_meta (mk J S) n j w)) = wire w @ bytes_of J (Meta n j)"
    and data_appends:
      "delivers S wire \<Longrightarrow> wire (snd (iw_data (mk J S) n d w)) = wire w @ bytes_of J (Data n d)"
    and id_stable:
      "delivers S wire \<Longrightarrow> iw_id (mk J S) (snd (iw_meta (mk J S) n j w)) = iw_id (mk J S) w"
      "delivers S wire \<Longrightarrow> iw_id (mk J S) (snd (iw_data (mk J S) n d w)) = iw_id (mk J S) w"
begin

text \<open>Sending a list of messages one after another.\<close>

fun send :: "'j json_lib \<Rightarrow> 'w stream_io \<Rightarrow> 'j message list \<Rightarrow> 'w \<Rightarrow> 'w" where
  "send J S [] w = w"
| "send J S (Meta n j # ms) w = send J S ms (snd (iw_meta (mk J S) n j w))"
| "send J S (Data n d # ms) w = send J S ms (snd (iw_data (mk J S) n d w))"

lemma send_wire:
  assumes "delivers S wire"
  shows "wire (send J S ms w) = wire w @ concat (map (bytes_of J) ms)"
proof (induction ms arbitrary: w)
  case Nil
  then show ?case by simp
next
  case (Cons m ms)
  then show ?case
    by (cases m) (simp_all add: meta_appends [OF assms] data_appends [OF assms])
qed

lemma send_append: "send J S (ms @ ms') w = send J S ms' (send J S ms w)"
proof (induction ms arbitrary: w)
  case (Cons m ms)
  then show ?case by (cases m) simp_all
qed simp

end

interpretation stream_writer: message_writer StreamWriter message_bytes
proof
  fix S :: "'w stream_io" and wire J n j d and w :: 'w
  assume S: "delivers S wire"
  show "wire (snd (iw_meta (StreamWriter J S) n j w)) = wire w @ message_bytes J (Meta n j)"
    using S by (simp add: StreamWriter_def writeMetaInformation_def writeMsgPackMetaInformation_def
        delivers_def message_bytes_def block_bytes_def case_prod_beta add.commute)
  show "wire (snd (iw_data (StreamWriter J S) n d w)) = wire w @ message_bytes J (Data n d)"
    using S by (simp add: StreamWriter_def writeSignalData_def
        delivers_def message_bytes_def block_bytes_def case_prod_beta)
  show "iw_id (StreamWriter J S) (snd (iw_meta (StreamWriter J S) n j w)) = iw_id (StreamWriter J S) w"
    using S by (simp add: StreamWriter_def writeMetaInformation_def writeMsgPackMetaInformation_def
        delivers_def writer_id_def case_prod_beta)
  show "iw_id (StreamWriter J S) (snd (iw_data (StreamWriter J S) n d w)) = iw_id (StreamWriter J S) w"
    using S by (simp add: StreamWriter_def writeSignalData_def delivers_def writer_id_def case_prod_beta)
qed

section \<open>Properties\<close>

text \<open>
  C20: the transport header. For a signal number of 20 bits, the first word that
  \<open>createTransportHeader\<close> makes gives back the signal number and the type; a size of up to 255
  is in the size field of that word, any other one in a second word, announced by a size field
  of 0.
\<close>

theorem transport_header_roundtrip:
  assumes "valid_number n"
  shows "\<exists>h. header_signalNumber h = n \<and> header_type h = transport_code t \<and>
    (if sz \<le> 0xff then createTransportHeader t n sz = [h] \<and> unat (header_length h) = unat sz
     else createTransportHeader t n sz = [h, ucast sz] \<and> header_length h = 0)"
proof (cases "sz \<le> 0xff")
  case True
  have "unat sz < 2 ^ 32" using True by (simp add: word_le_nat_alt)
  then have "unat (ucast sz :: u32) = unat sz" by (simp add: unsigned_ucast_eq take_bit_nat_eq_self_iff)
  moreover obtain h where "createTransportHeader t n sz = [h]" "header_signalNumber h = n"
    "header_type h = transport_code t" "header_length h = ucast sz"
    using createTransportHeader_short [OF assms True] .
  ultimately show ?thesis using True by auto
next
  case False
  obtain h where "createTransportHeader t n sz = [h, ucast sz]" "header_signalNumber h = n"
    "header_type h = transport_code t" "header_length h = 0"
    using createTransportHeader_long [OF assms False] .
  then show ?thesis using False by auto
qed

theorem transport_header_roundtrip_witness:
  "\<exists>h. header_signalNumber h = 0xFFFFF \<and> header_type h = transport_code TYPE_METAINFORMATION \<and>
    createTransportHeader TYPE_METAINFORMATION 0xFFFFF 256 = [h, 256] \<and> header_length h = 0"
  using transport_header_roundtrip [of 1048575 TYPE_METAINFORMATION 256]
  by (simp add: valid_number_def SIGNAL_NUMBER_MASK_def)

end
