(* ===== verification/Stream_Meta.thy ===== *)
theory Stream_Meta
  imports Transport
begin

text \<open>
  The consumer's view of stream related meta information: \<open>MetaInformation.cpp\<close> (decoding a
  meta information block) and \<open>StreamMeta.cpp\<close> (protocol version, stream id and command
  interface), with the standard library's \<open>stoul\<close>, \<open>stoi\<close> and \<open>strncasecmp\<close>. Shown: decoding
  inverts what \<open>StreamWriter\<close> encodes, and the version check accepts exactly the versions
  from 0.6.0 on.
\<close>

section \<open>MetaInformation\<close>

record 'j meta_information =
  mi_type :: u32
  mi_content :: 'j

definition MetaInformation_init :: "'j json_lib \<Rightarrow> 'j meta_information" where
  "MetaInformation_init J = \<lparr>mi_type = 0, mi_content = j_null J\<rparr>"

text \<open>
  The type word is copied before the length of the block is looked at: a block shorter than
  four bytes is read past its end. The content stays as it was for types other than msgpack.
\<close>

definition interpret_meta :: "'j json_lib \<Rightarrow> byte list \<Rightarrow> 'j meta_information block" where
  "interpret_meta J dat m =
     (if length dat < 4 then (Raise Undefined, m)
      else
        let m1 = m\<lparr>mi_type := of_le (take 4 dat)\<rparr>
        in if mi_type m1 = METAINFORMATION_MSGPACK then
             (case j_from_msgpack J (drop 4 dat) of
                None \<Rightarrow> (Ret (-1), m1)
              | Some j \<Rightarrow> (Ret 0, m1\<lparr>mi_content := j\<rparr>))
           else (Ret 0, m1))"

definition meta_method :: "'j json_lib \<Rightarrow> 'j meta_information \<Rightarrow> exn + string" where
  "meta_method J m =
     (case j_find J (mi_content m) METHOD of
        None \<Rightarrow> Inr []
      | Some v \<Rightarrow> (case j_to_string J v of None \<Rightarrow> Inl Json_exception | Some s \<Rightarrow> Inr s))"

definition meta_params :: "'j json_lib \<Rightarrow> 'j meta_information \<Rightarrow> 'j" where
  "meta_params J m =
     (case j_find J (mi_content m) PARAMS of None \<Rightarrow> j_null J | Some v \<Rightarrow> v)"

section \<open>Standard library functions on strings\<close>

definition is_space :: "char \<Rightarrow> bool" where
  "is_space c \<longleftrightarrow> of_char c \<in> {9, 10, 11, 12, 13, 32 :: nat}"

text \<open>The sign and the digits that \<open>strtoul\<close> and \<open>strtol\<close> take; \<open>None\<close> when there is no digit.\<close>

definition scan_number :: "string \<Rightarrow> (bool \<times> nat) option" where
  "scan_number s =
     (let s1 = dropWhile is_space s;
          (neg, s2) = (case s1 of
             c # cs \<Rightarrow> if c = CHR ''-'' then (True, cs) else if c = CHR ''+'' then (False, cs) else (False, s1)
           | [] \<Rightarrow> (False, s1));
          ds = takeWhile is_digit s2
      in if ds = [] then None else Some (neg, of_decimal ds))"

text \<open>\<open>None\<close>: \<open>std::invalid_argument\<close> or \<open>std::out_of_range\<close>, both \<open>std::logic_error\<close>s.\<close>

definition stoul :: "string \<Rightarrow> u64 option" where
  "stoul s = (case scan_number s of
     None \<Rightarrow> None
   | Some (neg, n) \<Rightarrow>
       if n < 2 ^ 64 then Some (if neg then - word_of_nat n else word_of_nat n) else None)"

definition stoi :: "string \<Rightarrow> i32 option" where
  "stoi s = (case scan_number s of
     None \<Rightarrow> None
   | Some (neg, n) \<Rightarrow>
       if neg then (if n \<le> 2 ^ 31 then Some (- word_of_nat n) else None)
       else (if n < 2 ^ 31 then Some (word_of_nat n) else None))"

definition to_lower :: "char \<Rightarrow> char" where
  "to_lower c = (if 65 \<le> (of_char c :: nat) \<and> (of_char c :: nat) \<le> 90 then char_of (of_char c + 32 :: nat) else c)"

text \<open>\<open>strncasecmp(s.c_str(), POST, sizeof(POST)) == 0\<close>: equal up to case, up to the first NUL.\<close>

definition is_post :: "string \<Rightarrow> bool" where
  "is_post s \<longleftrightarrow> map to_lower (takeWhile (\<lambda>c. of_char c \<noteq> (0 :: nat)) s) = ''post''"

text \<open>The loop over \<open>s.find('.')\<close>: the pieces between the dots, the rest last.\<close>

fun split_dots :: "string \<Rightarrow> string list" where
  "split_dots [] = [[]]"
| "split_dots (c # cs) =
     (if c = CHR ''.'' then [] # split_dots cs
      else case split_dots cs of p # ps \<Rightarrow> (c # p) # ps | [] \<Rightarrow> [[c]])"

section \<open>StreamMeta\<close>

record stream_meta =
  sm_apiVersion :: string
  sm_streamId :: string
  sm_httpControlPath :: string
  sm_httpControlPort :: string
  sm_httpVersion :: u32

text \<open>The constructor leaves \<open>m_httpVersion\<close> uninitialised: its value is an argument.\<close>

definition StreamMeta_init :: "u32 \<Rightarrow> stream_meta" where
  "StreamMeta_init v = \<lparr>sm_apiVersion = [], sm_streamId = [], sm_httpControlPath = [],
     sm_httpControlPort = [], sm_httpVersion = v\<rparr>"

text \<open>\<open>tokens.push_back(std::stoul(...))\<close> into a vector of \<open>unsigned int\<close>.\<close>

fun parse_tokens :: "string list \<Rightarrow> u32 list option" where
  "parse_tokens [] = Some []"
| "parse_tokens (p # ps) =
     (case stoul p of
        None \<Rightarrow> None
      | Some n \<Rightarrow> map_option (Cons (ucast n)) (parse_tokens ps))"

definition check_version :: "string \<Rightarrow> flow" where
  "check_version v =
     (case parse_tokens (split_dots v) of
        None \<Rightarrow> Raise Logic_error
      | Some tokens \<Rightarrow>
          if length tokens \<noteq> 3 then Ret (-1)
          else if tokens ! 0 < 1 \<and> tokens ! 1 < 6 then Ret (-1)
          else Next)"

definition meta_apiVersion :: "'j json_lib \<Rightarrow> 'j \<Rightarrow> stream_meta block" where
  "meta_apiVersion J params s =
     (case j_find J params VERSION of
        None \<Rightarrow> (Ret (-1), s)
      | Some v \<Rightarrow> run_blocks [
          assign (j_to_string J v) (\<lambda>x s. s\<lparr>sm_apiVersion := x\<rparr>),
          (\<lambda>s. (check_version (sm_apiVersion s), s))] s)"

definition index_string :: "'j json_lib \<Rightarrow> 'j \<Rightarrow> string \<Rightarrow> (string \<Rightarrow> 's \<Rightarrow> 's) \<Rightarrow> 's block" where
  "index_string J j k upd s =
     (case j_index_const J j k of
        Inl e \<Rightarrow> (Raise e, s)
      | Inr v \<Rightarrow> assign (j_to_string J v) upd s)"

text \<open>\<open>httpVersionString\<close> without its dots, as \<open>std::stoi\<close> reads it.\<close>

definition assign_httpVersion :: "string \<Rightarrow> stream_meta block" where
  "assign_httpVersion v s =
     (case stoi (filter (\<lambda>c. c \<noteq> CHR ''.'') v) of
        None \<Rightarrow> (Raise Logic_error, s)
      | Some n \<Rightarrow> (Next, s\<lparr>sm_httpVersion := n\<rparr>))"

definition meta_commandInterface :: "'j json_lib \<Rightarrow> 'j \<Rightarrow> stream_meta block" where
  "meta_commandInterface J element s =
     (case j_index_const J element ''httpMethod'' of
        Inl e \<Rightarrow> (Raise e, s)
      | Inr m \<Rightarrow>
          (case j_to_string J m of
             None \<Rightarrow> (Raise Json_exception, s)
           | Some httpMethod \<Rightarrow>
               if is_post httpMethod then run_blocks [
                 index_string J element ''httpPath'' (\<lambda>x s. s\<lparr>sm_httpControlPath := x\<rparr>),
                 (\<lambda>s. case j_index_const J element ''httpVersion'' of
                    Inl e \<Rightarrow> (Raise e, s)
                  | Inr v \<Rightarrow> (case j_to_string J v of
                      None \<Rightarrow> (Raise Json_exception, s)
                    | Some x \<Rightarrow> assign_httpVersion x s)),
                 (\<lambda>s. if sm_httpControlPort s = []
                      then index_string J element ''port'' (\<lambda>x s. s\<lparr>sm_httpControlPort := x\<rparr>) s
                      else (Next, s))] s
               else (Next, s)))"

definition meta_init :: "'j json_lib \<Rightarrow> 'j \<Rightarrow> stream_meta block" where
  "meta_init J params = run_blocks [
     assign (j_value_string J params META_STREAMID []) (\<lambda>x s. s\<lparr>sm_streamId := x\<rparr>),
     if_found J params COMMANDINTERFACES
       (\<lambda>v. run_blocks (map (meta_commandInterface J) (j_items J v)))]"

definition meta_alive :: "'j json_lib \<Rightarrow> 'j \<Rightarrow> stream_meta block" where
  "meta_alive J params =
     if_found J params META_FILLLEVEL (\<lambda>v. assign (j_to_uint32 J v) (\<lambda>x s. s))"

text \<open>
  \<open>method()\<close> and \<open>params()\<close> run before the \<open>try\<close>; the handler catches \<open>std::runtime_error\<close>
  only, which neither the JSON library nor \<open>stoul\<close> and \<open>stoi\<close> throw. The loop over the member
  \<open>supported\<close> only logs, and it visits nothing: \<open>object()\<close> is the static function of the JSON
  library that makes an empty object. What is passed to the log is not modelled, here and
  elsewhere; \<open>dump()\<close> among it throws for a string that is not UTF-8.
\<close>

definition StreamMeta_process :: "'j json_lib \<Rightarrow> 'j meta_information \<Rightarrow> stream_meta block" where
  "StreamMeta_process J m s =
     (case meta_method J m of
        Inl e \<Rightarrow> (Raise e, s)
      | Inr method \<Rightarrow>
          let params = meta_params J m
          in try_catch Runtime_error 0 (run_blocks [
               (if method = META_METHOD_APIVERSION then meta_apiVersion J params
                else if method = META_METHOD_INIT then meta_init J params
                else if method = META_METHOD_ALIVE then meta_alive J params
                else (\<lambda>s. (Next, s))),
               (\<lambda>s. (Ret 0, s))]) s)"

section \<open>Decoding a meta information block\<close>

lemma interpret_meta_msgpack [json_simps]:
  assumes "json_laws J"
  shows "interpret_meta J (message_payload J (Meta n j)) m =
    (Ret 0, m\<lparr>mi_type := METAINFORMATION_MSGPACK, mi_content := j\<rparr>)"
  by (simp add: interpret_meta_def msgpack_roundtrip [OF assms])

section \<open>The version check\<close>

lemma split_dots_plain: "CHR ''.'' \<notin> set p \<Longrightarrow> split_dots p = [p]"
  by (induction p) auto

lemma split_dots_dot: "CHR ''.'' \<notin> set p \<Longrightarrow> split_dots (p @ CHR ''.'' # q) = p # split_dots q"
  by (induction p) auto

lemma digit_not_special:
  assumes "is_digit c"
  shows "c \<noteq> CHR ''.''" and "c \<noteq> CHR ''-''" and "c \<noteq> CHR ''+''" and "\<not> is_space c"
proof -
  have low: "48 \<le> (of_char c :: nat)" using assms by (simp add: is_digit_def)
  have "of_char (CHR ''.'') = (46 :: nat)" by simp
  then show "c \<noteq> CHR ''.''" using low by fastforce
  have "of_char (CHR ''-'') = (45 :: nat)" by simp
  then show "c \<noteq> CHR ''-''" using low by fastforce
  have "of_char (CHR ''+'') = (43 :: nat)" by simp
  then show "c \<noteq> CHR ''+''" using low by fastforce
  show "\<not> is_space c" using low by (simp add: is_space_def)
qed

lemma to_decimal_no_dot [simp]: "CHR ''.'' \<notin> set (to_decimal n)"
  using to_decimal_digits digit_not_special(1) by blast

lemma scan_to_decimal: "scan_number (to_decimal n) = Some (False, n)"
proof -
  obtain c cs where eq: "to_decimal n = c # cs"
    using to_decimal_nonempty by (cases "to_decimal n") auto
  have digits: "\<forall>d \<in> set (c # cs). is_digit d"
    using to_decimal_digits [of n] by (simp only: eq)
  then have take: "takeWhile is_digit (c # cs) = c # cs"
    by (simp add: takeWhile_eq_all_conv)
  have "is_digit c" using digits by simp
  note special = digit_not_special [OF this]
  have "scan_number (c # cs) = Some (False, of_decimal (c # cs))"
    using special take by (simp add: scan_number_def Let_def)
  then show ?thesis using of_decimal_to_decimal [of n] by (simp only: eq)
qed

lemma stoul_to_decimal: "n < 2 ^ 64 \<Longrightarrow> stoul (to_decimal n) = Some (word_of_nat n)"
  by (simp add: stoul_def scan_to_decimal)

lemma check_version_decimal:
  assumes "a < 2 ^ 32" and "b < 2 ^ 32" and "c < 2 ^ 32"
  shows "check_version (to_decimal a @ ''.'' @ to_decimal b @ ''.'' @ to_decimal c) =
    (if a = 0 \<and> b < 6 then Ret (-1) else Next)"
proof -
  have "parse_tokens [to_decimal a, to_decimal b, to_decimal c] =
      Some [word_of_nat a, word_of_nat b, word_of_nat c]"
    using assms by (simp add: stoul_to_decimal unsigned_of_nat take_bit_nat_eq_self)
  moreover have "(word_of_nat a :: u32) < 1 \<longleftrightarrow> a = 0" and "(word_of_nat b :: u32) < 6 \<longleftrightarrow> b < 6"
    using assms by (simp_all add: word_less_nat_alt unat_of_nat)
  ultimately show ?thesis
    by (simp add: check_version_def split_dots_dot split_dots_plain)
qed

text \<open>
  The protocol version the peer announces. For every version string \<open>a.b.c\<close> with
  components below \<open>2^32\<close>, \<open>StreamMeta::processMetaInformation\<close> stores the string and succeeds
  exactly when the version is at least 0.6.0; otherwise it returns -1.
\<close>

theorem version_check:
  assumes "json_laws J" and "a < 2 ^ 32" and "b < 2 ^ 32" and "c < 2 ^ 32"
    and "v = to_decimal a @ ''.'' @ to_decimal b @ ''.'' @ to_decimal c"
    and "j_find J (mi_content m) METHOD = Some (j_of_string J META_METHOD_APIVERSION)"
    and "j_find J (mi_content m) PARAMS = Some params"
    and "j_find J params VERSION = Some (j_of_string J v)"
  shows "StreamMeta_process J m s =
    (Ret (if 0 < a \<or> 6 \<le> b then 0 else -1), s\<lparr>sm_apiVersion := v\<rparr>)"
proof -
  have "check_version v = (if a = 0 \<and> b < 6 then Ret (-1) else Next)"
    unfolding assms(5) by (rule check_version_decimal) (use assms(2-4) in auto)
  then show ?thesis
    using assms(1,6-8)
    by (auto simp add: StreamMeta_process_def meta_method_def meta_params_def meta_apiVersion_def
        try_catch_def json_simps)
qed

theorem version_check_witness:
  "StreamMeta_process tree_lib
     \<lparr>mi_type = METAINFORMATION_MSGPACK, mi_content = TObj [
        (METHOD, TStr META_METHOD_APIVERSION), (PARAMS, TObj [(VERSION, TStr ''0.5.9'')])]\<rparr>
     (StreamMeta_init 0) = (Ret (-1), (StreamMeta_init 0)\<lparr>sm_apiVersion := ''0.5.9''\<rparr>)"
proof -
  have "to_decimal 0 = ''0''" "to_decimal 5 = ''5''" "to_decimal 9 = ''9''" by code_simp+
  then show ?thesis
    using version_check [OF tree_json_laws, of 0 5 9 "''0.5.9''"
        "\<lparr>mi_type = METAINFORMATION_MSGPACK, mi_content = TObj [
           (METHOD, TStr META_METHOD_APIVERSION), (PARAMS, TObj [(VERSION, TStr ''0.5.9'')])]\<rparr>"
        "TObj [(VERSION, TStr ''0.5.9'')]" "StreamMeta_init 0"]
    by (simp add: tree_lib_def)
qed

end
