(* ===== verification/Subscribed_Signal.thy ===== *)
theory Subscribed_Signal
  imports Stream_Meta
begin

text \<open>
  A signal on the consumer's side (\<open>SubscribedSignal.hpp\<close>, \<open>SubscribedSignal.cpp\<close>): its state,
  the interpretation of signal related meta information, the size of a value, and the
  delivery of measured data to the callbacks. Shown: the invariant that keeps every divisor
  but one different from zero, that the size computation ends, what data processing delivers
  on each branch, and what a description leaves untouched.
\<close>

section \<open>State\<close>

text \<open>
  \<open>m_timeSignal\<close> is a shared pointer to another signal: a reference into the container's
  store of signal objects.
\<close>

record 'j signal =
  s_number :: u32
  s_id :: string
  s_tableId :: string
  s_isTime :: bool
  s_datatypeDetails :: 'j
  s_bits :: 'j
  s_valueType :: sample_type
  s_valueSize :: u64
  s_rule :: rule_type
  s_memberName :: string
  s_timeSignal :: "nat option"
  s_time :: u64
  s_linearDelta :: u64
  s_linearDeltaJson :: 'j
  s_constRuleStartJson :: 'j
  s_linearValueIndex :: u64
  s_epoch :: string
  s_resolution :: resolution
  s_timeBaseFrequency :: u64
  s_unit :: munit
  s_range :: range
  s_postScaling :: postScaling
  s_interpretation :: 'j
  s_related :: "string \<rightharpoonup> string"

text \<open>Accessors that the container and the client call.\<close>

abbreviation (input) isTimeSignal :: "'j signal \<Rightarrow> bool" where "isTimeSignal s \<equiv> s_isTime s"
abbreviation (input) ruleType :: "'j signal \<Rightarrow> rule_type" where "ruleType s \<equiv> s_rule s"
abbreviation (input) dataValueSize :: "'j signal \<Rightarrow> u64" where "dataValueSize s \<equiv> s_valueSize s"
abbreviation (input) setTime :: "u64 \<Rightarrow> 'j signal \<Rightarrow> 'j signal" where "setTime timeStamp s \<equiv> s\<lparr>s_time := timeStamp\<rparr>"
abbreviation (input) setTimeIndex :: "u64 \<Rightarrow> 'j signal \<Rightarrow> 'j signal" where
  "setTimeIndex index s \<equiv> s\<lparr>s_linearValueIndex := index\<rparr>"
abbreviation (input) setTimeSignal :: "nat option \<Rightarrow> 'j signal \<Rightarrow> 'j signal" where
  "setTimeSignal timeSignal s \<equiv> s\<lparr>s_timeSignal := timeSignal\<rparr>"

definition SubscribedSignal_init :: "'j json_lib \<Rightarrow> u32 \<Rightarrow> 'j signal" where
  "SubscribedSignal_init J n = \<lparr>
     s_number = n, s_id = [], s_tableId = [], s_isTime = False,
     s_datatypeDetails = j_null J, s_bits = j_null J,
     s_valueType = SAMPLETYPE_UNKNOWN, s_valueSize = 4, s_rule = RULETYPE_EXPLICIT,
     s_memberName = [], s_timeSignal = None, s_time = 0, s_linearDelta = 0,
     s_linearDeltaJson = j_null J, s_constRuleStartJson = j_null J, s_linearValueIndex = 0,
     s_epoch = [], s_resolution = Resolution_default, s_timeBaseFrequency = 0,
     s_unit = Unit_clear, s_range = Range_clear, s_postScaling = PostScaling_clear,
     s_interpretation = j_null J, s_related = Map.empty \<rparr>"

section \<open>Measured data\<close>

text \<open>
  The callbacks observe the signal as it is when they are called. They are recorded as
  events, in the order of the calls: raw bytes with their time stamp, values with their
  count, meta information of the signal.
\<close>

datatype 'j event =
    RawData "'j signal" u64 "byte list"
  | ValueData "'j signal" u64 "byte list" u64
  | SignalMetaCb "'j signal" string 'j

definition size_of :: "byte list \<Rightarrow> u64" where
  "size_of d = word_of_nat (length d)"

definition ssize_of :: "byte list \<Rightarrow> int" where
  "ssize_of d = sint (size_of d)"

text \<open>A division by zero traps: the event before it has already been delivered.\<close>

definition deliver ::
  "byte list \<Rightarrow> u64 \<Rightarrow> u64 \<Rightarrow> (u64 \<Rightarrow> 'j signal \<Rightarrow> 'j signal) \<Rightarrow> 'j signal
     \<Rightarrow> (exn + int) \<times> 'j signal \<times> 'j event list" where
  "deliver d timeStamp bytesPerValue after s =
     (if bytesPerValue = 0 then (Inl Undefined, s, [RawData s timeStamp d])
      else let valueCount = size_of d div bytesPerValue
           in (Inr (ssize_of d), after valueCount s,
               [RawData s timeStamp d, ValueData s timeStamp d valueCount]))"

definition signal_processMeasuredData ::
  "byte list \<Rightarrow> 'j signal option \<Rightarrow> 'j signal \<Rightarrow> (exn + int) \<times> 'j signal \<times> 'j event list" where
  "signal_processMeasuredData d timeSignal s =
     (case timeSignal of
        None \<Rightarrow>
          if s_valueSize s = 0 then (Inl Undefined, s, [])
          else if size_of d mod s_valueSize s \<noteq> 0 then (Inr (ssize_of d), s, [])
          else deliver d 0 (s_valueSize s) (\<lambda>n s. s) s
      | Some t \<Rightarrow>
          (case s_rule t of
             RULETYPE_LINEAR \<Rightarrow>
               let s1 = s\<lparr>s_linearDelta := s_linearDelta t\<rparr>
               in if s_rule s1 = RULETYPE_EXPLICIT then
                    deliver d
                      (s_time t + (s_linearValueIndex s1 - s_linearValueIndex t) * s_linearDelta s1)
                      (s_valueSize s1)
                      (\<lambda>n s. s\<lparr>s_linearValueIndex := s_linearValueIndex s + n\<rparr>) s1
                  else if s_rule s1 = RULETYPE_CONSTANT then
                    deliver d (s_time t) (8 + s_valueSize s1) (\<lambda>n s. s) s1
                  else (Inr (ssize_of d), s1, [])
           | RULETYPE_EXPLICIT \<Rightarrow>
               if s_valueSize s = 0 then (Inl Undefined, s, [])
               else if size_of d mod s_valueSize s \<noteq> 0 then (Inr (ssize_of d), s, [])
               else deliver d (s_time t) (s_valueSize s) (\<lambda>n s. s) s
           | RULETYPE_CONSTANT \<Rightarrow> (Inr (-1), s, [])
           | RULETYPE_UNKNOWN \<Rightarrow> (Inr (-1), s, [])))"

section \<open>The size of a value\<close>

definition scalar_size :: "string \<Rightarrow> u64 option" where
  "scalar_size dataType =
     (if dataType = DATA_TYPE_UINT8 then Some 1
      else if dataType = DATA_TYPE_UINT16 then Some 2
      else if dataType = DATA_TYPE_UINT32 then Some 4
      else if dataType = DATA_TYPE_UINT64 then Some 8
      else if dataType = DATA_TYPE_INT8 then Some 1
      else if dataType = DATA_TYPE_INT16 then Some 2
      else if dataType = DATA_TYPE_INT32 then Some 4
      else if dataType = DATA_TYPE_INT64 then Some 8
      else if dataType = DATA_TYPE_REAL32 then Some 4
      else if dataType = DATA_TYPE_REAL64 then Some 8
      else if dataType = DATA_TYPE_COMPLEX32 then Some 8
      else if dataType = DATA_TYPE_COMPLEX64 then Some 16
      else None)"

text \<open>
  The check for one-dimensional arrays of primitives: \<open>None\<close> is the early \<open>return 0\<close>,
  otherwise the element count (an \<open>int\<close> converted to \<open>size_t\<close>).
\<close>

definition linear_count :: "'j json_lib \<Rightarrow> 'j \<Rightarrow> exn + u64 option" where
  "linear_count J linear =
     (case j_value_int32 J linear META_START 0 of
        None \<Rightarrow> Inl Json_exception
      | Some start \<Rightarrow>
          if start \<noteq> 1 then Inr None
          else (case j_value_int32 J linear META_DELTA 0 of
             None \<Rightarrow> Inl Json_exception
           | Some delta \<Rightarrow>
               if delta \<noteq> 0 then Inr None
               else (case j_value_int32 J linear META_SIZE 1 of
                  None \<Rightarrow> Inl Json_exception
                | Some n \<Rightarrow> Inr (Some (scast n)))))"

definition dimension_count :: "'j json_lib \<Rightarrow> 'j \<Rightarrow> exn + u64 option" where
  "dimension_count J definitionNode =
     (if j_find J definitionNode META_DIMENSIONS = None then Inr (Some 1)
      else (case j_index_const J definitionNode META_DIMENSIONS of
        Inl e \<Rightarrow> Inl e
      | Inr dimensions \<Rightarrow>
          if \<not> j_is_array J dimensions \<or> length (j_items J dimensions) \<noteq> 1
             \<or> \<not> j_is_object J (hd (j_items J dimensions)) then Inr None
          else
            let dimension = hd (j_items J dimensions)
            in (case j_value_string J dimension META_RULE [] of
                  None \<Rightarrow> Inl Json_exception
                | Some rule \<Rightarrow>
                    if rule \<noteq> ''linear'' \<or> j_find J dimension META_RULETYPE_LINEAR = None then Inr None
                    else (case j_index J dimension META_RULETYPE_LINEAR of
                       Inl e \<Rightarrow> Inl e
                     | Inr linear \<Rightarrow>
                         if \<not> j_is_object J linear then Inr None else linear_count J linear))))"

text \<open>
  The composite types, with the recursive call as a parameter: the members of a struct are
  added up, an array multiplies.
\<close>

fun struct_size :: "('j \<Rightarrow> exn + u64) \<Rightarrow> u64 \<Rightarrow> u64 \<Rightarrow> 'j list \<Rightarrow> exn + u64" where
  "struct_size rec count dataTypeSize [] = Inr dataTypeSize"
| "struct_size rec count dataTypeSize (sub # subs) =
     (case rec sub of
        Inl e \<Rightarrow> Inl e
      | Inr n \<Rightarrow> struct_size rec count (dataTypeSize + n * count) subs)"

definition composite_size ::
  "'j json_lib \<Rightarrow> ('j \<Rightarrow> exn + u64) \<Rightarrow> 'j \<Rightarrow> u64 \<Rightarrow> string \<Rightarrow> exn + u64" where
  "composite_size J rec node count dataType =
     (if dataType = DATA_TYPE_BITFIELD then
        (case j_index_const J node DATA_TYPE_BITFIELD of
           Inl e \<Rightarrow> Inl e
         | Inr sub \<Rightarrow> (case rec sub of Inl e \<Rightarrow> Inl e | Inr n \<Rightarrow> Inr (n * count)))
      else if dataType = DATA_TYPE_ARRAY then
        (case j_index_const J node DATA_TYPE_ARRAY of
           Inl e \<Rightarrow> Inl e
         | Inr sub \<Rightarrow>
             (case j_index J sub META_COUNT of
                Inl e \<Rightarrow> Inl e
              | Inr c \<Rightarrow>
                  (case j_to_uint64 J c of
                     None \<Rightarrow> Inl Json_exception
                   | Some arrayCount \<Rightarrow>
                       (case rec sub of Inl e \<Rightarrow> Inl e | Inr n \<Rightarrow> Inr (n * count * arrayCount)))))
      else if dataType = DATA_TYPE_STRUCT then
        (case j_index_const J node DATA_TYPE_STRUCT of
           Inl e \<Rightarrow> Inl e
         | Inr members \<Rightarrow> struct_size rec count 0 (j_items J members))
      else Inr 0)"

definition node_size :: "'j json_lib \<Rightarrow> ('j \<Rightarrow> exn + u64) \<Rightarrow> 'j \<Rightarrow> exn + u64" where
  "node_size J rec node =
     (case j_value_string J node META_NAME [] of
        None \<Rightarrow> Inl Json_exception
      | Some name \<Rightarrow>
          (case dimension_count J node of
             Inl e \<Rightarrow> Inl e
           | Inr None \<Rightarrow> Inr 0
           | Inr (Some count) \<Rightarrow>
               (case j_find J node META_DATATYPE of
                  None \<Rightarrow> Inr 0
                | Some datatypeNode \<Rightarrow>
                    (case j_to_string J datatypeNode of
                       None \<Rightarrow> Inl Json_exception
                     | Some dataType \<Rightarrow>
                         (case scalar_size dataType of
                            Some n \<Rightarrow> Inr (n * count)
                          | None \<Rightarrow> composite_size J rec node count dataType)))))"

text \<open>
  The recursion follows the nesting of the document; the fuel bounds it, and the document's
  depth is always enough (\<open>data_type_size_enough\<close>).
\<close>

fun data_type_size :: "'j json_lib \<Rightarrow> nat \<Rightarrow> 'j \<Rightarrow> exn + u64" where
  "data_type_size J 0 node = Inl Out_of_fuel"
| "data_type_size J (Suc fuel) node = node_size J (data_type_size J fuel) node"

definition getDataTypeSize :: "'j json_lib \<Rightarrow> 'j \<Rightarrow> exn + u64" where
  "getDataTypeSize J node = data_type_size J (Suc (j_depth J node)) node"

section \<open>Meta information of a signal\<close>

subsection \<open>Subscribe acknowledge, table, value index, interpretation\<close>

text \<open>\<open>m_x = node\<close> for a string, \<open>m_x = node.dump()\<close> for a number, \<open>return -1\<close> otherwise.\<close>

definition assign_text :: "'j json_lib \<Rightarrow> 'j \<Rightarrow> (string \<Rightarrow> 's \<Rightarrow> 's) \<Rightarrow> 's block" where
  "assign_text J node upd s =
     (if j_is_string J node then assign (j_to_string J node) upd s
      else if j_is_number J node then (Next, upd (j_dump J node) s)
      else (Ret (-1), s))"

definition meta_subscribe :: "'j json_lib \<Rightarrow> 'j \<Rightarrow> 'j signal block" where
  "meta_subscribe J params s =
     (case j_find J params META_SIGNALID of
        None \<Rightarrow> (Ret (-1), s)
      | Some node \<Rightarrow> assign_text J node (\<lambda>x s. s\<lparr>s_id := x\<rparr>) s)"

definition meta_tableId :: "'j json_lib \<Rightarrow> 'j \<Rightarrow> 'j signal block" where
  "meta_tableId J params =
     if_found J params META_TABLEID (\<lambda>node. assign_text J node (\<lambda>x s. s\<lparr>s_tableId := x\<rparr>))"

definition meta_valueIndex :: "'j json_lib \<Rightarrow> 'j \<Rightarrow> 'j signal block" where
  "meta_valueIndex J params =
     if_found J params META_VALUEINDEX
       (\<lambda>v. assign (j_to_uint64 J v) (\<lambda>x s. s\<lparr>s_linearValueIndex := x\<rparr>))"

definition meta_interpretation :: "'j json_lib \<Rightarrow> 'j \<Rightarrow> 'j signal block" where
  "meta_interpretation J params =
     if_found J params META_INTERPRETATION (\<lambda>v s. (Next, s\<lparr>s_interpretation := v\<rparr>))"

subsection \<open>The definition object\<close>

definition def_linear :: "'j json_lib \<Rightarrow> 'j \<Rightarrow> 'j signal block" where
  "def_linear J definitionNode =
     if_found J definitionNode META_RULETYPE_LINEAR (\<lambda>linearNode.
       if_found J linearNode META_DELTA (\<lambda>delta s.
         let s1 = s\<lparr>s_linearDeltaJson := delta\<rparr>
         in if \<not> j_is_number J delta then (Ret (-1), s1)
            else assign (j_to_uint64 J delta) (\<lambda>x s. s\<lparr>s_linearDelta := x\<rparr>) s1))"

definition def_constant :: "'j json_lib \<Rightarrow> 'j \<Rightarrow> 'j signal block" where
  "def_constant J definitionNode =
     if_found J definitionNode META_RULETYPE_CONSTANT (\<lambda>constantRuleNode.
       if_found J constantRuleNode META_START (\<lambda>start s.
         let s1 = s\<lparr>s_constRuleStartJson := start\<rparr>
         in if \<not> j_is_number J start then (Ret (-1), s1) else (Next, s1)))"

definition set_rule :: "string \<Rightarrow> 'j signal block" where
  "set_rule rule s =
     (if rule = META_RULETYPE_LINEAR then
        (if s_linearDelta s = 0 then (Ret (-1), s) else (Next, s\<lparr>s_rule := RULETYPE_LINEAR\<rparr>))
      else if rule = META_RULETYPE_EXPLICIT then (Next, s\<lparr>s_rule := RULETYPE_EXPLICIT\<rparr>)
      else if rule = META_RULETYPE_CONSTANT then (Next, s\<lparr>s_rule := RULETYPE_CONSTANT\<rparr>)
      else (Ret (-1), s))"

definition def_rule :: "'j json_lib \<Rightarrow> 'j \<Rightarrow> 'j signal block" where
  "def_rule J definitionNode =
     if_found J definitionNode META_RULE (\<lambda>v s.
       case j_to_string J v of
         None \<Rightarrow> (Raise Json_exception, s)
       | Some rule \<Rightarrow> set_rule rule s)"

definition def_size :: "'j json_lib \<Rightarrow> 'j \<Rightarrow> 'j signal block" where
  "def_size J definitionNode s =
     (case getDataTypeSize J definitionNode of
        Inl e \<Rightarrow> (Raise e, s)
      | Inr valueSize \<Rightarrow>
          (Next, if valueSize \<noteq> 0 then s\<lparr>s_valueSize := valueSize\<rparr> else s))"

definition def_name :: "'j json_lib \<Rightarrow> 'j \<Rightarrow> 'j signal block" where
  "def_name J definitionNode =
     if_found J definitionNode META_NAME
       (\<lambda>v. assign (j_to_string J v) (\<lambda>x s. s\<lparr>s_memberName := x\<rparr>))"

text \<open>\<open>operator[]\<close> on a mutable member: a missing key is inserted as null.\<close>

definition index_insert :: "'j json_lib \<Rightarrow> 'j \<Rightarrow> string \<Rightarrow> exn + 'j \<times> 'j" where
  "index_insert J j k =
     (case j_index J j k of
        Inl e \<Rightarrow> Inl e
      | Inr v \<Rightarrow> Inr (v, if j_find J j k = None then j_put J j k (j_null J) else j))"

definition def_bitField :: "'j json_lib \<Rightarrow> 'j \<Rightarrow> 'j signal block" where
  "def_bitField J definitionNode s =
     (case j_index_const J definitionNode DATA_TYPE_BITFIELD of
        Inl e \<Rightarrow> (Raise e, s)
      | Inr details \<Rightarrow>
          let s1 = s\<lparr>s_datatypeDetails := details\<rparr>
          in (case index_insert J details ''bits'' of
                Inl e \<Rightarrow> (Raise e, s1)
              | Inr (bits, details') \<Rightarrow>
                  let s2 = s1\<lparr>s_datatypeDetails := details', s_bits := bits\<rparr>
                  in (case index_insert J details' META_DATATYPE of
                        Inl e \<Rightarrow> (Raise e, s2)
                      | Inr (t, details'') \<Rightarrow>
                          let s3 = s2\<lparr>s_datatypeDetails := details''\<rparr>
                          in (case j_to_string J t of
                                None \<Rightarrow> (Raise Json_exception, s3)
                              | Some bitfieldDataType \<Rightarrow>
                                  if bitfieldDataType = DATA_TYPE_UINT32
                                  then (Next, s3\<lparr>s_valueType := SAMPLETYPE_BITFIELD32\<rparr>)
                                  else if bitfieldDataType = DATA_TYPE_UINT64
                                  then (Next, s3\<lparr>s_valueType := SAMPLETYPE_BITFIELD64\<rparr>)
                                  else (Ret (-1), s3)))))"

definition def_details :: "'j json_lib \<Rightarrow> 'j \<Rightarrow> string \<Rightarrow> sample_type \<Rightarrow> 'j signal block" where
  "def_details J definitionNode k t s =
     (case j_index_const J definitionNode k of
        Inl e \<Rightarrow> (Raise e, s)
      | Inr details \<Rightarrow> (Next, s\<lparr>s_datatypeDetails := details, s_valueType := t\<rparr>))"

definition set_dataType :: "'j json_lib \<Rightarrow> 'j \<Rightarrow> string \<Rightarrow> 'j signal block" where
  "set_dataType J definitionNode dataType s =
     (if dataType = DATA_TYPE_UINT8 then (Next, s\<lparr>s_valueType := SAMPLETYPE_U8\<rparr>)
      else if dataType = DATA_TYPE_UINT16 then (Next, s\<lparr>s_valueType := SAMPLETYPE_U16\<rparr>)
      else if dataType = DATA_TYPE_UINT32 then (Next, s\<lparr>s_valueType := SAMPLETYPE_U32\<rparr>)
      else if dataType = DATA_TYPE_UINT64 then (Next, s\<lparr>s_valueType := SAMPLETYPE_U64\<rparr>)
      else if dataType = DATA_TYPE_INT8 then (Next, s\<lparr>s_valueType := SAMPLETYPE_S8\<rparr>)
      else if dataType = DATA_TYPE_INT16 then (Next, s\<lparr>s_valueType := SAMPLETYPE_S16\<rparr>)
      else if dataType = DATA_TYPE_INT32 then (Next, s\<lparr>s_valueType := SAMPLETYPE_S32\<rparr>)
      else if dataType = DATA_TYPE_INT64 then (Next, s\<lparr>s_valueType := SAMPLETYPE_S64\<rparr>)
      else if dataType = DATA_TYPE_REAL32 then (Next, s\<lparr>s_valueType := SAMPLETYPE_REAL32\<rparr>)
      else if dataType = DATA_TYPE_REAL64 then (Next, s\<lparr>s_valueType := SAMPLETYPE_REAL64\<rparr>)
      else if dataType = DATA_TYPE_BITFIELD then def_bitField J definitionNode s
      else if dataType = DATA_TYPE_COMPLEX32 then (Next, s\<lparr>s_valueType := SAMPLETYPE_COMPLEX32\<rparr>)
      else if dataType = DATA_TYPE_COMPLEX64 then (Next, s\<lparr>s_valueType := SAMPLETYPE_COMPLEX64\<rparr>)
      else if dataType = DATA_TYPE_ARRAY then def_details J definitionNode DATA_TYPE_ARRAY SAMPLETYPE_ARRAY s
      else if dataType = DATA_TYPE_DYNAMIC_ARRAY then (Ret (-1), s)
      else if dataType = DATA_TYPE_STRUCT then def_details J definitionNode DATA_TYPE_STRUCT SAMPLETYPE_STRUCT s
      else (Ret (-1), s))"

definition def_dataType :: "'j json_lib \<Rightarrow> 'j \<Rightarrow> 'j signal block" where
  "def_dataType J definitionNode =
     if_found J definitionNode META_DATATYPE (\<lambda>v s.
       case j_to_string J v of
         None \<Rightarrow> (Raise Json_exception, s)
       | Some dataType \<Rightarrow> set_dataType J definitionNode dataType s)"

definition def_unit :: "'j json_lib \<Rightarrow> 'j \<Rightarrow> 'j signal block" where
  "def_unit J definitionNode = run_blocks [
     zoom s_unit (\<lambda>x s. s\<lparr>s_unit := x\<rparr>) (Unit_parse J definitionNode),
     (\<lambda>s. (Next, if quantity (s_unit s) = META_TIME then s\<lparr>s_isTime := True\<rparr> else s))]"

text \<open>A result of -1 of \<open>Resolution::parse\<close> is not looked at: the old resolution stays.\<close>

definition def_resolution :: "'j json_lib \<Rightarrow> 'j \<Rightarrow> 'j signal block" where
  "def_resolution J definitionNode s =
     (case Resolution_parse J definitionNode (s_resolution s) of
        (fl, r) \<Rightarrow>
          let s1 = s\<lparr>s_resolution := r\<rparr>
          in (case fl of
                Raise e \<Rightarrow> (Raise e, s1)
              | _ \<Rightarrow>
                  if fl = Ret 1 then
                    (if unit_id (s_unit s1) = UNIT_ID_SECONDS
                        \<or> (unit_id (s_unit s1) = UNIT_ID_NONE \<and> displayName (s_unit s1) = ''s'')
                     then if numerator r = 0 then (Raise Undefined, s1)
                          else (Next, s1\<lparr>s_timeBaseFrequency := denominator r div numerator r\<rparr>)
                     else (Ret (-1), s1))
                  else (Next, s1)))"

definition def_absoluteReference :: "'j json_lib \<Rightarrow> 'j \<Rightarrow> 'j signal block" where
  "def_absoluteReference J definitionNode =
     if_found J definitionNode META_ABSOLUTE_REFERENCE
       (\<lambda>v. assign (j_to_string J v) (\<lambda>x s. s\<lparr>s_epoch := x\<rparr>))"

definition def_scaling :: "'j json_lib \<Rightarrow> 'j \<Rightarrow> 'j signal block" where
  "def_scaling J definitionNode = run_blocks [
     zoom s_range (\<lambda>x s. s\<lparr>s_range := x\<rparr>) (Range_parse J definitionNode),
     zoom s_postScaling (\<lambda>x s. s\<lparr>s_postScaling := x\<rparr>) (PostScaling_parse J definitionNode)]"

text \<open>One entry of the related signals: \<open>arrayItem\<close> is const, so a missing key is undefined.\<close>

definition add_related :: "'j json_lib \<Rightarrow> 'j \<Rightarrow> 'j signal block" where
  "add_related J arrayItem s =
     (case j_index_const J arrayItem META_TYPE of
        Inl e \<Rightarrow> (Raise e, s)
      | Inr t \<Rightarrow>
          (case j_to_string J t of
             None \<Rightarrow> (Raise Json_exception, s)
           | Some type \<Rightarrow>
               (case j_index_const J arrayItem META_SIGNALID of
                  Inl e \<Rightarrow> (Raise e, s)
                | Inr i \<Rightarrow>
                    assign (j_to_string J i)
                      (\<lambda>signalId s. s\<lparr>s_related := (s_related s)(type \<mapsto> signalId)\<rparr>) s)))"

definition def_related :: "'j json_lib \<Rightarrow> 'j \<Rightarrow> 'j signal block" where
  "def_related J params =
     if_found J params META_RELATEDSIGNALS (\<lambda>relatedSignals. run_blocks [
       (\<lambda>s. (Next, s\<lparr>s_related := Map.empty\<rparr>)),
       (if j_is_array J relatedSignals
        then run_blocks (map (add_related J) (j_items J relatedSignals))
        else (\<lambda>s. (Next, s)))])"

text \<open>The body of the \<open>try\<close>, in the order of the source; what only logs is left out.\<close>

definition definition_blocks :: "'j json_lib \<Rightarrow> 'j \<Rightarrow> 'j \<Rightarrow> 'j signal block list" where
  "definition_blocks J params definitionNode = [
     def_linear J definitionNode,
     def_constant J definitionNode,
     def_rule J definitionNode,
     def_size J definitionNode,
     def_name J definitionNode,
     def_dataType J definitionNode,
     def_unit J definitionNode,
     def_resolution J definitionNode,
     def_absoluteReference J definitionNode,
     def_scaling J definitionNode,
     def_related J params]"

definition meta_definition :: "'j json_lib \<Rightarrow> 'j \<Rightarrow> 'j signal block" where
  "meta_definition J params =
     if_found J params META_DEFINITION (\<lambda>definitionNode.
       try_catch Json_exception (-1) (run_blocks (definition_blocks J params definitionNode)))"

definition meta_signal_blocks :: "'j json_lib \<Rightarrow> 'j \<Rightarrow> 'j signal block list" where
  "meta_signal_blocks J params = [
     meta_tableId J params,
     meta_valueIndex J params,
     meta_interpretation J params,
     meta_definition J params]"

definition processSignalMetaInformation ::
  "'j json_lib \<Rightarrow> string \<Rightarrow> 'j \<Rightarrow> 'j signal \<Rightarrow> (exn + int) \<times> 'j signal" where
  "processSignalMetaInformation J method params s =
     (case (if method = META_METHOD_SUBSCRIBE then meta_subscribe J params s
            else if method = META_METHOD_SIGNAL then run_blocks (meta_signal_blocks J params) s
            else (Next, s)) of
        (fl, s') \<Rightarrow> (result_of 0 fl, s'))"

section \<open>Invariant and frame of meta information\<close>

text \<open>
  What the sources rely on when they divide: the value size is not zero ("may not be zero
  because it is used as divisor"), neither is the numerator of the resolution; and the rule
  is always a known one.
\<close>

definition signal_ok :: "'j signal \<Rightarrow> bool" where
  "signal_ok s \<longleftrightarrow> s_valueSize s \<noteq> 0 \<and> Resolution_valid (s_resolution s) \<and> s_rule s \<noteq> RULETYPE_UNKNOWN"

text \<open>The identity of a signal and its time: written by the container and by data only.\<close>

definition signal_frame :: "'j signal \<Rightarrow> u32 \<times> nat option \<times> u64" where
  "signal_frame s = (s_number s, s_timeSignal s, s_time s)"

lemmas block_defs =
  if_found_def assign_def zoom_def Let_def assign_text_def
  meta_tableId_def meta_valueIndex_def meta_interpretation_def
  def_linear_def def_constant_def def_rule_def set_rule_def def_size_def def_name_def
  def_dataType_def set_dataType_def def_bitField_def def_details_def
  def_absoluteReference_def def_scaling_def

lemmas block_splits = option.splits sum.splits if_splits prod.splits flow.splits

lemma signal_ok_init: "signal_ok (SubscribedSignal_init J n)"
  by (simp add: signal_ok_def SubscribedSignal_init_def Resolution_valid_def Resolution_default_def)

lemma run_related_frame:
  assumes "\<And>s x. p (s\<lparr>s_related := x\<rparr>) = p s"
  shows "leaves p (def_related J params)"
proof -
  have "leaves p (add_related J item)" for item
    using assms by (auto simp: leaves_def add_related_def assign_def split: block_splits)
  then show ?thesis
    unfolding def_related_def
    by (intro leaves_if_found leaves_run_blocks) (auto simp: leaves_def assms intro!: leavesD leaves_run_blocks)
qed

lemma leaves_keeps: "leaves P b \<Longrightarrow> keeps P b" for P :: "'s \<Rightarrow> bool"
  by (simp add: leaves_def keeps_def)

lemma definition_block_ok:
  "b \<in> set (definition_blocks J params d) \<Longrightarrow> keeps signal_ok b"
proof -
  have "keeps signal_ok (def_linear J d)"
    by (auto simp: keeps_def signal_ok_def block_defs split: block_splits)
  moreover have "keeps signal_ok (def_constant J d)"
    by (auto simp: keeps_def signal_ok_def block_defs split: block_splits)
  moreover have "keeps signal_ok (def_rule J d)"
    by (auto simp: keeps_def signal_ok_def block_defs split: block_splits)
  moreover have "keeps signal_ok (def_size J d)"
    by (auto simp: keeps_def signal_ok_def block_defs split: block_splits)
  moreover have "keeps signal_ok (def_name J d)"
    by (auto simp: keeps_def signal_ok_def block_defs split: block_splits)
  moreover have "keeps signal_ok (def_dataType J d)"
    by (auto simp: keeps_def signal_ok_def block_defs split: block_splits)
  moreover have "keeps signal_ok (def_unit J d)"
    by (auto simp: keeps_def signal_ok_def def_unit_def zoom_def split: block_splits)
  moreover have "keeps signal_ok (def_resolution J d)"
  proof
    fix s :: "'a signal" assume s: "signal_ok s"
    obtain fl r where eq: "Resolution_parse J d (s_resolution s) = (fl, r)"
      by (cases "Resolution_parse J d (s_resolution s)")
    then have "Resolution_valid r"
      using keepsD [OF keeps_Resolution_parse, of "s_resolution s" J d] s by (simp add: signal_ok_def)
    with s eq show "signal_ok (snd (def_resolution J d s))"
      by (auto simp: def_resolution_def signal_ok_def Let_def split: flow.splits)
  qed
  moreover have "keeps signal_ok (def_absoluteReference J d)"
    by (auto simp: keeps_def signal_ok_def block_defs split: block_splits)
  moreover have "keeps signal_ok (def_scaling J d)"
    unfolding def_scaling_def
    by (rule keeps_run_blocks) (auto simp: keeps_def signal_ok_def zoom_def split: prod.splits)
  moreover have "keeps signal_ok (def_related J params)"
    by (rule leaves_keeps) (rule run_related_frame, simp add: signal_ok_def)
  ultimately show "b \<in> set (definition_blocks J params d) \<Longrightarrow> keeps signal_ok b"
    by (auto simp: definition_blocks_def)
qed

lemma keeps_meta_definition: "keeps signal_ok (meta_definition J params)"
  unfolding meta_definition_def
  by (intro keeps_if_found keeps_try_catch keeps_run_blocks ballI, erule definition_block_ok)

lemma keeps_meta_signal:
  "keeps signal_ok (run_blocks (meta_signal_blocks J params))"
proof (rule keeps_run_blocks, rule ballI)
  fix b assume "b \<in> set (meta_signal_blocks J params)"
  then consider "b = meta_tableId J params" | "b = meta_valueIndex J params"
    | "b = meta_interpretation J params" | "b = meta_definition J params"
    by (auto simp: meta_signal_blocks_def)
  then show "keeps signal_ok b"
  proof cases
    case 4
    then show ?thesis by (simp only: keeps_meta_definition)
  qed (auto simp: keeps_def signal_ok_def block_defs split: block_splits)
qed

lemma processSignalMetaInformation_ok:
  "signal_ok s \<Longrightarrow> signal_ok (snd (processSignalMetaInformation J method params s))"
proof -
  have "keeps signal_ok (meta_subscribe J params)"
    by (auto simp: keeps_def signal_ok_def meta_subscribe_def block_defs split: block_splits)
  then show "signal_ok s \<Longrightarrow> ?thesis"
    using keeps_meta_signal [of J params]
    by (auto simp: processSignalMetaInformation_def keeps_def case_prod_beta)
qed


text \<open>The number, the time reference and the time are never written by meta information.\<close>

lemma definition_block_frame:
  "b \<in> set (definition_blocks J params d) \<Longrightarrow> leaves signal_frame b"
proof -
  have "leaves signal_frame (def_related J params)"
    by (rule run_related_frame) (simp add: signal_frame_def)
  moreover have "leaves signal_frame (def_unit J d)"
    unfolding def_unit_def
    by (rule leaves_run_blocks) (auto simp: leaves_def signal_frame_def zoom_def split: prod.splits)
  moreover have "leaves signal_frame (def_resolution J d)"
    by (auto simp: leaves_def def_resolution_def signal_frame_def Let_def split: block_splits)
  moreover have "leaves signal_frame (def_scaling J d)"
    unfolding def_scaling_def
    by (rule leaves_run_blocks) (auto simp: leaves_def signal_frame_def zoom_def split: prod.splits)
  moreover have "leaves signal_frame (def_linear J d)" "leaves signal_frame (def_constant J d)"
    "leaves signal_frame (def_rule J d)" "leaves signal_frame (def_size J d)"
    "leaves signal_frame (def_name J d)" "leaves signal_frame (def_dataType J d)"
    "leaves signal_frame (def_absoluteReference J d)"
    by (auto simp: leaves_def signal_frame_def block_defs split: block_splits)
  ultimately show "b \<in> set (definition_blocks J params d) \<Longrightarrow> leaves signal_frame b"
    by (auto simp: definition_blocks_def)
qed

lemma leaves_meta_definition: "leaves signal_frame (meta_definition J params)"
  unfolding meta_definition_def
  by (intro leaves_if_found leaves_try_catch leaves_run_blocks ballI, erule definition_block_frame)

lemma leaves_meta_signal: "leaves signal_frame (run_blocks (meta_signal_blocks J params))"
proof (rule leaves_run_blocks, rule ballI)
  fix b assume "b \<in> set (meta_signal_blocks J params)"
  then consider "b = meta_tableId J params" | "b = meta_valueIndex J params"
    | "b = meta_interpretation J params" | "b = meta_definition J params"
    by (auto simp: meta_signal_blocks_def)
  then show "leaves signal_frame b"
  proof cases
    case 4
    then show ?thesis by (simp only: leaves_meta_definition)
  qed (auto simp: leaves_def signal_frame_def block_defs split: block_splits)
qed

lemma processSignalMetaInformation_frame:
  "signal_frame (snd (processSignalMetaInformation J method params s)) = signal_frame s"
proof -
  have "leaves signal_frame (meta_subscribe J params)"
    by (auto simp: leaves_def signal_frame_def meta_subscribe_def block_defs split: block_splits)
  then show ?thesis
    using leaves_meta_signal [of J params]
    by (auto simp: processSignalMetaInformation_def leaves_def case_prod_beta)
qed

section \<open>The size of a value is always computed\<close>

text \<open>The library's access operations fail in two ways only.\<close>

definition foreign :: "exn \<Rightarrow> bool" where
  "foreign e \<longleftrightarrow> e \<notin> {Json_exception, Undefined}"

lemma not_foreign_index: "json_laws J \<Longrightarrow> foreign e \<Longrightarrow> j_index_const J j k \<noteq> Inl e"
  by (auto simp: index_const foreign_def split: option.splits)

lemma not_foreign_index_mutable: "json_laws J \<Longrightarrow> foreign e \<Longrightarrow> j_index J j k \<noteq> Inl e"
  by (auto simp: index_mutable foreign_def split: option.splits)

lemma dimension_count_not_foreign: "json_laws J \<Longrightarrow> foreign e \<Longrightarrow> dimension_count J node \<noteq> Inl e"
  by (auto simp: dimension_count_def linear_count_def Let_def not_foreign_index not_foreign_index_mutable
      split: option.splits sum.splits if_splits)
    (auto simp: foreign_def)

text \<open>
  The recursive call is made on strictly nested documents only: what holds of it there holds
  of the whole, and two versions that agree there give the same size.
\<close>

lemma struct_size_not_foreign:
  "(\<And>x. x \<in> set xs \<Longrightarrow> rec x \<noteq> Inl x0) \<Longrightarrow> struct_size rec c z xs \<noteq> Inl x0"
  by (induction xs arbitrary: z) (auto split: sum.splits)

lemma struct_size_cong:
  "(\<And>x. x \<in> set xs \<Longrightarrow> rec x = rec' x) \<Longrightarrow> struct_size rec c z xs = struct_size rec' c z xs"
  by (induction xs arbitrary: z) (auto split: sum.splits)

lemma node_size_not_foreign:
  assumes J: "json_laws J" and x0: "foreign x0" and rec: "\<And>x. j_depth J x < j_depth J node \<Longrightarrow> rec x \<noteq> Inl x0"
  shows "node_size J rec node \<noteq> Inl x0"
proof -
  have sub: "e \<noteq> x0" if "j_index_const J node k = Inr v" "rec v = Inl e" for k v e
    using rec [OF depth_index_const [OF J that(1)]] that(2) by auto
  have struct: "struct_size rec c z (j_items J v) \<noteq> Inl x0"
    if "j_index_const J node k = Inr v" for k v c z
    by (rule struct_size_not_foreign, rule rec)
      (use depth_index_const [OF J that] depth_items [OF J] in \<open>auto intro: le_less_trans\<close>)
  have "composite_size J rec node c t \<noteq> Inl x0" for c t
  proof -
    have at: "(case j_index_const J node k of Inl e \<Rightarrow> Inl e | Inr v \<Rightarrow> f v) \<noteq> Inl x0"
      if "\<And>v. j_index_const J node k = Inr v \<Longrightarrow> f v \<noteq> Inl x0"
      for k and f :: "'a \<Rightarrow> exn + u64"
      using that not_foreign_index [OF J x0, of node k] by (cases "j_index_const J node k") auto
    have scaled: "(case rec v of Inl e \<Rightarrow> Inl e | Inr n \<Rightarrow> Inr (g n)) \<noteq> Inl x0"
      if "j_index_const J node k = Inr v" for k v and g :: "u64 \<Rightarrow> u64"
      using sub [OF that] by (cases "rec v") auto
    have counted: "(case j_index J v META_COUNT of Inl e \<Rightarrow> Inl e
        | Inr m \<Rightarrow> (case j_to_uint64 J m of None \<Rightarrow> Inl Json_exception
           | Some k \<Rightarrow> (case rec v of Inl e \<Rightarrow> Inl e | Inr n \<Rightarrow> Inr (n * c * k)))) \<noteq> Inl x0"
      if "j_index_const J node k = Inr v" for k v
      using not_foreign_index_mutable [OF J x0, of v META_COUNT] scaled [OF that]
      by (cases "j_index J v META_COUNT") (use x0 in \<open>auto simp: foreign_def split: option.split\<close>)
    consider "t = DATA_TYPE_BITFIELD" | "t = DATA_TYPE_ARRAY" | "t = DATA_TYPE_STRUCT"
      | "t \<notin> {DATA_TYPE_BITFIELD, DATA_TYPE_ARRAY, DATA_TYPE_STRUCT}" by blast
    then show ?thesis
    proof cases
      case 1
      show ?thesis unfolding composite_size_def 1 by (simp, rule at, rule scaled)
    next
      case 2
      show ?thesis unfolding composite_size_def 2 by (simp, rule at, rule counted)
    next
      case 3
      show ?thesis unfolding composite_size_def 3 by (simp, rule at, rule struct)
    qed (simp add: composite_size_def)
  qed
  then show ?thesis
    using dimension_count_not_foreign [OF J x0, of node] x0
    by (auto simp: node_size_def foreign_def split: option.splits sum.splits)
qed

lemma node_size_cong:
  assumes J: "json_laws J" and rec: "\<And>x. j_depth J x < j_depth J node \<Longrightarrow> rec x = rec' x"
  shows "node_size J rec node = node_size J rec' node"
proof -
  have sub: "rec v = rec' v" if "j_index_const J node k = Inr v" for k v
    by (rule rec) (rule depth_index_const [OF J that])
  have struct: "struct_size rec c z (j_items J v) = struct_size rec' c z (j_items J v)"
    if "j_index_const J node k = Inr v" for k v c z
    by (rule struct_size_cong, rule rec)
      (use depth_index_const [OF J that] depth_items [OF J] in \<open>auto intro: le_less_trans\<close>)
  have "composite_size J rec node c t = composite_size J rec' node c t" for c t
    by (simp add: composite_size_def sub struct split: option.splits sum.splits)
  then show ?thesis
    by (simp add: node_size_def split: option.splits sum.splits)
qed

lemma data_type_size_enough:
  assumes "json_laws J" and "foreign e" and "j_depth J node < fuel"
  shows "data_type_size J fuel node \<noteq> Inl e"
  using assms(3)
proof (induction fuel arbitrary: node)
  case (Suc fuel)
  then show ?case by (auto intro!: node_size_not_foreign [OF assms(1,2)])
qed simp

lemma data_type_size_fuel:
  assumes "json_laws J" and "j_depth J node < fuel" and "j_depth J node < fuel'"
  shows "data_type_size J fuel node = data_type_size J fuel' node"
  using assms(2,3)
proof (induction fuel arbitrary: node fuel')
  case (Suc fuel)
  from Suc.prems obtain f where f: "fuel' = Suc f" by (cases fuel') auto
  have "data_type_size J fuel x = data_type_size J f x" if "j_depth J x < j_depth J node" for x
    using Suc.prems that f by (intro Suc.IH) auto
  then show ?case
    unfolding f data_type_size.simps(2) by (rule node_size_cong [OF assms(1)])
qed simp

lemma getDataTypeSize_unfold:
  assumes "json_laws J"
  shows "getDataTypeSize J node = node_size J (getDataTypeSize J) node"
proof -
  have "data_type_size J (j_depth J node) x = getDataTypeSize J x" if "j_depth J x < j_depth J node" for x
    unfolding getDataTypeSize_def using that by (intro data_type_size_fuel [OF assms]) auto
  then show ?thesis
    unfolding getDataTypeSize_def [of J node] data_type_size.simps(2)
    by (rule node_size_cong [OF assms])
qed

section \<open>The exceptions of meta information\<close>

lemma getDataTypeSize_raises:
  assumes "json_laws J" and "getDataTypeSize J node = Inl e"
  shows "e \<in> {Json_exception, Undefined}"
  using data_type_size_enough [OF assms(1), of e node "Suc (j_depth J node)"] assms(2)
  by (auto simp: getDataTypeSize_def foreign_def)

lemma index_raises:
  assumes "json_laws J"
  shows "j_index_const J j k = Inl e \<Longrightarrow> e \<in> {Json_exception, Undefined}"
    and "j_index J j k = Inl e \<Longrightarrow> e \<in> {Json_exception, Undefined}"
    and "index_insert J j k = Inl e \<Longrightarrow> e \<in> {Json_exception, Undefined}"
  using not_foreign_index [OF assms, of e j k] not_foreign_index_mutable [OF assms, of e j k]
  by (auto simp: foreign_def index_insert_def split: sum.splits)

lemma definition_block_raises:
  assumes J: "json_laws J" and b: "b \<in> set (definition_blocks J params d)"
  shows "raises_only {Json_exception, Undefined} b"
proof -
  note raises = getDataTypeSize_raises [OF J] index_raises [OF J]
  have "raises_only {Json_exception, Undefined} (add_related J item)" for item
    using raises by (auto simp: raises_only_def add_related_def assign_def split: block_splits)
  then have "raises_only {Json_exception, Undefined} (run_blocks (map (add_related J) items))" for items
    by (simp add: raises_only_run_blocks)
  then have "raises_only {Json_exception, Undefined} (def_related J params)"
    unfolding def_related_def
    by (intro raises_only_if_found raises_only_run_blocks) (simp, simp add: raises_only_def)
  moreover have "raises_only {Json_exception, Undefined} (def_unit J d)"
    unfolding def_unit_def
    by (intro raises_only_run_blocks) (simp add: raises_only_zoom raises_only_parse, simp add: raises_only_def)
  moreover have "raises_only {Json_exception, Undefined} (def_scaling J d)"
    unfolding def_scaling_def
    by (intro raises_only_run_blocks) (simp add: raises_only_zoom raises_only_parse)
  moreover have "raises_only {Json_exception, Undefined} (def_resolution J d)"
    using raises_onlyD [OF raises_only_parse(4), of "{Json_exception, Undefined}" J d]
    by (auto simp: raises_only_def def_resolution_def Let_def split: block_splits) (metis fst_conv)+
  moreover have "raises_only {Json_exception, Undefined} (def_linear J d)"
    "raises_only {Json_exception, Undefined} (def_constant J d)"
    "raises_only {Json_exception, Undefined} (def_rule J d)"
    "raises_only {Json_exception, Undefined} (def_name J d)"
    "raises_only {Json_exception, Undefined} (def_absoluteReference J d)"
    by (auto simp: raises_only_def block_defs split: block_splits)
  moreover have "raises_only {Json_exception, Undefined} (def_size J d)"
    "raises_only {Json_exception, Undefined} (def_dataType J d)"
    using raises by (auto simp: raises_only_def block_defs split: block_splits)
  ultimately show ?thesis using b by (auto simp: definition_blocks_def)
qed

text \<open>The \<open>try\<close> around the definition leaves undefined behaviour only.\<close>

lemma meta_definition_raises:
  assumes "json_laws J"
  shows "raises_only {Undefined} (meta_definition J params)"
  unfolding meta_definition_def
  by (intro raises_only_if_found raises_only_try_catch raises_only_run_blocks ballI,
      erule definition_block_raises [OF assms])

lemma processSignalMetaInformation_raises:
  assumes J: "json_laws J"
    and "fst (processSignalMetaInformation J method params s) = Inl e"
  shows "e \<in> {Json_exception, Undefined}"
proof -
  have "raises_only {Json_exception, Undefined} (meta_definition J params)"
    using meta_definition_raises [OF J, of params] by (auto simp: raises_only_def)
  then have "raises_only {Json_exception, Undefined} (run_blocks (meta_signal_blocks J params))"
    unfolding meta_signal_blocks_def
    by (intro raises_only_run_blocks)
      (auto simp: raises_only_def meta_tableId_def meta_valueIndex_def meta_interpretation_def
        assign_text_def if_found_def assign_def split: block_splits)
  moreover have "raises_only {Json_exception, Undefined} (meta_subscribe J params)"
    by (auto simp: raises_only_def meta_subscribe_def assign_text_def assign_def split: block_splits)
  ultimately show ?thesis
    using assms(2)
    by (auto simp: processSignalMetaInformation_def raises_only_def result_of_def case_prod_beta
        split: flow.splits if_splits)
qed

section \<open>Measured data\<close>

text \<open>A signal that receives meta information only: the states it can be in.\<close>

definition signal_exec :: "'j json_lib \<Rightarrow> string \<times> 'j \<Rightarrow> 'j signal \<Rightarrow> 'j signal" where
  "signal_exec J mp s = snd (processSignalMetaInformation J (fst mp) (snd mp) s)"

interpretation signal_machine: machine "SubscribedSignal_init J n" "signal_exec J" signal_ok for J n
  by unfold_locales (simp_all add: signal_ok_init signal_exec_def processSignalMetaInformation_ok)

text \<open>The state after delivery, and the events, when the divisor is not zero.\<close>

lemma deliver_nonzero [simp]:
  "b \<noteq> 0 \<Longrightarrow> deliver d ts b after s =
     (Inr (ssize_of d), after (size_of d div b) s, [RawData s ts d, ValueData s ts d (size_of d div b)])"
  by (simp add: deliver_def Let_def)

lemma processMeasuredData_ok:
  assumes "signal_ok s"
  shows "signal_ok (fst (snd (signal_processMeasuredData d t s)))"
  using assms
  by (auto simp: signal_processMeasuredData_def deliver_def signal_ok_def Let_def
      split: option.splits rule_type.splits)

lemma processMeasuredData_frame:
  "signal_frame (fst (snd (signal_processMeasuredData d t s))) = signal_frame s"
  by (auto simp: signal_processMeasuredData_def deliver_def signal_frame_def Let_def
      split: option.splits rule_type.splits)

lemma processMeasuredData_traps:
  assumes "signal_ok s"
  shows "fst (signal_processMeasuredData d t s) = Inl e \<longleftrightarrow>
    e = Undefined \<and> s_rule s = RULETYPE_CONSTANT \<and> s_valueSize s = - 8 \<and>
    (\<exists>t'. t = Some t' \<and> s_rule t' = RULETYPE_LINEAR)"
proof -
  have wrap: "8 + s_valueSize s = 0 \<longleftrightarrow> s_valueSize s = - 8" by (simp add: add_eq_0_iff)
  show ?thesis
    using assms
    by (auto simp: signal_processMeasuredData_def deliver_def signal_ok_def Let_def wrap
        split: option.splits rule_type.splits)
qed

text \<open>What a data signal with a linear time signal does with one packet.\<close>

lemma processMeasuredData_linear:
  assumes "s_rule t = RULETYPE_LINEAR" and "s_rule s = RULETYPE_EXPLICIT" and "s_valueSize s \<noteq> 0"
  shows "signal_processMeasuredData d (Some t) s =
    (let s1 = s\<lparr>s_linearDelta := s_linearDelta t\<rparr>;
         ts = s_time t + (s_linearValueIndex s - s_linearValueIndex t) * s_linearDelta t;
         n = size_of d div s_valueSize s
     in (Inr (ssize_of d), s1\<lparr>s_linearValueIndex := s_linearValueIndex s + n\<rparr>,
         [RawData s1 ts d, ValueData s1 ts d n]))"
  using assms by (simp add: signal_processMeasuredData_def Let_def)

text \<open>A signal fed with packets one after another, and what its callbacks are given.\<close>

fun feed :: "'j signal option \<Rightarrow> byte list list \<Rightarrow> 'j signal \<Rightarrow> 'j signal \<times> 'j event list" where
  "feed t [] s = (s, [])"
| "feed t (d # ds) s =
     (case signal_processMeasuredData d t s of
        (r, s', evs) \<Rightarrow> (case feed t ds s' of (s'', evs') \<Rightarrow> (s'', evs @ evs')))"

fun value_times :: "'j event list \<Rightarrow> (u64 \<times> u64) list" where
  "value_times [] = []"
| "value_times (ValueData s ts d n # evs) = (ts, n) # value_times evs"
| "value_times (ev # evs) = value_times evs"

lemma value_times_append [simp]: "value_times (evs @ evs') = value_times evs @ value_times evs'"
  by (induction evs rule: value_times.induct) auto

text \<open>The time stamps of consecutive packets of \<open>ns\<close> values from value index \<open>i\<close> on.\<close>

fun linear_times :: "u64 \<Rightarrow> u64 \<Rightarrow> u64 \<Rightarrow> u64 \<Rightarrow> u64 list \<Rightarrow> (u64 \<times> u64) list" where
  "linear_times t0 i0 delta i [] = []"
| "linear_times t0 i0 delta i (n # ns) =
     (t0 + (i - i0) * delta, n) # linear_times t0 i0 delta (i + n) ns"

lemma linear_times_nth:
  "k < length ns \<Longrightarrow>
     linear_times t0 i0 delta i ns ! k = (t0 + (i + sum_list (take k ns) - i0) * delta, ns ! k)"
proof (induction ns arbitrary: i k)
  case (Cons n ns)
  then show ?case by (cases k) (auto simp: add.assoc)
qed simp

lemma feed_linear:
  assumes "s_rule t = RULETYPE_LINEAR" and "s_rule s = RULETYPE_EXPLICIT" and "s_valueSize s \<noteq> 0"
  shows "value_times (snd (feed (Some t) ds s)) =
     linear_times (s_time t) (s_linearValueIndex t) (s_linearDelta t) (s_linearValueIndex s)
       (map (\<lambda>d. size_of d div s_valueSize s) ds)"
  using assms(2,3)
proof (induction ds arbitrary: s)
  case (Cons d ds)
  let ?s = "s\<lparr>s_linearDelta := s_linearDelta t, s_linearValueIndex := s_linearValueIndex s + size_of d div s_valueSize s\<rparr>"
  show ?case
    using Cons.IH [of ?s] Cons.prems
    by (simp add: processMeasuredData_linear [OF assms(1)] Let_def case_prod_beta)
qed simp

section \<open>Properties\<close>

text \<open>
  C24: whatever sequence of meta informations a new signal has received, measured data that
  arrives then is processed without a division by zero or another undefined operation, with
  one exception, which is described exactly: the time signal has the linear rule, the signal
  the constant rule, and the value size is $2^{64} - 8$, so that adding the eight bytes of
  the index wraps around to zero.
\<close>

theorem measured_data_defined:
  "let s = fold (signal_exec J) metas (SubscribedSignal_init J n)
   in fst (signal_processMeasuredData d t s) = Inl e \<longleftrightarrow>
        e = Undefined \<and> s_rule s = RULETYPE_CONSTANT \<and> s_valueSize s = - 8 \<and>
        (\<exists>t'. t = Some t' \<and> s_rule t' = RULETYPE_LINEAR)"
  unfolding Let_def
  by (rule processMeasuredData_traps) (rule signal_machine.good_run)

text \<open>
  Time stamps under a linear time signal. A signal with explicit values is fed with any
  packets; the value callback is called once per packet, and packet \<open>k\<close> carries the time of
  the time signal plus the linear delta times the number of values between the time signal's
  index and the first value of the packet, all packets before it counted (modulo $2^{64}$).
\<close>

lemma linear_time_stamps:
  assumes "s_rule t = RULETYPE_LINEAR" and "s_rule s = RULETYPE_EXPLICIT" and "s_valueSize s \<noteq> 0"
    and "k < length ds"
  defines "counts \<equiv> map (\<lambda>d. size_of d div s_valueSize s) ds"
  shows "length (value_times (snd (feed (Some t) ds s))) = length ds \<and>
    value_times (snd (feed (Some t) ds s)) ! k =
      (s_time t + (s_linearValueIndex s + sum_list (take k counts) - s_linearValueIndex t) * s_linearDelta t,
       counts ! k)"
proof -
  have "length (linear_times a b c i ns) = length ns" for a b c i ns
    by (induction ns arbitrary: i) auto
  then show ?thesis
    using assms(4) unfolding feed_linear [OF assms(1-3)] counts_def
    by (simp add: linear_times_nth)
qed

text \<open>
  C36: the size of a value is computed for every document, however deeply it is nested: the
  bound on the recursion is never reached, and the result satisfies the recursive equation of
  the source, in which the recursive call is unbounded.
\<close>

theorem getDataTypeSize_total:
  assumes "json_laws J"
  shows "getDataTypeSize J node \<noteq> Inl Out_of_fuel \<and>
    getDataTypeSize J node = node_size J (getDataTypeSize J) node"
proof
  show "getDataTypeSize J node \<noteq> Inl Out_of_fuel"
    unfolding getDataTypeSize_def by (rule data_type_size_enough [OF assms]) (simp_all add: foreign_def)
qed (rule getDataTypeSize_unfold [OF assms])

text \<open>Documents and signals for the witnesses.\<close>

definition example_struct :: jtree where
  "example_struct = TObj [
     (META_DATATYPE, TStr DATA_TYPE_STRUCT),
     (DATA_TYPE_STRUCT, TArr [
        TObj [(META_NAME, TStr ''amplitude''), (META_DATATYPE, TStr DATA_TYPE_REAL64)],
        TObj [(META_DATATYPE, TStr DATA_TYPE_ARRAY),
          (DATA_TYPE_ARRAY, TObj [(META_COUNT, TNum 3), (META_DATATYPE, TStr DATA_TYPE_INT16)])]])]"

theorem getDataTypeSize_total_witness:
  "getDataTypeSize tree_lib example_struct = node_size tree_lib (getDataTypeSize tree_lib) example_struct \<and>
   getDataTypeSize tree_lib example_struct = Inr 14"
  using getDataTypeSize_total [OF tree_json_laws, of example_struct]
  by (simp add: getDataTypeSize_def, code_simp)

end
