(* ===== verification/Signal_Container.thy ===== *)
theory Signal_Container
  imports Subscribed_Signal
begin

text \<open>
  The consumer's set of subscribed signals (\<open>SignalContainer.hpp\<close>, \<open>SignalContainer.cpp\<close>,
  \<open>Table.hpp\<close>): signal objects shared through pointers, the table that relates data signals
  to their time signal, and the dispatch of meta information and measured data. Shown: the
  container's invariant over every sequence of inputs, that streams whose signals keep their
  table never make it dereference a null pointer, what it rejects, what a signal
  leaves behind that is subscribed and unsubscribed again, and the time stamps that reach the
  callbacks.
\<close>

section \<open>State\<close>

text \<open>The signal numbers of a \<open>std::set\<close>, in the order of its iterators.\<close>

record table =
  timeSignalNumber :: u32
  dataSignalNumbers :: "u32 list"

definition Table_new :: table where
  "Table_new = \<lparr>timeSignalNumber = 0, dataSignalNumbers = []\<rparr>"

text \<open>
  Signal objects live in a store that only grows; a shared pointer is an index into it or
  null. A key of \<open>m_subscribedSignals\<close> can be bound to the null pointer: that is what
  \<open>operator[]\<close> inserts for a key it does not find. Callback slots hold the identity of the
  callback (0 for the initial one that does nothing), and every call of a callback is
  recorded.
\<close>

record 'j container =
  c_heap :: "'j signal list"
  c_signals :: "u32 \<rightharpoonup> nat option"
  c_tables :: "string \<rightharpoonup> table"
  c_signalMetaCb :: nat
  c_dataAsRawCb :: nat
  c_dataAsValueCb :: nat
  c_calls :: "(nat \<times> 'j event) list"

definition SignalContainer_init :: "'j container" where
  "SignalContainer_init = \<lparr>
     c_heap = [], c_signals = Map.empty, c_tables = Map.empty,
     c_signalMetaCb = 0, c_dataAsRawCb = 0, c_dataAsValueCb = 0, c_calls = []\<rparr>"

text \<open>An empty \<open>std::function\<close> is \<open>None\<close>.\<close>

definition setSignalMetaCb :: "nat option \<Rightarrow> 'j container \<Rightarrow> int \<times> 'j container" where
  "setSignalMetaCb cb c =
     (case cb of None \<Rightarrow> (-1, c) | Some f \<Rightarrow> (0, c\<lparr>c_signalMetaCb := f\<rparr>))"

definition setDataAsRawCb :: "nat option \<Rightarrow> 'j container \<Rightarrow> int \<times> 'j container" where
  "setDataAsRawCb cb c =
     (case cb of None \<Rightarrow> (-1, c) | Some f \<Rightarrow> (0, c\<lparr>c_dataAsRawCb := f\<rparr>))"

definition setDataAsValueCb :: "nat option \<Rightarrow> 'j container \<Rightarrow> int \<times> 'j container" where
  "setDataAsValueCb cb c =
     (case cb of None \<Rightarrow> (-1, c) | Some f \<Rightarrow> (0, c\<lparr>c_dataAsValueCb := f\<rparr>))"

section \<open>Meta information\<close>

definition leave_table :: "u32 \<Rightarrow> 'j signal \<Rightarrow> (string \<rightharpoonup> table) \<Rightarrow> string \<rightharpoonup> table" where
  "leave_table n s tables =
     (case tables (s_tableId s) of
        None \<Rightarrow> tables
      | Some t \<Rightarrow>
          let t1 = (if isTimeSignal s then t\<lparr>timeSignalNumber := 0\<rparr>
                    else t\<lparr>dataSignalNumbers := remove1 n (dataSignalNumbers t)\<rparr>)
          in if timeSignalNumber t1 = 0 \<and> dataSignalNumbers t1 = [] then tables(s_tableId s := None)
             else tables(s_tableId s \<mapsto> t1))"

definition enter_table :: "u32 \<Rightarrow> 'j signal \<Rightarrow> (string \<rightharpoonup> table) \<Rightarrow> string \<rightharpoonup> table" where
  "enter_table n s tables =
     (let t = (case tables (s_tableId s) of None \<Rightarrow> Table_new | Some t \<Rightarrow> t)
      in if isTimeSignal s then tables(s_tableId s \<mapsto> t\<lparr>timeSignalNumber := n\<rparr>)
         else tables(s_tableId s \<mapsto> t\<lparr>dataSignalNumbers := insort_insert n (dataSignalNumbers t)\<rparr>))"

text \<open>The first half of the function: the object the meta information is for, or the way out.\<close>

definition container_select ::
  "'j json_lib \<Rightarrow> string \<Rightarrow> 'j \<Rightarrow> u32 \<Rightarrow> 'j container \<Rightarrow> (flow + nat) \<times> 'j container" where
  "container_select J method params n c =
     (if method = META_METHOD_UNSUBSCRIBE then
        (case c_signals c n of
           None \<Rightarrow> (Inl (Ret (-1)), c)
         | Some None \<Rightarrow> (Inl (Raise Null_deref), c)
         | Some (Some r) \<Rightarrow> (Inr r, c\<lparr>c_tables := leave_table n (c_heap c ! r) (c_tables c)\<rparr>))
      else if method = META_METHOD_SUBSCRIBE then
        (case j_find J params META_SIGNALID of
           None \<Rightarrow> (Inl (Ret (-1)), c)
         | Some signalId \<Rightarrow>
             (case c_signals c n of
                Some p \<Rightarrow> (Inl (Ret (-1)), c)
              | None \<Rightarrow>
                  (Inr (length (c_heap c)),
                   c\<lparr>c_heap := c_heap c @ [SubscribedSignal_init J n],
                     c_signals := (c_signals c)(n \<mapsto> Some (length (c_heap c)))\<rparr>)))
      else
        (case c_signals c n of
           None \<Rightarrow> (Inl (Ret (-1)), c)
         | Some None \<Rightarrow> (Inl (Raise Null_deref), c)
         | Some (Some r) \<Rightarrow> (Inr r, c)))"

definition set_object :: "nat \<Rightarrow> 'j signal \<Rightarrow> 'j container \<Rightarrow> 'j container" where
  "set_object r s c = c\<lparr>c_heap := (c_heap c)[r := s]\<rparr>"

text \<open>The second half: table membership, the callback, and the end of an unsubscribed signal.\<close>

definition container_finish ::
  "string \<Rightarrow> 'j \<Rightarrow> u32 \<Rightarrow> 'j signal \<Rightarrow> 'j container \<Rightarrow> 'j container" where
  "container_finish method params n s c =
     (let c1 = (if method = META_METHOD_SIGNAL
                then c\<lparr>c_tables := enter_table n s (c_tables c)\<rparr> else c);
          c2 = c1\<lparr>c_calls := c_calls c1 @ [(c_signalMetaCb c1, SignalMetaCb s method params)]\<rparr>
      in if method = META_METHOD_UNSUBSCRIBE then c2\<lparr>c_signals := (c_signals c2)(n := None)\<rparr> else c2)"

definition container_processMetaInformation ::
  "'j json_lib \<Rightarrow> u32 \<Rightarrow> 'j meta_information \<Rightarrow> 'j container \<Rightarrow> (exn + int) \<times> 'j container" where
  "container_processMetaInformation J n m c =
     (case meta_method J m of
        Inl e \<Rightarrow> (Inl e, c)
      | Inr method \<Rightarrow>
          let params = meta_params J m
          in (case container_select J method params n c of
                (Inl fl, c1) \<Rightarrow> (result_of 0 fl, c1)
              | (Inr r, c1) \<Rightarrow>
                  (case processSignalMetaInformation J method params (c_heap c1 ! r) of
                     (Inl e, s) \<Rightarrow> (Inl e, set_object r s c1)
                   | (Inr k, s) \<Rightarrow>
                       if k \<noteq> 0 then (Inr k, set_object r s c1)
                       else (Inr 0, container_finish method params n s (set_object r s c1)))))"

section \<open>Measured data\<close>

text \<open>
  One round of the loop over a table's data signals: \<open>m_subscribedSignals[k]\<close> (which inserts
  a null pointer for an absent key), the write to the time signal, and the log message, whose
  arguments are evaluated and dereference the data signal.
\<close>

definition visit_dataSignal ::
  "nat \<Rightarrow> ('j signal \<Rightarrow> 'j signal) \<Rightarrow> u32 \<Rightarrow> 'j container block" where
  "visit_dataSignal r upd k c =
     (let c1 = (if c_signals c k = None then c\<lparr>c_signals := (c_signals c)(k \<mapsto> None)\<rparr> else c);
          c2 = set_object r (upd (c_heap c1 ! r)) c1
      in (case c_signals c2 k of
            Some (Some d) \<Rightarrow> (Next, c2)
          | _ \<Rightarrow> (Raise Null_deref, c2)))"

definition call_of :: "'j container \<Rightarrow> 'j event \<Rightarrow> nat \<times> 'j event" where
  "call_of c ev =
     (case ev of
        RawData _ _ _ \<Rightarrow> (c_dataAsRawCb c, ev)
      | ValueData _ _ _ _ \<Rightarrow> (c_dataAsValueCb c, ev)
      | SignalMetaCb _ _ _ \<Rightarrow> (c_signalMetaCb c, ev))"

text \<open>\<open>signal->processMeasuredData(...)\<close> on the object \<open>r\<close> with the time signal \<open>t\<close>.\<close>

definition object_processMeasuredData ::
  "nat \<Rightarrow> nat option \<Rightarrow> byte list \<Rightarrow> 'j container \<Rightarrow> (exn + int) \<times> 'j container" where
  "object_processMeasuredData r t d c =
     (case signal_processMeasuredData d (map_option ((!) (c_heap c)) t) (c_heap c ! r) of
        (res, s, evs) \<Rightarrow>
          (res, (set_object r s c)\<lparr>c_calls := c_calls c @ map (call_of c) evs\<rparr>))"

text \<open>An \<open>IndexedValue\<close> in memory: the value index, then the value.\<close>

definition indexed_index :: "byte list \<Rightarrow> u64" where
  "indexed_index d = of_le (take 8 d)"

definition indexed_value :: "byte list \<Rightarrow> u64" where
  "indexed_value d = of_le (take 8 (drop 8 d))"

text \<open>What a time packet writes to the time signal.\<close>

definition explicit_time :: "byte list \<Rightarrow> 'j signal \<Rightarrow> 'j signal" where
  "explicit_time d s = setTime (of_le (take 8 d)) s"

definition implicit_time :: "byte list \<Rightarrow> 'j signal \<Rightarrow> 'j signal" where
  "implicit_time d s = setTimeIndex (indexed_index d) (setTime (indexed_value d) s)"

definition explicit_time_blocks :: "nat \<Rightarrow> byte list \<Rightarrow> table option \<Rightarrow> 'j container block list" where
  "explicit_time_blocks r d table =
     (case table of
        None \<Rightarrow> []
      | Some t \<Rightarrow>
          if length d < 8 then [(\<lambda>c. (Raise Undefined, c))]
          else map (visit_dataSignal r (explicit_time d)) (dataSignalNumbers t))"

definition implicit_time_blocks :: "nat \<Rightarrow> byte list \<Rightarrow> table option \<Rightarrow> 'j container block list" where
  "implicit_time_blocks r d table =
     (case table of
        None \<Rightarrow> []
      | Some t \<Rightarrow>
          if length d < 16 \<and> dataSignalNumbers t \<noteq> [] then [(\<lambda>c. (Raise Undefined, c))]
          else map (visit_dataSignal r (implicit_time d)) (dataSignalNumbers t))"

text \<open>What follows a loop that may throw; a call whose result is not looked at.\<close>

definition after_loop :: "flow \<times> 's \<Rightarrow> ('s \<Rightarrow> (exn + int) \<times> 's) \<Rightarrow> (exn + int) \<times> 's" where
  "after_loop p k = (case fst p of Raise e \<Rightarrow> (Inl e, snd p) | _ \<Rightarrow> k (snd p))"

definition instead :: "int \<Rightarrow> (exn + int) \<times> 's \<Rightarrow> (exn + int) \<times> 's" where
  "instead n p = (case fst p of Inl e \<Rightarrow> (Inl e, snd p) | Inr _ \<Rightarrow> (Inr n, snd p))"

definition container_timeData :: "nat \<Rightarrow> byte list \<Rightarrow> 'j container \<Rightarrow> (exn + int) \<times> 'j container" where
  "container_timeData r d c =
     (let s = c_heap c ! r; table = c_tables c (s_tableId s)
      in if ruleType s = RULETYPE_EXPLICIT then
           after_loop (run_blocks (explicit_time_blocks r d table) c)
             (\<lambda>c1. instead (ssize_of d) (object_processMeasuredData r None d c1))
         else
           after_loop (run_blocks (implicit_time_blocks r d table) c) (\<lambda>c1. (Inr (ssize_of d), c1)))"

definition container_valueData :: "nat \<Rightarrow> byte list \<Rightarrow> 'j container \<Rightarrow> (exn + int) \<times> 'j container" where
  "container_valueData r d c =
     (let s = c_heap c ! r
      in (case c_tables c (s_tableId s) of
            None \<Rightarrow> (Inr (ssize_of d), c)
          | Some t \<Rightarrow>
              if timeSignalNumber t = 0 then (Inr (-1), c)
              else
                let k = timeSignalNumber t;
                    c1 = (if c_signals c k = None then c\<lparr>c_signals := (c_signals c)(k \<mapsto> None)\<rparr> else c);
                    timeSignal = the (c_signals c1 k);
                    c2 = set_object r (setTimeSignal timeSignal s) c1
                in object_processMeasuredData r timeSignal d c2))"

definition container_processMeasuredData ::
  "u32 \<Rightarrow> byte list \<Rightarrow> 'j container \<Rightarrow> (exn + int) \<times> 'j container" where
  "container_processMeasuredData n d c =
     (case c_signals c n of
        None \<Rightarrow> (Inr (-1), c)
      | Some None \<Rightarrow> (Inl Null_deref, c)
      | Some (Some r) \<Rightarrow>
          if isTimeSignal (c_heap c ! r) then container_timeData r d c else container_valueData r d c)"

text \<open>\<open>SubscribedSignal::timeLinearDelta\<close> follows the pointer to the time signal.\<close>

definition timeLinearDelta :: "nat \<Rightarrow> 'j container \<Rightarrow> u64" where
  "timeLinearDelta r c =
     (case s_timeSignal (c_heap c ! r) of None \<Rightarrow> 0 | Some q \<Rightarrow> s_linearDelta (c_heap c ! q))"

section \<open>Sequences of inputs\<close>

datatype 'j container_op = Meta_op u32 "'j meta_information" | Data_op u32 "byte list"

fun container_call :: "'j json_lib \<Rightarrow> 'j container_op \<Rightarrow> 'j container \<Rightarrow> (exn + int) \<times> 'j container" where
  "container_call J (Meta_op n m) c = container_processMetaInformation J n m c"
| "container_call J (Data_op n d) c = container_processMeasuredData n d c"

definition container_exec :: "'j json_lib \<Rightarrow> 'j container_op \<Rightarrow> 'j container \<Rightarrow> 'j container" where
  "container_exec J i c = snd (container_call J i c)"

section \<open>The invariant of the container\<close>

text \<open>
  Every pointer points into the store, a signal is registered under its own number, every
  object satisfies the invariant of signals, and the number sets are sets.
\<close>

definition object_ok :: "nat \<Rightarrow> 'j signal \<Rightarrow> bool" where
  "object_ok k s \<longleftrightarrow> signal_ok s \<and> (\<forall>r. s_timeSignal s = Some r \<longrightarrow> r < k)"

definition container_ok :: "'j container \<Rightarrow> bool" where
  "container_ok c \<longleftrightarrow>
     (\<forall>n r. c_signals c n = Some (Some r) \<longrightarrow> r < length (c_heap c) \<and> s_number (c_heap c ! r) = n) \<and>
     (\<forall>s \<in> set (c_heap c). object_ok (length (c_heap c)) s) \<and>
     (\<forall>T t. c_tables c T = Some t \<longrightarrow> sorted (dataSignalNumbers t) \<and> distinct (dataSignalNumbers t))"

lemma container_ok_init: "container_ok SignalContainer_init"
  by (simp add: container_ok_def SignalContainer_init_def)

lemma container_ok_ref:
  assumes "container_ok c" and "c_signals c n = Some (Some r)"
  shows "r < length (c_heap c)" and "s_number (c_heap c ! r) = n"
  using assms by (auto simp: container_ok_def)

lemma container_ok_object: "container_ok c \<Longrightarrow> r < length (c_heap c) \<Longrightarrow> object_ok (length (c_heap c)) (c_heap c ! r)"
  by (simp add: container_ok_def)

lemma set_object_sel [simp]:
  "c_heap (set_object r s c) = (c_heap c)[r := s]"
  "c_signals (set_object r s c) = c_signals c"
  "c_tables (set_object r s c) = c_tables c"
  "c_calls (set_object r s c) = c_calls c"
  "c_signalMetaCb (set_object r s c) = c_signalMetaCb c"
  "c_dataAsRawCb (set_object r s c) = c_dataAsRawCb c"
  "c_dataAsValueCb (set_object r s c) = c_dataAsValueCb c"
  by (simp_all add: set_object_def)

lemma set_object_ok:
  assumes "container_ok c" and "r < length (c_heap c)"
    and "object_ok (length (c_heap c)) s" and "s_number s = s_number (c_heap c ! r)"
  shows "container_ok (set_object r s c)"
  using assms set_update_subset_insert [of "c_heap c" r s]
  by (auto simp: container_ok_def nth_list_update)

lemma container_ok_calls [simp]: "container_ok (c\<lparr>c_calls := x\<rparr>) = container_ok c"
  by (simp add: container_ok_def)

lemma container_ok_erase: "container_ok c \<Longrightarrow> container_ok (c\<lparr>c_signals := (c_signals c)(n := None)\<rparr>)"
  by (auto simp: container_ok_def)

lemma container_ok_null: "container_ok c \<Longrightarrow> container_ok (c\<lparr>c_signals := (c_signals c)(n \<mapsto> None)\<rparr>)"
  by (auto simp: container_ok_def)

lemma sorted_remove1_distinct: "sorted xs \<Longrightarrow> distinct xs \<Longrightarrow> sorted (remove1 x xs) \<and> distinct (remove1 x xs)"
  by (simp add: sorted_remove1)

lemma container_ok_leave: "container_ok c \<Longrightarrow> container_ok (c\<lparr>c_tables := leave_table n s (c_tables c)\<rparr>)"
  by (auto simp: container_ok_def leave_table_def Let_def sorted_remove1_distinct split: option.splits)

lemma container_ok_enter: "container_ok c \<Longrightarrow> container_ok (c\<lparr>c_tables := enter_table n s (c_tables c)\<rparr>)"
  by (auto simp: container_ok_def enter_table_def Let_def Table_new_def sorted_insort_insert
      distinct_insort_insert split: option.splits)

lemma container_ok_subscribe:
  assumes "container_ok c" and "c_signals c n = None"
  shows "container_ok (c\<lparr>c_heap := c_heap c @ [SubscribedSignal_init J n],
           c_signals := (c_signals c)(n \<mapsto> Some (length (c_heap c)))\<rparr>)"
proof -
  have "object_ok k (SubscribedSignal_init J n)" for k
    by (simp add: object_ok_def signal_ok_init) (simp add: SubscribedSignal_init_def)
  moreover have "s_number (SubscribedSignal_init J n) = n" by (simp add: SubscribedSignal_init_def)
  moreover have "object_ok (Suc (length (c_heap c))) s" if "s \<in> set (c_heap c)" for s
    using that assms(1) by (fastforce simp: container_ok_def object_ok_def)
  ultimately show ?thesis
    using assms by (fastforce simp: container_ok_def nth_append)
qed

lemma container_select_ok:
  assumes "container_ok c" and "container_select J method params n c = (x, c1)"
  shows "container_ok c1"
    and "x = Inr r \<Longrightarrow> r < length (c_heap c1) \<and> c_signals c1 n = Some (Some r)"
  using assms container_ok_leave [OF assms(1)] container_ok_subscribe [OF assms(1)]
  by (auto simp: container_select_def container_ok_ref split: if_splits option.splits)

lemma processSignalMetaInformation_object:
  assumes "object_ok k s"
  shows "object_ok k (snd (processSignalMetaInformation J method params s))"
    and "s_number (snd (processSignalMetaInformation J method params s)) = s_number s"
  using assms processSignalMetaInformation_ok [of s] processSignalMetaInformation_frame [where J = J and s = s]
  by (auto simp: object_ok_def signal_frame_def)

lemma container_finish_ok: "container_ok c \<Longrightarrow> container_ok (container_finish method params n s c)"
  using container_ok_erase [of "c\<lparr>c_calls := x\<rparr>" n for x]
  by (simp add: container_finish_def Let_def container_ok_enter)

lemma container_processMetaInformation_ok:
  assumes "container_ok c"
  shows "container_ok (snd (container_processMetaInformation J n m c))"
proof (cases "meta_method J m")
  case (Inl e)
  then show ?thesis using assms by (simp add: container_processMetaInformation_def)
next
  case (Inr meth)
  obtain x c1 where sel: "container_select J meth (meta_params J m) n c = (x, c1)"
    by (cases "container_select J meth (meta_params J m) n c")
  note ok = container_select_ok [OF assms sel]
  show ?thesis
  proof (cases x)
    case (Inr r)
    obtain res s where p: "processSignalMetaInformation J meth (meta_params J m) (c_heap c1 ! r) = (res, s)"
      by (cases "processSignalMetaInformation J meth (meta_params J m) (c_heap c1 ! r)")
    have "container_ok (set_object r s c1)"
      using ok Inr container_ok_object [of c1 r] processSignalMetaInformation_object [of _ "c_heap c1 ! r" J "meth" "meta_params J m"]
      by (intro set_object_ok) (auto simp: p)
    then show ?thesis
      using \<open>meta_method J m = Inr meth\<close> Inr
      by (auto simp: container_processMetaInformation_def sel p container_finish_ok split: sum.splits)
  qed (use ok \<open>meta_method J m = Inr meth\<close> in \<open>simp add: container_processMetaInformation_def sel\<close>)
qed

subsection \<open>Measured data\<close>

lemma visit_dataSignal_ok:
  assumes "\<And>s. signal_ok (upd s) = signal_ok s" and "\<And>s. s_timeSignal (upd s) = s_timeSignal s"
    and "\<And>s. s_number (upd s) = s_number s"
  shows "keeps (\<lambda>c. container_ok c \<and> r < length (c_heap c)) (visit_dataSignal r upd k)"
proof (rule keepsI)
  fix c :: "'a container" assume c: "container_ok c \<and> r < length (c_heap c)"
  let ?c = "if c_signals c k = None then c\<lparr>c_signals := (c_signals c)(k \<mapsto> None)\<rparr> else c"
  have "container_ok ?c" using c by (simp add: container_ok_null)
  moreover have "object_ok (length (c_heap c)) (upd (c_heap c ! r))"
    using c container_ok_object [of c r] assms(1,2) by (simp add: object_ok_def)
  ultimately have "container_ok (set_object r (upd (c_heap ?c ! r)) ?c)"
    using c assms(3) by (intro set_object_ok) simp_all
  then show "container_ok (snd (visit_dataSignal r upd k c)) \<and> r < length (c_heap (snd (visit_dataSignal r upd k c)))"
    using c by (auto simp: visit_dataSignal_def Let_def split: option.splits)
qed

lemma signal_ok_time [simp]:
  "signal_ok (s\<lparr>s_time := x\<rparr>) = signal_ok s"
  "signal_ok (s\<lparr>s_linearValueIndex := y\<rparr>) = signal_ok s"
  "signal_ok (s\<lparr>s_timeSignal := z\<rparr>) = signal_ok s"
  by (simp_all add: signal_ok_def)

lemma time_blocks_ok:
  "keeps (\<lambda>c. container_ok c \<and> r < length (c_heap c)) (run_blocks (explicit_time_blocks r d t))"
  "keeps (\<lambda>c. container_ok c \<and> r < length (c_heap c)) (run_blocks (implicit_time_blocks r d t))"
  by (auto intro!: keeps_run_blocks visit_dataSignal_ok split: option.splits if_splits
      simp: explicit_time_blocks_def implicit_time_blocks_def explicit_time_def implicit_time_def)
    (auto simp: keeps_def)

lemma object_processMeasuredData_ok:
  assumes "container_ok c" and "r < length (c_heap c)"
  shows "container_ok (snd (object_processMeasuredData r t d c))"
proof -
  let ?p = "signal_processMeasuredData d (map_option ((!) (c_heap c)) t) (c_heap c ! r)"
  have "object_ok (length (c_heap c)) (fst (snd ?p))" and "s_number (fst (snd ?p)) = s_number (c_heap c ! r)"
    using container_ok_object [OF assms] processMeasuredData_ok [of "c_heap c ! r" d]
      processMeasuredData_frame [of d "map_option ((!) (c_heap c)) t" "c_heap c ! r"]
    by (auto simp: object_ok_def signal_frame_def)
  then show ?thesis
    using set_object_ok [OF assms] by (simp add: object_processMeasuredData_def case_prod_beta)
qed

lemma snd_instead [simp]: "snd (instead n p) = snd p"
  by (simp add: instead_def split: sum.splits)

lemma after_loop_state:
  assumes "P (snd p)" and "\<And>c. P c \<Longrightarrow> Q (snd (k c))" and "\<And>c. P c \<Longrightarrow> Q c"
  shows "Q (snd (after_loop p k))"
  using assms by (simp add: after_loop_def split: flow.splits)

lemma container_timeData_ok:
  assumes "container_ok c" and "r < length (c_heap c)"
  shows "container_ok (snd (container_timeData r d c))"
proof -
  let ?P = "\<lambda>c. container_ok c \<and> r < length (c_heap c)"
  have explicit: "?P (snd (run_blocks (explicit_time_blocks r d t) c))" for t
    by (rule keepsD [OF time_blocks_ok(1)]) (rule conjI [OF assms])
  have implicit: "?P (snd (run_blocks (implicit_time_blocks r d t) c))" for t
    by (rule keepsD [OF time_blocks_ok(2)]) (rule conjI [OF assms])
  show ?thesis
  proof (cases "s_rule (c_heap c ! r) = RULETYPE_EXPLICIT")
    case True
    show ?thesis
      unfolding container_timeData_def Let_def if_P [OF True]
      by (rule after_loop_state [where P = ?P, OF explicit]) (simp_all add: object_processMeasuredData_ok)
  next
    case False
    show ?thesis
      unfolding container_timeData_def Let_def if_not_P [OF False]
      by (rule after_loop_state [where P = ?P, OF implicit]) simp_all
  qed
qed

lemma container_valueData_ok:
  assumes "container_ok c" and "r < length (c_heap c)"
  shows "container_ok (snd (container_valueData r d c))"
proof (cases "c_tables c (s_tableId (c_heap c ! r))")
  case (Some t)
  let ?k = "timeSignalNumber t"
  let ?c = "if c_signals c ?k = None then c\<lparr>c_signals := (c_signals c)(?k \<mapsto> None)\<rparr> else c"
  have c: "container_ok ?c" using assms(1) by (simp add: container_ok_null)
  have ref: "r' < length (c_heap c)" if "the (c_signals ?c ?k) = Some r'" for r'
    using that assms(1) by (auto simp: container_ok_def split: if_splits)
  have "container_ok (set_object r ((c_heap c ! r)\<lparr>s_timeSignal := the (c_signals ?c ?k)\<rparr>) ?c)"
    using assms c ref container_ok_object [OF assms] by (intro set_object_ok) (auto simp: object_ok_def)
  then show ?thesis
    using assms Some by (simp add: container_valueData_def Let_def object_processMeasuredData_ok)
qed (use assms in \<open>simp add: container_valueData_def\<close>)

lemma container_call_ok: "container_ok c \<Longrightarrow> container_ok (container_exec J i c)"
  by (cases i)
    (auto simp: container_exec_def container_processMetaInformation_ok container_processMeasuredData_def
      container_timeData_ok container_valueData_ok container_ok_ref split: option.splits)

interpretation container_machine: machine SignalContainer_init "container_exec J" container_ok for J
  by unfold_locales (simp_all add: container_ok_init container_call_ok)

section \<open>Signals that keep their table\<close>

text \<open>
  A table names its members by signal number, and nothing removes a number from a table when
  its signal moves to another table or turns into a time signal. The container works as
  intended as long as each number in a table stands for a subscribed signal of that table in
  that role.
\<close>

definition place :: "'j signal \<Rightarrow> string \<times> bool" where
  "place s = (s_tableId s, s_isTime s)"

definition stands_for :: "'j container \<Rightarrow> u32 \<Rightarrow> string \<times> bool \<Rightarrow> bool" where
  "stands_for c n p \<longleftrightarrow> (\<exists>r. c_signals c n = Some (Some r) \<and> place (c_heap c ! r) = p)"

definition linked :: "'j container \<Rightarrow> bool" where
  "linked c \<longleftrightarrow>
     (\<forall>n. c_signals c n \<noteq> Some None) \<and>
     (\<forall>T t. c_tables c T = Some t \<longrightarrow>
        (timeSignalNumber t \<noteq> 0 \<longrightarrow> stands_for c (timeSignalNumber t) (T, True)) \<and>
        (\<forall>n \<in> set (dataSignalNumbers t). stands_for c n (T, False)))"

definition in_table :: "u32 \<Rightarrow> 'j container \<Rightarrow> bool" where
  "in_table n c \<longleftrightarrow>
     (\<exists>T t. c_tables c T = Some t \<and>
        (timeSignalNumber t = n \<and> n \<noteq> 0 \<or> n \<in> set (dataSignalNumbers t)))"

text \<open>
  The inputs that keep it so: meta information that leaves a signal of a table at its place,
  and time packets that hold a whole time stamp.
\<close>

definition registered :: "u32 \<Rightarrow> 'j signal \<Rightarrow> 'j container \<Rightarrow> bool" where
  "registered n s c \<longleftrightarrow>
     (case c_tables c (s_tableId s) of
        None \<Rightarrow> False
      | Some t \<Rightarrow> timeSignalNumber t = n \<and> n \<noteq> 0 \<or> n \<in> set (dataSignalNumbers t))"

fun legal :: "'j json_lib \<Rightarrow> 'j container_op \<Rightarrow> 'j container \<Rightarrow> bool" where
  "legal J (Meta_op n m) c \<longleftrightarrow>
     (case c_signals c n of
        Some (Some r) \<Rightarrow>
          registered n (c_heap c ! r) c \<longrightarrow>
            place (c_heap (container_exec J (Meta_op n m) c) ! r) = place (c_heap c ! r)
      | _ \<Rightarrow> True)"
| "legal J (Data_op n d) c \<longleftrightarrow>
     (case c_signals c n of
        Some (Some r) \<Rightarrow>
          s_isTime (c_heap c ! r) \<longrightarrow>
            (if s_rule (c_heap c ! r) = RULETYPE_EXPLICIT then 8 else 16) \<le> length d
      | _ \<Rightarrow> True)"

lemma linked_init: "linked SignalContainer_init"
  by (simp add: linked_def SignalContainer_init_def)

lemma linked_same_places:
  assumes "linked c" and "c_signals c' = c_signals c" and "c_tables c' = c_tables c"
    and "\<And>n r. c_signals c n = Some (Some r) \<Longrightarrow> in_table n c \<Longrightarrow> place (c_heap c' ! r) = place (c_heap c ! r)"
  shows "linked c'"
proof -
  have "stands_for c' n p" if "stands_for c n p" and "in_table n c" for n p
    using that assms(2,4) by (auto simp: stands_for_def)
  then show ?thesis
    using assms(1-3) unfolding linked_def in_table_def by metis
qed

lemma linked_set_object:
  assumes "linked c" and "container_ok c" and "r < length (c_heap c)"
    and "in_table (s_number (c_heap c ! r)) c \<Longrightarrow> place s = place (c_heap c ! r)"
  shows "linked (set_object r s c)"
  using assms
  by (intro linked_same_places [OF assms(1)]) (auto simp: nth_list_update dest: container_ok_ref)

lemma stands_for_table:
  assumes "linked c" and "c_tables c T = Some t"
  shows "timeSignalNumber t \<noteq> 0 \<Longrightarrow> stands_for c (timeSignalNumber t) (T, True)"
    and "n \<in> set (dataSignalNumbers t) \<Longrightarrow> stands_for c n (T, False)"
  using assms by (auto simp: linked_def)

lemma stands_for_unique: "stands_for c n p \<Longrightarrow> stands_for c n q \<Longrightarrow> p = q"
  by (auto simp: stands_for_def)

subsection \<open>Meta information\<close>

text \<open>Leaving: the number is gone from every table, so the signal can go, too.\<close>

lemma leave_table_cases:
  assumes "leave_table n s tabs T = Some t"
  obtains (other) "tabs T = Some t" "T \<noteq> s_tableId s"
    | (time) t' where "T = s_tableId s" "tabs T = Some t'" "s_isTime s" "t = t'\<lparr>timeSignalNumber := 0\<rparr>"
    | (data) t' where "T = s_tableId s" "tabs T = Some t'" "\<not> s_isTime s"
        "t = t'\<lparr>dataSignalNumbers := remove1 n (dataSignalNumbers t')\<rparr>"
  using assms
  by (cases "T = s_tableId s") (auto simp: leave_table_def Let_def split: option.splits if_splits)

lemma leave_table_other:
  assumes "linked c" and "container_ok c" and "stands_for c n (place s)"
    and "leave_table n s (c_tables c) T = Some t"
  shows "n \<noteq> timeSignalNumber t \<or> n = 0" and "n \<notin> set (dataSignalNumbers t)"
    and "\<exists>t'. c_tables c T = Some t' \<and> (timeSignalNumber t = 0 \<or> timeSignalNumber t = timeSignalNumber t') \<and>
           set (dataSignalNumbers t) \<subseteq> set (dataSignalNumbers t')"
proof -
  have d: "distinct (dataSignalNumbers t')" if "c_tables c T' = Some t'" for T' t'
    using assms(2) that by (auto simp: container_ok_def)
  have data: "T' = s_tableId s \<and> \<not> s_isTime s" if "c_tables c T' = Some t'" "n \<in> set (dataSignalNumbers t')" for T' t'
    using stands_for_unique [OF assms(3) stands_for_table(2) [OF assms(1) that]] by (simp add: place_def)
  have time: "T' = s_tableId s \<and> s_isTime s" if "c_tables c T' = Some t'" "n = timeSignalNumber t'" "n \<noteq> 0" for T' t'
    using stands_for_unique [OF assms(3)] stands_for_table(1) [OF assms(1) that(1)] that(2,3)
    by (fastforce simp: place_def)
  show "n \<noteq> timeSignalNumber t \<or> n = 0"
    using assms(4) by (cases rule: leave_table_cases) (use time in auto)
  show "n \<notin> set (dataSignalNumbers t)"
    using assms(4) by (cases rule: leave_table_cases) (use data d in auto)
  show "\<exists>t'. c_tables c T = Some t' \<and> (timeSignalNumber t = 0 \<or> timeSignalNumber t = timeSignalNumber t') \<and>
           set (dataSignalNumbers t) \<subseteq> set (dataSignalNumbers t')"
    using assms(4) by (cases rule: leave_table_cases) (use set_remove1_subset in fastforce)+
qed

lemma linked_leave:
  assumes "linked c" and "container_ok c" and "stands_for c n (place s)"
  shows "linked (c\<lparr>c_tables := leave_table n s (c_tables c), c_signals := (c_signals c)(n := None), c_calls := x\<rparr>)"
proof -
  let ?c = "c\<lparr>c_tables := leave_table n s (c_tables c), c_signals := (c_signals c)(n := None), c_calls := x\<rparr>"
  have other: "stands_for ?c k p" if "stands_for c k p" and "k \<noteq> n" for k p
    using that by (auto simp: stands_for_def)
  have "(timeSignalNumber t \<noteq> 0 \<longrightarrow> stands_for ?c (timeSignalNumber t) (T, True)) \<and>
      (\<forall>k \<in> set (dataSignalNumbers t). stands_for ?c k (T, False))"
    if t: "leave_table n s (c_tables c) T = Some t" for T t
  proof -
    note gone = leave_table_other [OF assms t]
    from gone(3) obtain t' where t': "c_tables c T = Some t'"
      "timeSignalNumber t = 0 \<or> timeSignalNumber t = timeSignalNumber t'"
      "set (dataSignalNumbers t) \<subseteq> set (dataSignalNumbers t')" by blast
    note table = stands_for_table [OF assms(1) t'(1)]
    show ?thesis
      using gone(1,2) table t'(2,3) by (auto intro!: other)
  qed
  then show ?thesis
    using assms(1) by (auto simp: linked_def)
qed

text \<open>Entering: the signal is put where it says it belongs.\<close>

lemma linked_enter:
  assumes "linked c" and "stands_for c n (place s)"
  shows "linked (c\<lparr>c_tables := enter_table n s (c_tables c)\<rparr>)"
proof -
  let ?c = "c\<lparr>c_tables := enter_table n s (c_tables c)\<rparr>"
  have same: "stands_for ?c k p = stands_for c k p" for k p by (simp add: stands_for_def)
  have "(timeSignalNumber t \<noteq> 0 \<longrightarrow> stands_for c (timeSignalNumber t) (T, True)) \<and>
      (\<forall>k \<in> set (dataSignalNumbers t). stands_for c k (T, False))"
    if t: "enter_table n s (c_tables c) T = Some t" for T t
  proof -
    consider "c_tables c T = Some t"
      | t' where "T = s_tableId s" "c_tables c T = Some t' \<or> c_tables c T = None \<and> t' = Table_new"
          "t = (if s_isTime s then t'\<lparr>timeSignalNumber := n\<rparr>
                else t'\<lparr>dataSignalNumbers := insort_insert n (dataSignalNumbers t')\<rparr>)"
      using t by (auto simp: enter_table_def Let_def split: if_splits option.splits)
    then show ?thesis
    proof cases
      case 1
      then show ?thesis using stands_for_table [OF assms(1)] by blast
    next
      case 2
      then have old: "(timeSignalNumber t' \<noteq> 0 \<longrightarrow> stands_for c (timeSignalNumber t') (T, True)) \<and>
          (\<forall>k \<in> set (dataSignalNumbers t'). stands_for c k (T, False))"
        using stands_for_table [OF assms(1)] by (auto simp: Table_new_def)
      show ?thesis
        using old assms(2) 2(1,3) by (auto simp: place_def set_insort_insert)
    qed
  qed
  then show ?thesis
    using assms(1) by (auto simp: linked_def same)
qed

lemma linked_subscribe:
  assumes "linked c" and "container_ok c" and "c_signals c n = None"
  shows "linked (c\<lparr>c_heap := c_heap c @ [s], c_signals := (c_signals c)(n \<mapsto> Some (length (c_heap c)))\<rparr>)"
    (is "linked ?c")
proof -
  have "stands_for ?c k p" if "stands_for c k p" for k p
    using that assms(2,3) by (auto simp: stands_for_def nth_append dest: container_ok_ref)
  then show ?thesis
    using assms(1) by (auto simp: linked_def)
qed

lemma meta_other_method:
  "method \<noteq> META_METHOD_SUBSCRIBE \<Longrightarrow> method \<noteq> META_METHOD_SIGNAL \<Longrightarrow>
     processSignalMetaInformation J method params s = (Inr 0, s)"
  by (simp add: processSignalMetaInformation_def)

text \<open>The whole function on a signal that is known, method by method.\<close>

lemma container_meta_unknown:
  assumes "meta_method J m = Inr method" and "method \<noteq> META_METHOD_SUBSCRIBE" and "c_signals c n = None"
  shows "container_processMetaInformation J n m c = (Inr (-1), c)"
  using assms by (simp add: container_processMetaInformation_def container_select_def Let_def)

lemma container_meta_unsubscribe:
  assumes "meta_method J m = Inr META_METHOD_UNSUBSCRIBE" and "c_signals c n = Some (Some r)"
  shows "container_processMetaInformation J n m c = (Inr 0,
    c\<lparr>c_tables := leave_table n (c_heap c ! r) (c_tables c), c_signals := (c_signals c)(n := None),
      c_calls := c_calls c @ [(c_signalMetaCb c, SignalMetaCb (c_heap c ! r) META_METHOD_UNSUBSCRIBE (meta_params J m))]\<rparr>)"
  using assms
  by (simp add: container_processMetaInformation_def container_select_def container_finish_def Let_def
      meta_other_method set_object_def)

lemma container_meta_known:
  assumes "meta_method J m = Inr method" and "method \<noteq> META_METHOD_SUBSCRIBE"
    and "method \<noteq> META_METHOD_UNSUBSCRIBE" and "c_signals c n = Some (Some r)"
    and "processSignalMetaInformation J method (meta_params J m) (c_heap c ! r) = (res, s)"
  shows "container_processMetaInformation J n m c =
    (res, if res = Inr 0 then container_finish method (meta_params J m) n s (set_object r s c)
          else set_object r s c)"
  using assms
  by (auto simp: container_processMetaInformation_def container_select_def Let_def split: sum.splits)

lemma set_object_new:
  "set_object (length (c_heap c)) s (c\<lparr>c_heap := c_heap c @ [x], c_signals := f\<rparr>) =
     c\<lparr>c_heap := c_heap c @ [s], c_signals := f\<rparr>"
  by (cases c) (simp add: set_object_def)

lemma container_meta_subscribe:
  assumes "meta_method J m = Inr META_METHOD_SUBSCRIBE" and "c_signals c n = None"
    and "j_find J (meta_params J m) META_SIGNALID = Some v"
    and "processSignalMetaInformation J META_METHOD_SUBSCRIBE (meta_params J m) (SubscribedSignal_init J n) = (res, s)"
  defines "c' \<equiv> c\<lparr>c_heap := c_heap c @ [s], c_signals := (c_signals c)(n \<mapsto> Some (length (c_heap c)))\<rparr>"
  shows "container_processMetaInformation J n m c =
    (res, if res = Inr 0 then container_finish META_METHOD_SUBSCRIBE (meta_params J m) n s c' else c')"
  using assms
  by (auto simp: container_processMetaInformation_def container_select_def Let_def set_object_new
      split: sum.splits)

lemma linked_calls [simp]: "linked (c\<lparr>c_calls := x\<rparr>) = linked c"
  by (simp add: linked_def stands_for_def)

lemma in_table_registered:
  assumes "linked c" and "in_table n c" and "c_signals c n = Some (Some r)"
  shows "registered n (c_heap c ! r) c"
proof -
  from assms(2) obtain T t where t: "c_tables c T = Some t"
    "timeSignalNumber t = n \<and> n \<noteq> 0 \<or> n \<in> set (dataSignalNumbers t)" by (auto simp: in_table_def)
  then have "stands_for c n (T, True) \<or> stands_for c n (T, False)"
    using stands_for_table [OF assms(1) t(1)] by auto
  then have "s_tableId (c_heap c ! r) = T" using assms(3) by (auto simp: stands_for_def place_def)
  with t show ?thesis by (simp add: registered_def)
qed

lemma legal_meta_place:
  assumes "linked c" and "legal J (Meta_op n m) c" and "container_processMetaInformation J n m c = (res, c')"
    and "c_signals c n = Some (Some r)" and "in_table n c"
  shows "place (c_heap c' ! r) = place (c_heap c ! r)"
  using assms(2-4) in_table_registered [OF assms(1,5,4)] by (simp add: container_exec_def)

lemma container_finish_heap [simp]: "c_heap (container_finish method params n s c) = c_heap c"
  by (simp add: container_finish_def Let_def)

lemma container_meta_known_linked:
  assumes ok: "container_ok c" and link: "linked c" and leg: "legal J (Meta_op n m) c" and m: "meta_method J m = Inr meth"
    and known: "meth \<noteq> META_METHOD_SUBSCRIBE" "meth \<noteq> META_METHOD_UNSUBSCRIBE" "c_signals c n = Some (Some r)"
  shows "linked (container_exec J (Meta_op n m) c)"
proof -
  obtain res s where p: "processSignalMetaInformation J meth (meta_params J m) (c_heap c ! r) = (res, s)" by fastforce
  note eq = container_meta_known [OF m known p] and r = container_ok_ref [OF ok known(3)]
  have "linked (set_object r s c)"
    using legal_meta_place [OF link leg eq known(3)] r
    by (intro linked_set_object [OF link ok r(1)]) (auto split: if_splits)
  moreover have "stands_for (set_object r s c) n (place s)" using known(3) r(1) by (simp add: stands_for_def)
  ultimately show ?thesis
    using linked_enter [of "set_object r s c" n s] known(2) by (simp add: container_exec_def eq container_finish_def Let_def)
qed

lemma container_meta_safe:
  assumes J: "json_laws J" and ok: "container_ok c" and link: "linked c" and leg: "legal J (Meta_op n m) c"
  shows "linked (container_exec J (Meta_op n m) c) \<and>
         fst (container_processMetaInformation J n m c) \<noteq> Inl Null_deref"
proof (cases "meta_method J m")
  case (Inl e)
  then have "e = Json_exception" by (auto simp: meta_method_def split: option.splits)
  with Inl link show ?thesis by (simp add: container_exec_def container_processMetaInformation_def)
next
  case (Inr meth)
  let ?p = "meta_params J m"
  have raises: "res \<noteq> Inl Null_deref" if "processSignalMetaInformation J meth ?p s = (res, s')" for s res s'
    using processSignalMetaInformation_raises [OF J, of meth ?p s] that by auto
  have not_null: "c_signals c n = None \<or> (\<exists>r. c_signals c n = Some (Some r))"
    using link unfolding linked_def by (metis option.exhaust)
  consider (unknown) "meth \<noteq> META_METHOD_SUBSCRIBE" "c_signals c n = None"
    | (unsub) r where "meth = META_METHOD_UNSUBSCRIBE" "c_signals c n = Some (Some r)"
    | (known) r where "meth \<noteq> META_METHOD_SUBSCRIBE" "meth \<noteq> META_METHOD_UNSUBSCRIBE" "c_signals c n = Some (Some r)"
    | (fresh) v where "meth = META_METHOD_SUBSCRIBE" "c_signals c n = None" "j_find J ?p META_SIGNALID = Some v"
    | (rejected) "meth = META_METHOD_SUBSCRIBE" "c_signals c n \<noteq> None \<or> j_find J ?p META_SIGNALID = None"
    using not_null by (cases "meth = META_METHOD_SUBSCRIBE"; cases "j_find J ?p META_SIGNALID") auto
  then show ?thesis
  proof cases
    case unknown
    then show ?thesis using link container_meta_unknown [OF Inr] by (simp add: container_exec_def)
  next
    case unsub
    have "stands_for c n (place (c_heap c ! r))" using unsub(2) by (simp add: stands_for_def)
    with unsub Inr link show ?thesis
      using container_meta_unsubscribe [of J m c n r] linked_leave [OF link ok] by (simp add: container_exec_def)
  next
    case known
    obtain res s where p: "processSignalMetaInformation J meth ?p (c_heap c ! r) = (res, s)"
      by (cases "processSignalMetaInformation J meth ?p (c_heap c ! r)")
    show ?thesis
      using container_meta_known_linked [OF ok link leg Inr known] container_meta_known [OF Inr known p] raises [OF p] by simp
  next
    case fresh
    obtain res s where p: "processSignalMetaInformation J META_METHOD_SUBSCRIBE ?p (SubscribedSignal_init J n) = (res, s)"
      by (cases "processSignalMetaInformation J META_METHOD_SUBSCRIBE ?p (SubscribedSignal_init J n)")
    show ?thesis
      using container_meta_subscribe [OF _ fresh(2,3) p] linked_subscribe [OF link ok fresh(2), of s]
        raises [unfolded fresh(1), OF p] Inr fresh(1)
      by (simp add: container_exec_def container_finish_def Let_def)
  next
    case rejected
    with Inr link show ?thesis
      by (auto simp: container_exec_def container_processMetaInformation_def container_select_def Let_def
          split: option.splits)
  qed
qed

subsection \<open>Measured data\<close>

text \<open>When every member of the table is subscribed, the loop sets the time and that is all.\<close>

lemma visit_all:
  assumes "\<And>s. upd (upd s) = upd s" and "r < length (c_heap c)"
    and "\<forall>k \<in> set ks. \<exists>d. c_signals c k = Some (Some d)"
  shows "run_blocks (map (visit_dataSignal r upd) ks) c =
    (Next, if ks = [] then c else set_object r (upd (c_heap c ! r)) c)"
  using assms(2,3)
proof (induction ks arbitrary: c)
  case (Cons k ks)
  let ?c = "set_object r (upd (c_heap c ! r)) c"
  have "visit_dataSignal r upd k c = (Next, ?c)"
    using Cons.prems by (auto simp: visit_dataSignal_def Let_def)
  moreover have "run_blocks (map (visit_dataSignal r upd) ks) ?c = (Next, ?c)"
    using Cons.IH [of ?c] Cons.prems assms(1) by (simp add: set_object_def)
  ultimately show ?case by simp
qed simp

lemma linked_members:
  assumes "linked c" and "c_tables c T = Some t"
  shows "\<forall>k \<in> set (dataSignalNumbers t). \<exists>d. c_signals c k = Some (Some d)"
    and "timeSignalNumber t \<noteq> 0 \<Longrightarrow> \<exists>r. c_signals c (timeSignalNumber t) = Some (Some r)"
  using stands_for_table [OF assms] by (auto simp: stands_for_def)

lemma linked_write:
  assumes "linked c" and "container_ok c" and "r < length (c_heap c)" and "place s = place (c_heap c ! r)"
  shows "linked (set_object r s c)"
  using assms by (intro linked_set_object) simp_all

text \<open>The exception that remains: the wrap-around of the size of an indexed value.\<close>

definition wrapping :: "'j signal \<Rightarrow> bool" where
  "wrapping s \<longleftrightarrow> s_rule s = RULETYPE_CONSTANT \<and> s_valueSize s = - 8"

lemma processMeasuredData_place: "place (fst (snd (signal_processMeasuredData d t s))) = place s"
  by (auto simp: signal_processMeasuredData_def deliver_def place_def Let_def
      split: option.splits rule_type.splits)

lemma object_processMeasuredData_linked:
  assumes "linked c" and "container_ok c" and "r < length (c_heap c)"
  shows "linked (snd (object_processMeasuredData r t d c))"
  using linked_write [OF assms processMeasuredData_place]
  by (simp add: object_processMeasuredData_def case_prod_beta)

lemma object_processMeasuredData_traps:
  assumes "container_ok c" and "r < length (c_heap c)"
    and "fst (object_processMeasuredData r t d c) = Inl e"
  shows "e = Undefined \<and> wrapping (c_heap c ! r) \<and> t \<noteq> None"
  using assms(3) processMeasuredData_traps [of "c_heap c ! r" d] container_ok_object [OF assms(1,2)]
  by (auto simp: object_processMeasuredData_def case_prod_beta object_ok_def wrapping_def)

text \<open>A time packet sets the time of its signal if the table has a data signal.\<close>

definition time_written :: "('j signal \<Rightarrow> 'j signal) \<Rightarrow> nat \<Rightarrow> 'j container \<Rightarrow> 'j container" where
  "time_written upd r c =
     (case c_tables c (s_tableId (c_heap c ! r)) of
        Some t \<Rightarrow> if dataSignalNumbers t = [] then c else set_object r (upd (c_heap c ! r)) c
      | None \<Rightarrow> c)"

lemma time_written_keeps:
  assumes "linked c" and "container_ok c" and "r < length (c_heap c)"
    and "upd = explicit_time d \<or> upd = implicit_time d"
  shows "linked (time_written upd r c)" and "container_ok (time_written upd r c)"
    and "r < length (c_heap (time_written upd r c))"
  using assms linked_write [OF assms(1-3)] set_object_ok [OF assms(2,3)] container_ok_object [OF assms(2,3)]
  by (auto simp: time_written_def explicit_time_def implicit_time_def place_def object_ok_def split: option.splits)

lemma time_blocks_run:
  assumes "linked c" and "r < length (c_heap c)"
  defines "table \<equiv> c_tables c (s_tableId (c_heap c ! r))"
  shows "8 \<le> length d \<Longrightarrow>
      run_blocks (explicit_time_blocks r d table) c = (Next, time_written (explicit_time d) r c)"
    and "16 \<le> length d \<Longrightarrow>
      run_blocks (implicit_time_blocks r d table) c = (Next, time_written (implicit_time d) r c)"
proof -
  have *: "run_blocks (map (visit_dataSignal r upd) (dataSignalNumbers t)) c =
      (Next, if dataSignalNumbers t = [] then c else set_object r (upd (c_heap c ! r)) c)"
    if "table = Some t" and "\<And>s. upd (upd s) = upd s" for t upd
    using visit_all [OF that(2) assms(2)] linked_members(1) [OF assms(1)] that(1) by (simp add: table_def)
  show "run_blocks (explicit_time_blocks r d table) c = (Next, time_written (explicit_time d) r c)" if "8 \<le> length d"
    using * [of _ "explicit_time d"] that
    by (auto simp: explicit_time_blocks_def time_written_def table_def [symmetric] split: option.splits)
      (simp_all add: explicit_time_def)
  show "run_blocks (implicit_time_blocks r d table) c = (Next, time_written (implicit_time d) r c)" if "16 \<le> length d"
    using * [of _ "implicit_time d"] that
    by (auto simp: implicit_time_blocks_def time_written_def table_def [symmetric] split: option.splits)
      (simp_all add: implicit_time_def)
qed

text \<open>The two branches of data processing in a container whose tables are linked.\<close>

lemma container_timeData_linked:
  assumes "linked c" and "r < length (c_heap c)"
  shows "s_rule (c_heap c ! r) = RULETYPE_EXPLICIT \<Longrightarrow> 8 \<le> length d \<Longrightarrow>
      container_timeData r d c =
        instead (ssize_of d) (object_processMeasuredData r None d (time_written (explicit_time d) r c))"
    and "s_rule (c_heap c ! r) \<noteq> RULETYPE_EXPLICIT \<Longrightarrow> 16 \<le> length d \<Longrightarrow>
      container_timeData r d c = (Inr (ssize_of d), time_written (implicit_time d) r c)"
  using time_blocks_run [OF assms] by (simp_all add: container_timeData_def after_loop_def Let_def)

lemma container_valueData_linked:
  assumes "linked c" and "c_tables c (s_tableId (c_heap c ! r)) = Some t"
    and "timeSignalNumber t \<noteq> 0" and "c_signals c (timeSignalNumber t) = Some (Some q)"
  shows "container_valueData r d c =
    object_processMeasuredData r (Some q) d (set_object r ((c_heap c ! r)\<lparr>s_timeSignal := Some q\<rparr>) c)"
  using assms by (simp add: container_valueData_def Let_def)

lemma fst_instead: "fst (instead n p) = Inl e \<longleftrightarrow> fst p = Inl e"
  by (auto simp: instead_def split: sum.splits)

lemma container_valueData_safe:
  assumes ok: "container_ok c" and link: "linked c" and r: "r < length (c_heap c)"
    and t: "c_tables c (s_tableId (c_heap c ! r)) = Some t" "timeSignalNumber t \<noteq> 0"
  shows "linked (snd (container_valueData r d c)) \<and>
    (\<forall>e. fst (container_valueData r d c) = Inl e \<longrightarrow> e = Undefined \<and> (\<exists>s \<in> set (c_heap c). wrapping s))"
proof -
  from linked_members(2) [OF link t] obtain q where q: "c_signals c (timeSignalNumber t) = Some (Some q)" by blast
  let ?s = "(c_heap c ! r)\<lparr>s_timeSignal := Some q\<rparr>"
  have kept: "linked (set_object r ?s c)" "container_ok (set_object r ?s c)"
    using linked_write [OF link ok r, of ?s] set_object_ok [OF ok r, of ?s] container_ok_ref(1) [OF ok q]
      container_ok_object [OF ok r]
    by (simp_all add: place_def object_ok_def)
  have "wrapping ?s \<Longrightarrow> \<exists>s \<in> set (c_heap c). wrapping s"
    using r by (auto simp: wrapping_def intro!: bexI [of _ "c_heap c ! r"])
  then show ?thesis
    using container_valueData_linked [OF link t q, of d] kept r
      object_processMeasuredData_linked [OF kept, of r "Some q" d]
      object_processMeasuredData_traps [OF kept(2), of r "Some q" d]
    by auto
qed

lemma container_data_safe:
  assumes ok: "container_ok c" and link: "linked c" and leg: "legal J (Data_op n d) c"
  shows "linked (container_exec J (Data_op n d) c)"
    and "fst (container_processMeasuredData n d c) = Inl e \<Longrightarrow> e = Undefined \<and> (\<exists>s \<in> set (c_heap c). wrapping s)"
proof -
  let ?goal = "linked (snd (container_processMeasuredData n d c)) \<and>
    (\<forall>e. fst (container_processMeasuredData n d c) = Inl e \<longrightarrow> e = Undefined \<and> (\<exists>s \<in> set (c_heap c). wrapping s))"
  have ?goal
  proof (cases "c_signals c n")
    case None
    then show ?thesis using link by (simp add: container_processMeasuredData_def)
  next
    case (Some p)
    with link obtain r where p: "p = Some r" unfolding linked_def by (metis option.exhaust)
    note n = Some [unfolded p]
    note r = container_ok_ref(1) [OF ok n]
    let ?s = "c_heap c ! r"
    consider (explicit) "s_isTime ?s" "s_rule ?s = RULETYPE_EXPLICIT" "8 \<le> length d"
      | (implicit) "s_isTime ?s" "s_rule ?s \<noteq> RULETYPE_EXPLICIT" "16 \<le> length d"
      | (nowhere) "\<not> s_isTime ?s" "c_tables c (s_tableId ?s) = None"
      | (timeless) t where "\<not> s_isTime ?s" "c_tables c (s_tableId ?s) = Some t" "timeSignalNumber t = 0"
      | (stamped) t where "\<not> s_isTime ?s" "c_tables c (s_tableId ?s) = Some t" "timeSignalNumber t \<noteq> 0"
      using leg n by (cases "s_isTime ?s"; cases "c_tables c (s_tableId ?s)") (auto split: if_splits)
    then show ?thesis
    proof cases
      case explicit
      note kept = time_written_keeps [OF link ok r disjI1, OF refl, of d]
      show ?thesis
        using explicit n container_timeData_linked(1) [OF link r explicit(2,3)]
          object_processMeasuredData_linked [OF kept] object_processMeasuredData_traps [OF kept(2,3), of None d]
        by (auto simp: container_processMeasuredData_def fst_instead)
    next
      case implicit
      note kept = time_written_keeps [OF link ok r disjI2, OF refl, of d]
      show ?thesis
        using implicit n container_timeData_linked(2) [OF link r implicit(2,3)] kept
        by (simp add: container_processMeasuredData_def)
    next
      case stamped
      then show ?thesis
        using container_valueData_safe [OF ok link r stamped(2,3), of d] n by (simp add: container_processMeasuredData_def)
    qed (use n link in \<open>simp_all add: container_processMeasuredData_def container_valueData_def\<close>)
  qed
  then show "linked (container_exec J (Data_op n d) c)"
    and "fst (container_processMeasuredData n d c) = Inl e \<Longrightarrow> e = Undefined \<and> (\<exists>s \<in> set (c_heap c). wrapping s)"
    by (auto simp: container_exec_def)
qed

text \<open>A run in which every input is legal when it arrives, and the results of its calls.\<close>

fun legal_run :: "'j json_lib \<Rightarrow> 'j container_op list \<Rightarrow> 'j container \<Rightarrow> bool" where
  "legal_run J [] c \<longleftrightarrow> True"
| "legal_run J (i # ops) c \<longleftrightarrow> legal J i c \<and> legal_run J ops (container_exec J i c)"

fun results :: "'j json_lib \<Rightarrow> 'j container_op list \<Rightarrow> 'j container \<Rightarrow> (exn + int) list" where
  "results J [] c = []"
| "results J (i # ops) c = fst (container_call J i c) # results J ops (container_exec J i c)"

lemma legal_run_safe:
  assumes "json_laws J" and "legal_run J ops c" and "container_ok c" and "linked c"
  shows "Inl Null_deref \<notin> set (results J ops c) \<and> linked (fold (container_exec J) ops c)"
  using assms(2-4)
proof (induction ops arbitrary: c)
  case (Cons i ops)
  have "linked (container_exec J i c) \<and> fst (container_call J i c) \<noteq> Inl Null_deref"
  proof (cases i)
    case (Meta_op n m)
    then show ?thesis using container_meta_safe [OF assms(1), of c n m] Cons.prems by simp
  next
    case (Data_op n d)
    then show ?thesis using container_data_safe [of c J n d] Cons.prems by auto
  qed
  then show ?case
    using Cons container_call_ok [of c J i] by auto
qed simp

text \<open>Leaving undoes entering.\<close>

lemma remove1_insort_insert: "x \<notin> set xs \<Longrightarrow> remove1 x (insort_insert x xs) = xs"
  by (simp add: insort_insert_key_def remove1_insort_key)

text \<open>
  What entering and leaving again makes of a table: a table that is not there stays away, one
  that loses its time signal number to the newcomer keeps its data signals, and one without any
  signal goes.
\<close>

definition visited :: "bool \<Rightarrow> table option \<Rightarrow> table option" where
  "visited isTime old =
     (case old of
        None \<Rightarrow> None
      | Some t \<Rightarrow>
          let t' = (if isTime then t\<lparr>timeSignalNumber := 0\<rparr> else t)
          in if timeSignalNumber t' = 0 \<and> dataSignalNumbers t' = [] then None else Some t')"

lemma leave_enter:
  assumes "\<And>t. tabs (s_tableId s) = Some t \<Longrightarrow> n \<notin> set (dataSignalNumbers t)"
  shows "leave_table n s (enter_table n s tabs) = tabs(s_tableId s := visited (s_isTime s) (tabs (s_tableId s)))"
  using assms
  by (cases "tabs (s_tableId s)")
    (auto simp: leave_table_def enter_table_def Table_new_def visited_def Let_def remove1_insort_insert)

lemma visited_same:
  "(\<And>t. old = Some t \<Longrightarrow> (timeSignalNumber t \<noteq> 0 \<or> dataSignalNumbers t \<noteq> []) \<and> (isTime \<longrightarrow> timeSignalNumber t = 0))
     \<Longrightarrow> visited isTime old = old"
  by (cases old) (auto simp: visited_def Let_def)

section \<open>Properties\<close>

text \<open>
  C3: whatever meta information and measured data arrive, in whatever order, legal or not:
  every signal number that is bound to an object is bound to one that exists and has that
  number, no pointer of a signal to its time signal dangles, the set of data signals of each
  table stays a sorted set, and every signal object keeps a value size and a resolution that can
  be divided by. It says nothing of the numbers that \<open>operator[]\<close> binds to a null pointer after
  illegal input; that legal input makes none of these is the invariant \<open>linked\<close>.
\<close>

theorem container_invariant:
  "container_ok (fold (container_exec J) ops SignalContainer_init)"
  by (rule container_machine.good_run)

text \<open>
  C19: a stream in which no signal that belongs to a table changes its table or turns into a
  time signal, and whose time packets hold a whole time stamp, never makes the container
  dereference a null pointer; at the end every number in a table still stands for a
  subscribed signal of that table in that role.
\<close>

theorem container_no_null:
  assumes "json_laws J" and "legal_run J ops SignalContainer_init"
  shows "Inl Null_deref \<notin> set (results J ops SignalContainer_init) \<and>
    linked (fold (container_exec J) ops SignalContainer_init)"
  by (rule legal_run_safe [OF assms container_ok_init linked_init])

definition meta_doc :: "string \<Rightarrow> (string \<times> jtree) list \<Rightarrow> jtree meta_information" where
  "meta_doc method params =
     \<lparr>mi_type = METAINFORMATION_MSGPACK, mi_content = TObj [(METHOD, TStr method), (PARAMS, TObj params)]\<rparr>"

definition example_time :: "jtree meta_information" where
  "example_time = meta_doc META_METHOD_SIGNAL [(META_TABLEID, TStr ''t''),
     (META_DEFINITION, TObj [(META_RULE, TStr META_RULETYPE_LINEAR),
        (META_RULETYPE_LINEAR, TObj [(META_DELTA, TNum 10)]),
        (META_DATATYPE, TStr DATA_TYPE_UINT64),
        (META_UNIT, TObj [(META_UNIT_ID, TNum 5457219), (META_QUANTITY, TStr META_TIME)])])]"

definition example_ops :: "jtree container_op list" where
  "example_ops = [
     Meta_op 1 (meta_doc META_METHOD_SUBSCRIBE [(META_SIGNALID, TStr ''time'')]),
     Meta_op 1 example_time,
     Meta_op 2 (meta_doc META_METHOD_SUBSCRIBE [(META_SIGNALID, TStr ''value'')]),
     Meta_op 2 (meta_doc META_METHOD_SIGNAL [(META_TABLEID, TStr ''t''),
       (META_DEFINITION, TObj [(META_DATATYPE, TStr DATA_TYPE_INT16)])]),
     Data_op 1 (le_bytes 8 (0 :: u64) @ le_bytes 8 (1000 :: u64)),
     Data_op 2 (replicate 6 0)]"

theorem container_no_null_witness:
  "results tree_lib example_ops SignalContainer_init = [Inr 0, Inr 0, Inr 0, Inr 0, Inr 16, Inr 6] \<and>
   linked (fold (container_exec tree_lib) example_ops SignalContainer_init)"
proof
  show r: "results tree_lib example_ops SignalContainer_init = [Inr 0, Inr 0, Inr 0, Inr 0, Inr 16, Inr 6]"
    by code_simp
  have "legal_run tree_lib example_ops SignalContainer_init"
    by code_simp
  from container_no_null [OF tree_json_laws this]
  show "linked (fold (container_exec tree_lib) example_ops SignalContainer_init)" by simp
qed

text \<open>
  What the container rejects. Measured data and meta information other than a subscribe
  acknowledge for a number that is not subscribed, a subscribe acknowledge for a number that
  is, and one without a signal id all give -1 and leave the container as it was.
\<close>

theorem container_rejects:
  assumes "meta_method J m = Inr method"
    and "if method = META_METHOD_SUBSCRIBE
         then c_signals c n \<noteq> None \<or> j_find J (meta_params J m) META_SIGNALID = None
         else c_signals c n = None"
  shows "container_processMetaInformation J n m c = (Inr (-1), c) \<and>
    (c_signals c n = None \<longrightarrow> container_processMeasuredData n d c = (Inr (-1), c))"
  using assms
  by (auto simp: container_processMetaInformation_def container_select_def container_processMeasuredData_def Let_def
      split: if_splits option.splits)

theorem container_rejects_witness:
  "container_processMetaInformation tree_lib 7 (meta_doc META_METHOD_UNSUBSCRIBE []) SignalContainer_init =
     (Inr (-1), SignalContainer_init) \<and>
   container_processMeasuredData 7 [1, 2] (SignalContainer_init :: jtree container) = (Inr (-1), SignalContainer_init)"
  using container_rejects [of tree_lib "meta_doc META_METHOD_UNSUBSCRIBE []" META_METHOD_UNSUBSCRIBE
      SignalContainer_init 7 "[1, 2]"]
  by (simp add: meta_method_def meta_doc_def tree_lib_def SignalContainer_init_def)

text \<open>
  C21: what a signal leaves behind. After a signal is subscribed, described and unsubscribed
  again, the subscribed signals are what they were before, and so are all tables but its own.
  Its own table is what it was too, unless it had no signal at all, then it is gone, or the
  signal is a time signal and the table had another one before: the table keeps its data
  signals, but is left without a time signal, and is gone if it had no data signals.
\<close>

theorem subscribe_unsubscribe:
  assumes "linked c" and "container_ok c" and "c_signals c n = None"
    and "meta_method J sub = Inr META_METHOD_SUBSCRIBE" and "meta_method J desc = Inr META_METHOD_SIGNAL"
    and "meta_method J uns = Inr META_METHOD_UNSUBSCRIBE"
    and "container_processMetaInformation J n sub c = (Inr 0, c1)"
    and "container_processMetaInformation J n desc c1 = (Inr 0, c2)"
    and "s = c_heap c2 ! length (c_heap c)"
  shows "\<exists>c3. container_processMetaInformation J n uns c2 = (Inr 0, c3) \<and>
    c_signals c3 = c_signals c \<and> (\<forall>T. T \<noteq> s_tableId s \<longrightarrow> c_tables c3 T = c_tables c T) \<and>
    c_tables c3 (s_tableId s) = visited (s_isTime s) (c_tables c (s_tableId s)) \<and>
    ((\<forall>t. c_tables c (s_tableId s) = Some t \<longrightarrow>
        (timeSignalNumber t \<noteq> 0 \<or> dataSignalNumbers t \<noteq> []) \<and> (s_isTime s \<longrightarrow> timeSignalNumber t = 0)) \<longrightarrow>
     c_tables c3 = c_tables c)"
proof -
  let ?r = "length (c_heap c)"
  obtain v where v: "j_find J (meta_params J sub) META_SIGNALID = Some v"
    using assms(4,7)
    by (cases "j_find J (meta_params J sub) META_SIGNALID")
      (auto simp: container_processMetaInformation_def container_select_def Let_def)
  obtain res s1 where p1:
    "processSignalMetaInformation J META_METHOD_SUBSCRIBE (meta_params J sub) (SubscribedSignal_init J n) = (res, s1)"
    by (cases "processSignalMetaInformation J META_METHOD_SUBSCRIBE (meta_params J sub) (SubscribedSignal_init J n)")
  have c1: "c_heap c1 = c_heap c @ [s1]" "c_signals c1 = (c_signals c)(n \<mapsto> Some ?r)" "c_tables c1 = c_tables c"
    using container_meta_subscribe [OF assms(4,3) v p1] assms(7) by (auto simp: container_finish_def Let_def)
  obtain res2 s2 where p2: "processSignalMetaInformation J META_METHOD_SIGNAL (meta_params J desc) s1 = (res2, s2)"
    by (cases "processSignalMetaInformation J META_METHOD_SIGNAL (meta_params J desc) s1")
  have c2: "c_heap c2 = c_heap c @ [s2]" "c_signals c2 = c_signals c1" "c_tables c2 = enter_table n s2 (c_tables c)"
    using container_meta_known [OF assms(5), of c1 n ?r res2 s2] c1 p2 assms(8)
    by (auto simp: container_finish_def Let_def)
  have s: "s = s2" using assms(9) c2(1) by simp
  have "n \<notin> set (dataSignalNumbers t)" if "c_tables c T = Some t" for T t
    using stands_for_table(2) [OF assms(1) that, of n] assms(3) by (auto simp: stands_for_def)
  then have "leave_table n s (enter_table n s (c_tables c)) =
      (c_tables c)(s_tableId s := visited (s_isTime s) (c_tables c (s_tableId s)))"
    by (rule leave_enter)
  moreover have "(c_signals c)(n := None) = c_signals c" using assms(3) by (simp add: fun_upd_idem)
  ultimately obtain c3 where "container_processMetaInformation J n uns c2 = (Inr 0, c3)" "c_signals c3 = c_signals c"
    "c_tables c3 = (c_tables c)(s_tableId s := visited (s_isTime s) (c_tables c (s_tableId s)))"
    using container_meta_unsubscribe [OF assms(6), of c2 n ?r] c1(2) c2 s by simp
  then show ?thesis
    by (auto simp: fun_upd_idem visited_same)
qed

lemma meta_method_doc [simp]: "meta_method tree_lib (meta_doc method params) = Inr method"
  by (simp add: meta_method_def meta_doc_def tree_lib_def)

text \<open>A container with a table of time signal 1 and data signal 2.\<close>

definition table_container :: "jtree container" where
  "table_container = SignalContainer_init
     \<lparr>c_heap := [(SubscribedSignal_init tree_lib 1)\<lparr>s_tableId := ''t'', s_isTime := True\<rparr>,
                (SubscribedSignal_init tree_lib 2)\<lparr>s_tableId := ''t''\<rparr>],
      c_signals := [1 \<mapsto> Some 0, 2 \<mapsto> Some 1],
      c_tables := [''t'' \<mapsto> \<lparr>timeSignalNumber = 1, dataSignalNumbers = [2]\<rparr>]\<rparr>"

lemma table_container_linked: "linked table_container"
  by (simp add: table_container_def linked_def stands_for_def place_def SignalContainer_init_def SubscribedSignal_init_def)

lemma table_container_ok: "container_ok table_container"
proof -
  have "signal_ok (SubscribedSignal_init tree_lib 1)" "signal_ok (SubscribedSignal_init tree_lib 2)"
    by (simp_all add: signal_ok_init)
  then show ?thesis
    by (auto simp: table_container_def container_ok_def SignalContainer_init_def SubscribedSignal_init_def object_ok_def
        signal_ok_def)
qed

text \<open>
  A second time signal, of number 5, comes to and leaves the table with time signal 1 and data
  signal 2, which then has no time signal; a data signal of a new table leaves nothing behind.
\<close>

theorem subscribe_unsubscribe_witness:
  "(\<exists>c3. container_processMetaInformation tree_lib 5 (meta_doc META_METHOD_UNSUBSCRIBE [])
       (fold (container_exec tree_lib)
          [Meta_op 5 (meta_doc META_METHOD_SUBSCRIBE [(META_SIGNALID, TStr ''x'')]),
           Meta_op 5 (meta_doc META_METHOD_SIGNAL [(META_TABLEID, TStr ''x'')])] SignalContainer_init) = (Inr 0, c3) \<and>
     c_tables c3 = c_tables (SignalContainer_init :: jtree container)) \<and>
   (\<exists>c3. container_processMetaInformation tree_lib 5 (meta_doc META_METHOD_UNSUBSCRIBE [])
       (fold (container_exec tree_lib)
          [Meta_op 5 (meta_doc META_METHOD_SUBSCRIBE [(META_SIGNALID, TStr ''x'')]), Meta_op 5 example_time]
          table_container) = (Inr 0, c3) \<and>
     c_tables c3 ''t'' = Some \<lparr>timeSignalNumber = 0, dataSignalNumbers = [2]\<rparr>)"
proof
  let ?sub = "meta_doc META_METHOD_SUBSCRIBE [(META_SIGNALID, TStr ''x'')]"
  let ?desc = "meta_doc META_METHOD_SIGNAL [(META_TABLEID, TStr ''x'')]"
  let ?c1 = "container_exec tree_lib (Meta_op 5 ?sub) SignalContainer_init"
  let ?c2 = "container_exec tree_lib (Meta_op 5 ?desc) ?c1"
  have "container_processMetaInformation tree_lib 5 ?sub SignalContainer_init = (Inr 0, ?c1)"
    by (rule prod_eqI, code_simp) (simp add: container_exec_def)
  moreover have "container_processMetaInformation tree_lib 5 ?desc ?c1 = (Inr 0, ?c2)"
    by (rule prod_eqI, code_simp) (simp add: container_exec_def)
  ultimately show "\<exists>c3. container_processMetaInformation tree_lib 5 (meta_doc META_METHOD_UNSUBSCRIBE [])
       (fold (container_exec tree_lib) [Meta_op 5 ?sub, Meta_op 5 ?desc] SignalContainer_init) = (Inr 0, c3) \<and>
     c_tables c3 = c_tables (SignalContainer_init :: jtree container)"
    using subscribe_unsubscribe [OF linked_init container_ok_init, of 5 tree_lib ?sub ?desc
        "meta_doc META_METHOD_UNSUBSCRIBE []" ?c1 ?c2, OF _ _ _ _ _ _ refl]
    by (fastforce simp: SignalContainer_init_def)
next
  let ?sub = "meta_doc META_METHOD_SUBSCRIBE [(META_SIGNALID, TStr ''x'')]"
  let ?desc = example_time and ?c = table_container
  let ?c1 = "container_exec tree_lib (Meta_op 5 ?sub) ?c"
  let ?c2 = "container_exec tree_lib (Meta_op 5 ?desc) ?c1"
  have "c_signals ?c 5 = None" by code_simp
  moreover have "container_processMetaInformation tree_lib 5 ?sub ?c = (Inr 0, ?c1)"
    by (rule prod_eqI, code_simp) (simp add: container_exec_def)
  moreover have "container_processMetaInformation tree_lib 5 ?desc ?c1 = (Inr 0, ?c2)"
    by (rule prod_eqI, code_simp) (simp add: container_exec_def)
  moreover have "s_tableId (c_heap ?c2 ! length (c_heap ?c)) = ''t''" "s_isTime (c_heap ?c2 ! length (c_heap ?c))"
    "c_tables ?c ''t'' = Some \<lparr>timeSignalNumber = 1, dataSignalNumbers = [2]\<rparr>" by code_simp+
  moreover have "meta_method tree_lib ?desc = Inr META_METHOD_SIGNAL" by (simp add: example_time_def)
  ultimately show "\<exists>c3. container_processMetaInformation tree_lib 5 (meta_doc META_METHOD_UNSUBSCRIBE [])
       (fold (container_exec tree_lib) [Meta_op 5 ?sub, Meta_op 5 ?desc] ?c) = (Inr 0, c3) \<and>
     c_tables c3 ''t'' = Some \<lparr>timeSignalNumber = 0, dataSignalNumbers = [2]\<rparr>"
    using subscribe_unsubscribe [OF table_container_linked table_container_ok, of 5 tree_lib ?sub ?desc
        "meta_doc META_METHOD_UNSUBSCRIBE []" ?c1 ?c2, OF _ _ _ _ _ _ refl]
    by (fastforce simp: visited_def)
qed

text \<open>
  C15: the time stamp of measured data. When a packet of the linear time signal of a table
  (value index and time) is followed by a packet of one of the table's data signals with
  explicit values, the container calls the raw callback and then the value callback once,
  with the time of the packet plus the delta times the distance of the value indices;
  from then on \<open>timeLinearDelta\<close> of the data signal is the delta of the time signal.
\<close>

theorem linear_time_then_data:
  assumes "linked c" and "container_ok c" and "16 \<le> length tp"
    and "c_signals c n = Some (Some r)" and "\<not> s_isTime (c_heap c ! r)" and "s_rule (c_heap c ! r) = RULETYPE_EXPLICIT"
    and "c_tables c (s_tableId (c_heap c ! r)) = Some t" and "n \<in> set (dataSignalNumbers t)"
    and "timeSignalNumber t \<noteq> 0" and "c_signals c (timeSignalNumber t) = Some (Some q)"
    and "s_rule (c_heap c ! q) = RULETYPE_LINEAR"
  defines "c1 \<equiv> snd (container_processMeasuredData (timeSignalNumber t) tp c)"
    and "ts \<equiv> indexed_value tp +
        (s_linearValueIndex (c_heap c ! r) - indexed_index tp) * s_linearDelta (c_heap c ! q)"
  shows "\<exists>s c2. container_processMeasuredData n d c1 = (Inr (ssize_of d), c2) \<and> s_number s = n \<and>
    c_calls c2 = c_calls c @ [(c_dataAsRawCb c, RawData s ts d),
      (c_dataAsValueCb c, ValueData s ts d (size_of d div s_valueSize (c_heap c ! r)))] \<and>
    timeLinearDelta r c2 = s_linearDelta (c_heap c ! q)"
proof -
  note rr = container_ok_ref [OF assms(2,4)] and qq = container_ok_ref(1) [OF assms(2,10)]
  have q: "s_isTime (c_heap c ! q)" "s_tableId (c_heap c ! q) = s_tableId (c_heap c ! r)"
    using stands_for_table(1) [OF assms(1,7,9)] assms(10) by (auto simp: stands_for_def place_def)
  have neq: "q \<noteq> r" using q assms(5) by auto
  have c1: "c1 = set_object q (implicit_time tp (c_heap c ! q)) c"
    using container_timeData_linked(2) [OF assms(1) qq, of tp] q assms(3,7,8,10,11)
    by (auto simp: c1_def container_processMeasuredData_def time_written_def)
  have l1: "linked c1"
    using linked_write [OF assms(1,2) qq, of "implicit_time tp (c_heap c ! q)"]
    by (simp add: c1 place_def implicit_time_def)
  have s1: "c_heap c1 ! r = c_heap c ! r" using neq by (simp add: c1)
  have size: "s_valueSize (c_heap c ! r) \<noteq> 0"
    using container_ok_object [OF assms(2) rr(1)] by (simp add: object_ok_def signal_ok_def)
  have "container_processMeasuredData n d c1 = container_valueData r d c1"
    using assms(4,5) s1 by (simp add: c1 container_processMeasuredData_def)
  also have "\<dots> = object_processMeasuredData r (Some q) d (set_object r ((c_heap c ! r)\<lparr>s_timeSignal := Some q\<rparr>) c1)"
    using container_valueData_linked [OF l1, of r t q d] assms(7,9,10) s1 by (simp add: c1)
  finally show ?thesis
    using rr qq neq size assms(6,11)
    by (auto simp: object_processMeasuredData_def processMeasuredData_linear c1 implicit_time_def ts_def
        call_of_def Let_def timeLinearDelta_def)
qed

text \<open>The container after the first four inputs of the example.\<close>

definition example_container :: "jtree container" where
  "example_container = fold (container_exec tree_lib) (take 4 example_ops) SignalContainer_init"

theorem linear_time_then_data_witness:
  "\<exists>s c2. container_processMeasuredData 2 (replicate 6 0)
      (snd (container_processMeasuredData 1 (le_bytes 8 (3 :: u64) @ le_bytes 8 (1000 :: u64)) example_container)) =
      (Inr 6, c2) \<and> s_number s = 2 \<and>
    map snd (drop 4 (c_calls c2)) = [RawData s 970 (replicate 6 0), ValueData s 970 (replicate 6 0) 3]"
proof -
  have leg: "legal_run tree_lib (take 4 example_ops) SignalContainer_init" by code_simp
  have facts: "(let c = example_container
     in (c_signals c 2, c_signals c 1, length (c_calls c), c_tables c ''t'')) =
       (Some (Some 1), Some (Some 0), 4, Some \<lparr>timeSignalNumber = 1, dataSignalNumbers = [2]\<rparr>)"
    by code_simp
  have objects: "(let h = c_heap example_container; q = h ! 0; s = h ! 1
     in (s_isTime s, s_rule s, s_tableId s, s_linearValueIndex s, s_valueSize s, s_rule q, s_linearDelta q)) =
       (False, RULETYPE_EXPLICIT, ''t'', 0, 2, RULETYPE_LINEAR, 10)"
    by code_simp
  have "linked example_container \<and> container_ok example_container"
    unfolding example_container_def
    using legal_run_safe [OF tree_json_laws leg container_ok_init linked_init] container_machine.good_run by blast
  then show ?thesis
    using linear_time_then_data [of example_container "le_bytes 8 (3 :: u64) @ le_bytes 8 (1000 :: u64)" 2 1
        "\<lparr>timeSignalNumber = 1, dataSignalNumbers = [2]\<rparr>" 0 "replicate 6 0"] facts objects
    by (force simp: Let_def indexed_value_def indexed_index_def size_of_def ssize_of_def)
qed

end
