(* ===== verification/Control.thy ===== *)
theory Control
  imports Stream_Meta
begin

text \<open>
  The control channel: the consumer posts JSON-RPC requests (\<open>Controller.cpp\<close>,
  \<open>HttpPost.cpp\<close>), the producer's control server answers them (\<open>ControlServer.cpp\<close>). Name
  resolution, sockets and the HTTP messages are those of Boost.Asio and Boost.Beast, which
  are not part of the sources: what their operations return is an argument of the handlers,
  and an outstanding asynchronous operation is a value of the state. Shown: the method a
  client posts, cut at its first dot, is what the server executes, the callback runs exactly
  for well-formed requests and every request is answered at most once, a post reports its
  result exactly once, and the listener keeps exactly one accept outstanding.
\<close>

type_synonym error_code = int

section \<open>Controller\<close>

record controller =
  ct_streamId :: string
  ct_address :: string
  ct_port :: string
  ct_target :: string
  ct_httpVersion :: u32

definition Controller_init :: "string \<Rightarrow> string \<Rightarrow> string \<Rightarrow> string \<Rightarrow> u32 \<Rightarrow> exn + controller" where
  "Controller_init streamId address port target httpVersion =
     (if streamId = [] then Inl Runtime_error
      else Inr \<lparr>ct_streamId = streamId, ct_address = address, ct_port = port, ct_target = target,
                ct_httpVersion = httpVersion\<rparr>)"

text \<open>\<open>s_id\<close> is a static counter of 32 bits: the request carries its incremented value.\<close>

definition createRequest ::
  "'j json_lib \<Rightarrow> controller \<Rightarrow> signal_ids \<Rightarrow> string \<Rightarrow> u32 \<Rightarrow> 'j \<times> u32" where
  "createRequest J ct signalIds method s_id =
     (let r1 = j_put J (j_null J) ''jsonrpc'' (j_of_string J ''2.0'');
          r2 = j_put J r1 ''method'' (j_of_string J (ct_streamId ct @ ''.'' @ method));
          r3 = foldl (\<lambda>r signalRef. j_push_at J r ''params'' (j_of_string J signalRef)) r2 signalIds;
          n = s_id + 1
      in (j_put J r3 ''id'' (j_of_uint64 J (ucast n)), n))"

section \<open>HttpPost\<close>

record http_request =
  rq_version :: u32
  rq_post :: bool
  rq_target :: string
  rq_host :: string
  rq_keep_alive :: bool
  rq_body :: string

datatype post_op = Resolve | Connect | Write_request | Read_response

record http_post =
  hp_host :: string
  hp_port :: string
  hp_target :: string
  hp_version :: u32
  hp_request :: http_request
  hp_pending :: "post_op option"
  hp_results :: "error_code list"

definition HttpPost_init :: "string \<Rightarrow> string \<Rightarrow> string \<Rightarrow> u32 \<Rightarrow> exn + http_post" where
  "HttpPost_init host port target protocolVersion =
     (if port = [] then Inl Runtime_error
      else if target = [] then Inl Runtime_error
      else Inr \<lparr>hp_host = (if host = [] then ''localhost'' else host), hp_port = port, hp_target = target,
                hp_version = protocolVersion,
                hp_request = \<lparr>rq_version = 11, rq_post = False, rq_target = [], rq_host = [],
                              rq_keep_alive = True, rq_body = []\<rparr>,
                hp_pending = None, hp_results = []\<rparr>)"

text \<open>HTTP 1.1 (version 11) keeps a connection alive unless told otherwise, 1.0 does not.\<close>

definition HttpPost_run :: "string \<Rightarrow> http_post \<Rightarrow> http_post" where
  "HttpPost_run request p = p\<lparr>
     hp_request := \<lparr>rq_version = hp_version p, rq_post = True, rq_target = hp_target p,
                    rq_host = hp_host p, rq_keep_alive = (11 \<le> hp_version p), rq_body = request\<rparr>,
     hp_pending := Some Resolve\<rparr>"

definition post_result :: "error_code \<Rightarrow> http_post \<Rightarrow> http_post" where
  "post_result ec p = p\<lparr>hp_results := hp_results p @ [ec], hp_pending := None\<rparr>"

definition on_resolve :: "error_code \<Rightarrow> http_post \<Rightarrow> http_post" where
  "on_resolve ec p = (if ec \<noteq> 0 then post_result ec p else p\<lparr>hp_pending := Some Connect\<rparr>)"

definition on_connect :: "error_code \<Rightarrow> http_post \<Rightarrow> http_post" where
  "on_connect ec p = (if ec \<noteq> 0 then post_result ec p else p\<lparr>hp_pending := Some Write_request\<rparr>)"

definition post_on_write :: "error_code \<Rightarrow> http_post \<Rightarrow> http_post" where
  "post_on_write ec p = (if ec \<noteq> 0 then post_result ec p else p\<lparr>hp_pending := Some Read_response\<rparr>)"

text \<open>Both branches report; the status of the response is only logged.\<close>

definition post_on_read :: "error_code \<Rightarrow> http_post \<Rightarrow> http_post" where
  "post_on_read ec p = (if ec \<noteq> 0 then post_result ec p else post_result ec p)"

text \<open>The completion of the outstanding operation with the error code \<open>ec\<close>.\<close>

definition post_complete :: "error_code \<Rightarrow> http_post \<Rightarrow> http_post" where
  "post_complete ec p =
     (case hp_pending p of
        None \<Rightarrow> p
      | Some Resolve \<Rightarrow> on_resolve ec p
      | Some Connect \<Rightarrow> on_connect ec p
      | Some Write_request \<Rightarrow> post_on_write ec p
      | Some Read_response \<Rightarrow> post_on_read ec p)"

text \<open>
  \<open>Controller::execute\<close> and the two commands. An empty list of signals is reported as a
  success at once, without a request.
\<close>

datatype command_outcome = Done error_code | Posted http_post | Failed exn

definition execute :: "'j json_lib \<Rightarrow> controller \<Rightarrow> 'j \<Rightarrow> command_outcome" where
  "execute J ct request =
     (case HttpPost_init (ct_address ct) (ct_port ct) (ct_target ct) (ct_httpVersion ct) of
        Inl e \<Rightarrow> Failed e
      | Inr p \<Rightarrow> Posted (HttpPost_run (j_dump J request) p))"

definition asyncSubscribe ::
  "'j json_lib \<Rightarrow> controller \<Rightarrow> signal_ids \<Rightarrow> u32 \<Rightarrow> command_outcome \<times> u32" where
  "asyncSubscribe J ct signalIds s_id =
     (if signalIds = [] then (Done 0, s_id)
      else case createRequest J ct signalIds META_METHOD_SUBSCRIBE s_id of
        (request, s_id') \<Rightarrow> (execute J ct request, s_id'))"

definition asyncUnsubscribe ::
  "'j json_lib \<Rightarrow> controller \<Rightarrow> signal_ids \<Rightarrow> u32 \<Rightarrow> command_outcome \<times> u32" where
  "asyncUnsubscribe J ct signalIds s_id =
     (if signalIds = [] then (Done 0, s_id)
      else case createRequest J ct signalIds META_METHOD_UNSUBSCRIBE s_id of
        (request, s_id') \<Rightarrow> (execute J ct request, s_id'))"

section \<open>Requests at the server\<close>

record http_response =
  rs_status :: nat
  rs_version :: u32
  rs_content_type :: string
  rs_keep_alive :: bool
  rs_body :: string
  rs_prepared :: bool

definition bad_request :: "http_request \<Rightarrow> string \<Rightarrow> http_response" where
  "bad_request req why = \<lparr>rs_status = 400, rs_version = rq_version req, rs_content_type = ''text/html'',
     rs_keep_alive = rq_keep_alive req, rs_body = why, rs_prepared = True\<rparr>"

text \<open>The successful response has a body, but its payload is not prepared.\<close>

definition ok_response :: "http_request \<Rightarrow> http_response" where
  "ok_response req = \<lparr>rs_status = 200, rs_version = rq_version req, rs_content_type = ''application/json'',
     rs_keep_alive = rq_keep_alive req, rs_body = ''Succeeded'', rs_prepared = False\<rparr>"

text \<open>\<open>signalIds.push_back(iter)\<close> for each item: a string each, or an exception.\<close>

fun strings_of :: "'j json_lib \<Rightarrow> 'j list \<Rightarrow> string list option" where
  "strings_of J [] = Some []"
| "strings_of J (j # js) =
     (case j_to_string J j of
        None \<Rightarrow> None
      | Some s \<Rightarrow> map_option (Cons s) (strings_of J js))"

text \<open>The method up to its first dot, and what follows the dot.\<close>

definition split_method :: "string \<Rightarrow> (string \<times> string) option" where
  "split_method m =
     (if CHR ''.'' \<in> set m
      then Some (takeWhile (\<lambda>c. c \<noteq> CHR ''.'') m, tl (dropWhile (\<lambda>c. c \<noteq> CHR ''.'') m))
      else None)"

text \<open>The command callback belongs to the application: it has a state of its own.\<close>

type_synonym 's command_cb = "string \<Rightarrow> string \<Rightarrow> signal_ids \<Rightarrow> 's \<Rightarrow> (int \<times> string) \<times> 's"

definition run_command ::
  "'j json_lib \<Rightarrow> 's command_cb \<Rightarrow> http_request \<Rightarrow> string \<Rightarrow> string \<Rightarrow> 'j \<Rightarrow> 's \<Rightarrow> (exn + http_response) \<times> 's" where
  "run_command J commandCb req streamId command params st =
     (if j_is_null J params then (Inr (bad_request req ''json rpc request without parameters''), st)
      else if \<not> j_is_array J params
      then (Inr (bad_request req ''Expecting an array of signal ids as parameters''), st)
      else (case strings_of J (j_items J params) of
         None \<Rightarrow> (Inl Json_exception, st)
       | Some signalIds \<Rightarrow>
           (case commandCb streamId command signalIds st of
              ((result, s_response), st') \<Rightarrow>
                (if result < 0 then Inr (bad_request req (''json rpc execution failed: '' @ s_response))
                 else Inr (ok_response req), st'))))"

definition handle_request ::
  "'j json_lib \<Rightarrow> 's command_cb \<Rightarrow> http_request \<Rightarrow> 's \<Rightarrow> (exn + http_response) \<times> 's" where
  "handle_request J commandCb req st =
     (if \<not> rq_post req then (Inr (bad_request req ''Unknown HTTP-method''), st)
      else (case j_parse J (rq_body req) of
         None \<Rightarrow> (Inl Json_exception, st)
       | Some request \<Rightarrow>
      (case j_index J request ''id'' of
         Inl e \<Rightarrow> (Inl e, st)
       | Inr rid \<Rightarrow>
      if j_is_null J rid then (Inr (bad_request req ''json rpc request without id''), st)
      else (case j_index J request ''method'' of
         Inl e \<Rightarrow> (Inl e, st)
       | Inr method \<Rightarrow>
      if j_is_null J method then (Inr (bad_request req ''json rpc request without method''), st)
      else (case j_to_string J method of
         None \<Rightarrow> (Inl Json_exception, st)
       | Some methodString \<Rightarrow>
      (case split_method methodString of
         None \<Rightarrow> (Inr (bad_request req (''json rpc request with invalid method '' @ [CHR 0x27] @ methodString
                    @ [CHR 0x27] @ ''. Expecting <stream id>.<command>'')), st)
       | Some (streamId, command) \<Rightarrow>
      (case j_index J request ''params'' of
         Inl e \<Rightarrow> (Inl e, st)
       | Inr params \<Rightarrow> run_command J commandCb req streamId command params st)))))))"

section \<open>Sessions of the server\<close>

text \<open>
  A session has at most one operation outstanding. \<open>need_eof\<close> is Beast's: whether the end of
  a message is marked by the end of the connection.
\<close>

datatype session_op = Read_request | Write_response bool

record session =
  ss_pending :: "session_op option"
  ss_shutdown :: bool
  ss_sent :: "http_response list"

definition session_init :: session where
  "session_init = \<lparr>ss_pending = None, ss_shutdown = False, ss_sent = []\<rparr>"

definition do_read :: "session \<Rightarrow> session" where
  "do_read s = s\<lparr>ss_pending := Some Read_request\<rparr>"

definition session_run :: "session \<Rightarrow> session" where
  "session_run s = do_read s"

definition do_close :: "session \<Rightarrow> session" where
  "do_close s = s\<lparr>ss_shutdown := True\<rparr>"

definition send_response :: "(http_response \<Rightarrow> bool) \<Rightarrow> http_response \<Rightarrow> session \<Rightarrow> session" where
  "send_response need_eof msg s =
     s\<lparr>ss_sent := ss_sent s @ [msg], ss_pending := Some (Write_response (need_eof msg))\<rparr>"

datatype read_status = Read_ok http_request | End_of_stream | Read_failed

definition session_on_read ::
  "'j json_lib \<Rightarrow> 's command_cb \<Rightarrow> (http_response \<Rightarrow> bool) \<Rightarrow> read_status \<Rightarrow> session \<Rightarrow> 's
     \<Rightarrow> exn option \<times> session \<times> 's" where
  "session_on_read J commandCb need_eof status s st =
     (let s1 = s\<lparr>ss_pending := None\<rparr>
      in (case status of
            End_of_stream \<Rightarrow> (None, do_close s1, st)
          | Read_failed \<Rightarrow> (None, s1, st)
          | Read_ok req \<Rightarrow>
              (case handle_request J commandCb req st of
                 (Inl e, st') \<Rightarrow> (Some e, s1, st')
               | (Inr msg, st') \<Rightarrow> (None, send_response need_eof msg s1, st'))))"

definition session_on_write :: "bool \<Rightarrow> error_code \<Rightarrow> session \<Rightarrow> session" where
  "session_on_write close ec s =
     (let s1 = s\<lparr>ss_pending := None\<rparr>
      in if ec \<noteq> 0 then s1 else if close then do_close s1 else do_read s1)"

section \<open>Listener and ControlServer\<close>

text \<open>
  The error codes of the acceptor's operations on one endpoint. \<open>ln_accepting\<close> counts the
  accepts that are outstanding: \<open>async_accept\<close> adds one, its completion takes one away.
\<close>

record acceptor =
  ac_open :: error_code
  ac_v6_only :: error_code
  ac_reuse :: error_code
  ac_bind :: error_code
  ac_listen :: error_code

record listener =
  ln_accepting :: nat
  ln_closed :: bool
  ln_sessions :: "session list"

definition listener_init :: "acceptor \<Rightarrow> bool \<Rightarrow> exn + listener" where
  "listener_init A is_v6 =
     (if ac_open A \<noteq> 0 then Inl Runtime_error
      else if is_v6 \<and> ac_v6_only A \<noteq> 0 then Inl Runtime_error
      else if ac_reuse A \<noteq> 0 then Inl Runtime_error
      else if ac_bind A \<noteq> 0 then Inl Runtime_error
      else if ac_listen A \<noteq> 0 then Inl Runtime_error
      else Inr \<lparr>ln_accepting = 0, ln_closed = False, ln_sessions = []\<rparr>)"

definition do_accept :: "listener \<Rightarrow> listener" where
  "do_accept l = l\<lparr>ln_accepting := ln_accepting l + 1\<rparr>"

definition listener_run :: "listener \<Rightarrow> listener" where
  "listener_run l = do_accept l"

definition on_accept :: "error_code \<Rightarrow> listener \<Rightarrow> listener" where
  "on_accept ec l =
     (let l1 = l\<lparr>ln_accepting := ln_accepting l - 1\<rparr>
      in do_accept (if ec \<noteq> 0 then l1
                    else l1\<lparr>ln_sessions := ln_sessions l1 @ [session_run session_init]\<rparr>))"

definition listener_stop :: "listener \<Rightarrow> listener" where
  "listener_stop l = l\<lparr>ln_closed := True\<rparr>"

record control_server =
  cs_port :: u16
  cs_listener_v4 :: "listener option"
  cs_listener_v6 :: "listener option"

definition ControlServer_init :: "u16 \<Rightarrow> control_server" where
  "ControlServer_init port = \<lparr>cs_port = port, cs_listener_v4 = None, cs_listener_v6 = None\<rparr>"

text \<open>A family that cannot be listened on is only logged: its listener stays as it was.\<close>

definition start_listener :: "acceptor \<Rightarrow> bool \<Rightarrow> listener option \<Rightarrow> listener option" where
  "start_listener A is_v6 old =
     (case listener_init A is_v6 of Inl e \<Rightarrow> old | Inr l \<Rightarrow> Some (listener_run l))"

definition ControlServer_start :: "acceptor \<Rightarrow> acceptor \<Rightarrow> control_server \<Rightarrow> control_server" where
  "ControlServer_start A4 A6 s =
     s\<lparr>cs_listener_v4 := start_listener A4 False (cs_listener_v4 s),
       cs_listener_v6 := start_listener A6 True (cs_listener_v6 s)\<rparr>"

definition ControlServer_stop :: "control_server \<Rightarrow> control_server" where
  "ControlServer_stop s =
     s\<lparr>cs_listener_v4 := map_option listener_stop (cs_listener_v4 s),
       cs_listener_v6 := map_option listener_stop (cs_listener_v6 s)\<rparr>"

definition ControlServer_getPort :: "control_server \<Rightarrow> u16" where
  "ControlServer_getPort s = cs_port s"

section \<open>From the client to the server\<close>

lemma strings_of_map: "json_laws J \<Longrightarrow> strings_of J (map (j_of_string J) ids) = Some ids"
  by (induction ids) (simp_all add: json_simps)

text \<open>What the server finds in a request that \<open>createRequest\<close> composed.\<close>

lemma createRequest_finds:
  assumes J: "json_laws J" and "ids \<noteq> []" and "createRequest J ct ids method k = (request, k')"
  shows "composable J request"
    and "j_find J request ''id'' = Some (j_of_uint64 J (ucast k'))"
    and "j_find J request ''method'' = Some (j_of_string J (ct_streamId ct @ ''.'' @ method))"
    and "\<exists>params. j_find J request ''params'' = Some params \<and> j_is_array J params \<and>
           j_items J params = map (j_of_string J) ids"
proof -
  let ?r = "j_put J (j_put J (j_null J) ''jsonrpc'' (j_of_string J ''2.0'')) ''method''
      (j_of_string J (ct_streamId ct @ ''.'' @ method))"
  let ?f = "foldl (\<lambda>r x. j_push_at J r ''params'' (j_of_string J x)) ?r ids"
  have r: "composable J ?r" "pushable J (j_member J ?r ''params'')" "j_items J (j_member J ?r ''params'') = []"
    "j_find J ?r ''method'' = Some (j_of_string J (ct_streamId ct @ ''.'' @ method))"
    using J by (simp_all add: json_simps)
  note f = push_items [OF J r(1,2), of "j_of_string J" ids]
  have request: "request = j_put J ?f ''id'' (j_of_uint64 J (ucast (k + 1)))" "k' = k + 1"
    using assms(3) by (auto simp: createRequest_def Let_def)
  show "composable J request" "j_find J request ''id'' = Some (j_of_uint64 J (ucast k'))"
    "j_find J request ''method'' = Some (j_of_string J (ct_streamId ct @ ''.'' @ method))"
    using f J r(4) by (simp_all add: request json_simps)
  show "\<exists>params. j_find J request ''params'' = Some params \<and> j_is_array J params \<and>
      j_items J params = map (j_of_string J) ids"
    using f J r(3) assms(2) by (simp add: request json_simps)
qed

lemma split_method_join:
  "CHR ''.'' \<notin> set a \<Longrightarrow> split_method (a @ ''.'' @ b) = Some (a, b)"
proof -
  assume a: "CHR ''.'' \<notin> set a"
  then have "\<And>x. x \<in> set a \<Longrightarrow> x \<noteq> CHR ''.''" by auto
  then show ?thesis by (simp add: split_method_def takeWhile_append2 dropWhile_append2)
qed

text \<open>The outcome of a command at the server, in terms of what its callback returned.\<close>

definition answer :: "http_request \<Rightarrow> int \<times> string \<Rightarrow> http_response" where
  "answer req r = (if fst r < 0 then bad_request req (''json rpc execution failed: '' @ snd r) else ok_response req)"

text \<open>
  What a request must be to be a command, as a client would say it and not in the order the
  server checks it: a POST whose body is a document with an id, with a method that is a stream
  id without a dot, a dot and the command, and with an array of signal ids as parameters.
\<close>

definition command_request ::
  "'j json_lib \<Rightarrow> http_request \<Rightarrow> string \<Rightarrow> string \<Rightarrow> signal_ids \<Rightarrow> bool" where
  "command_request J req streamId command ids \<longleftrightarrow>
     rq_post req \<and>
     (\<exists>request rid m params.
        j_parse J (rq_body req) = Some request \<and>
        j_index J request ''id'' = Inr rid \<and> \<not> j_is_null J rid \<and>
        j_index J request ''method'' = Inr m \<and> \<not> j_is_null J m \<and>
        j_to_string J m = Some (streamId @ ''.'' @ command) \<and> CHR ''.'' \<notin> set streamId \<and>
        j_index J request ''params'' = Inr params \<and> \<not> j_is_null J params \<and> j_is_array J params \<and>
        map (j_to_string J) (j_items J params) = map Some ids)"

lemma strings_of_iff: "strings_of J js = Some ids \<longleftrightarrow> map (j_to_string J) js = map Some ids"
proof (induction js arbitrary: ids)
  case (Cons j js)
  then show ?case by (cases ids) (auto split: option.splits)
qed auto

lemma split_method_iff:
  "split_method m = Some (a, b) \<longleftrightarrow> m = a @ ''.'' @ b \<and> CHR ''.'' \<notin> set a"
proof
  assume split: "split_method m = Some (a, b)"
  then have dot: "CHR ''.'' \<in> set m" by (simp add: split_method_def split: if_splits)
  then have "dropWhile (\<lambda>c. c \<noteq> CHR ''.'') m = CHR ''.'' # tl (dropWhile (\<lambda>c. c \<noteq> CHR ''.'') m)"
    by (induction m) auto
  with split dot show "m = a @ ''.'' @ b \<and> CHR ''.'' \<notin> set a"
    by (auto simp: split_method_def dest: set_takeWhileD) (metis takeWhile_dropWhile_id)
qed (auto intro: split_method_join [simplified])

lemma command_executes:
  assumes "command_request J req streamId command ids"
  shows "handle_request J cb req st = (case cb streamId command ids st of (r, st') \<Rightarrow> (Inr (answer req r), st'))"
proof -
  from assms obtain request rid m params where
    "j_parse J (rq_body req) = Some request"
    "j_index J request ''id'' = Inr rid" "\<not> j_is_null J rid"
    "j_index J request ''method'' = Inr m" "\<not> j_is_null J m"
    "j_to_string J m = Some (streamId @ ''.'' @ command)" and dot: "CHR ''.'' \<notin> set streamId"
    and "j_index J request ''params'' = Inr params" "\<not> j_is_null J params" "j_is_array J params"
    and ids: "map (j_to_string J) (j_items J params) = map Some ids" and "rq_post req"
    by (auto simp: command_request_def)
  then show ?thesis
    using split_method_join [OF dot, of command] ids [folded strings_of_iff]
    by (simp add: handle_request_def run_command_def answer_def case_prod_beta)
qed

text \<open>A refusal: an exception or a bad request.\<close>

definition refusal :: "exn + http_response \<Rightarrow> bool" where
  "refusal res \<longleftrightarrow> (case res of Inl e \<Rightarrow> True | Inr r \<Rightarrow> rs_status r = 400)"

lemma refusal_simps [simp]: "refusal (Inl e)" "refusal (Inr (bad_request req why))"
  by (simp_all add: refusal_def bad_request_def)

lemma run_command_refuses:
  assumes "\<nexists>ids. \<not> j_is_null J params \<and> j_is_array J params \<and> strings_of J (j_items J params) = Some ids"
  shows "run_command J cb req streamId command params st =
      (fst (run_command J undefined req streamId command params undefined), st)"
    and "refusal (fst (run_command J cb req streamId command params st))"
  using assms by (cases "strings_of J (j_items J params)"; auto simp: run_command_def)+

lemma other_refused:
  assumes other: "\<nexists>streamId command ids. command_request J req streamId command ids"
  shows "handle_request J cb req st = (fst (handle_request J undefined req undefined), st)"
    and "refusal (fst (handle_request J cb req st))"
proof -
  have params: "\<nexists>ids. \<not> j_is_null J params \<and> j_is_array J params \<and> strings_of J (j_items J params) = Some ids"
    if "rq_post req" "j_parse J (rq_body req) = Some request" "j_index J request ''id'' = Inr rid"
      "\<not> j_is_null J rid" "j_index J request ''method'' = Inr m" "\<not> j_is_null J m"
      "j_to_string J m = Some s" "split_method s = Some (streamId, command)"
      "j_index J request ''params'' = Inr params" for request rid m s streamId command params
    using other that unfolding command_request_def strings_of_iff split_method_iff by blast
  show "handle_request J cb req st = (fst (handle_request J undefined req undefined), st)"
    by (auto simp: handle_request_def intro: params [THEN run_command_refuses(1)] split: sum.split option.split)
  show "refusal (fst (handle_request J cb req st))"
    by (auto simp: handle_request_def intro: params [THEN run_command_refuses(2)] split: sum.split option.split)
qed

lemma createRequest_command:
  assumes J: "json_laws J" and "ids \<noteq> []" and "createRequest J ct ids method k = (request, k')"
    and "j_textual J request" and "split_method (ct_streamId ct @ ''.'' @ method) = Some (streamId, command)"
    and "rq_post req" and "rq_body req = j_dump J request"
  shows "command_request J req streamId command ids"
proof -
  note finds = createRequest_finds [OF assms(1-3)]
  from finds(4) obtain params where params: "j_find J request ''params'' = Some params"
    "j_is_array J params" "j_items J params = map (j_of_string J) ids" by blast
  have "ct_streamId ct @ ''.'' @ method = streamId @ ''.'' @ command" "CHR ''.'' \<notin> set streamId"
    using assms(5) by (auto simp only: split_method_iff)
  then show ?thesis
    using assms(6,7) finds(1-3) params text_roundtrip [OF J assms(4)] array_not_null [OF J params(2)] J
    by (simp add: command_request_def json_simps comp_def)
qed

lemma handle_request_created:
  assumes "json_laws J" and "ids \<noteq> []" and "createRequest J ct ids method k = (request, k')"
    and "j_textual J request" and "CHR ''.'' \<notin> set (ct_streamId ct)"
    and "rq_post req" and "rq_body req = j_dump J request"
  shows "handle_request J cb req st =
    (case cb (ct_streamId ct) method ids st of (r, st') \<Rightarrow> (Inr (answer req r), st'))"
  by (rule command_executes)
    (rule createRequest_command [OF assms(1-4) split_method_join [OF assms(5)] assms(6,7)])

section \<open>Posts and listeners\<close>

text \<open>The steps of a post that are still to come.\<close>

fun post_steps :: "post_op \<Rightarrow> nat" where
  "post_steps Resolve = 4"
| "post_steps Connect = 3"
| "post_steps Write_request = 2"
| "post_steps Read_response = 1"

definition first_error :: "error_code list \<Rightarrow> error_code" where
  "first_error ecs = (case filter (\<lambda>e. e \<noteq> 0) ecs of [] \<Rightarrow> 0 | e # _ \<Rightarrow> e)"

lemma post_complete_idle: "hp_pending p = None \<Longrightarrow> fold post_complete ecs p = p"
  by (induction ecs) (simp_all add: post_complete_def)

lemma first_error_Cons: "first_error (e # ecs) = (if e \<noteq> 0 then e else first_error ecs)"
  by (simp add: first_error_def)

lemma post_complete_results:
  assumes "hp_pending p = Some op" and "post_steps op \<le> length ecs"
  shows "hp_results (fold post_complete ecs p) = hp_results p @ [first_error (take (post_steps op) ecs)] \<and>
    hp_pending (fold post_complete ecs p) = None"
  using assms
proof (induction ecs arbitrary: p op)
  case Nil
  then show ?case by (cases op) auto
next
  case (Cons ec ecs)
  show ?case
  proof (cases "ec = 0 \<and> op \<noteq> Read_response")
    case True
    then obtain op' where op': "hp_pending (post_complete ec p) = Some op'"
      "post_steps op = Suc (post_steps op')" "hp_results (post_complete ec p) = hp_results p"
      using Cons.prems
      by (cases op) (auto simp: post_complete_def on_resolve_def on_connect_def post_on_write_def)
    with Cons True show ?thesis by (simp add: first_error_Cons)
  next
    case False
    then have "post_complete ec p = post_result ec p"
      using Cons.prems
      by (cases op) (auto simp: post_complete_def on_resolve_def on_connect_def post_on_write_def post_on_read_def)
    moreover have "first_error (take (post_steps op) (ec # ecs)) = ec"
      using False by (cases op) (auto simp: first_error_def)
    ultimately show ?thesis by (simp add: post_complete_idle post_result_def)
  qed
qed

datatype listener_op = Accepted error_code | Stop

fun listener_exec :: "listener_op \<Rightarrow> listener \<Rightarrow> listener" where
  "listener_exec (Accepted ec) l = on_accept ec l"
| "listener_exec Stop l = listener_stop l"

definition fresh_listener :: listener where
  "fresh_listener = listener_run \<lparr>ln_accepting = 0, ln_closed = False, ln_sessions = []\<rparr>"

definition listener_ok :: "listener \<Rightarrow> bool" where
  "listener_ok l \<longleftrightarrow> ln_accepting l = 1 \<and> (\<forall>s \<in> set (ln_sessions l). ss_pending s = Some Read_request)"

interpretation listener_machine: machine fresh_listener listener_exec listener_ok
proof
  show "listener_ok fresh_listener"
    by (simp add: listener_ok_def fresh_listener_def listener_run_def do_accept_def)
  show "listener_ok (listener_exec i l)" if "listener_ok l" for l i
    using that
    by (cases i) (auto simp: listener_ok_def on_accept_def do_accept_def listener_stop_def session_run_def do_read_def
        Let_def split: if_splits)
qed

lemma listener_session_count:
  "length (ln_sessions (fold listener_exec ops l)) =
     length (ln_sessions l) + length (filter (\<lambda>i. i = Accepted 0) ops)"
proof (induction ops arbitrary: l)
  case (Cons i ops)
  then show ?case
    by (cases i) (auto simp: on_accept_def do_accept_def listener_stop_def Let_def)
qed simp

lemma listener_closed:
  "ln_closed (fold listener_exec ops l) \<longleftrightarrow> ln_closed l \<or> Stop \<in> set ops"
proof (induction ops arbitrary: l)
  case (Cons i ops)
  then show ?case
    by (cases i) (auto simp: on_accept_def do_accept_def listener_stop_def Let_def)
qed simp

section \<open>Properties\<close>

text \<open>
  C17: the control channel transports commands. What a controller posts for a non-empty list of
  signals makes the server call its command callback once, with exactly those signals in that
  order, and answer with what the callback returned; the request counter advances by one. The
  stream id and the command it is called with are the posted method cut at its first dot: the
  controller's own stream id and the command if that stream id has no dot, and otherwise the
  part of the stream id before its first dot, and the rest of it as a part of the command.
\<close>

theorem control_roundtrip:
  assumes "json_laws J" and "Controller_init streamId address port target version = Inr ct"
    and "ids \<noteq> []"
    and "command = (if sub then META_METHOD_SUBSCRIBE else META_METHOD_UNSUBSCRIBE)"
    and "j_textual J (fst (createRequest J ct ids command k))"
    and "(if sub then asyncSubscribe J ct ids k else asyncUnsubscribe J ct ids k) = (Posted p, k')"
  shows "k' = k + 1 \<and>
    (CHR ''.'' \<notin> set streamId \<longrightarrow> handle_request J cb (hp_request p) st =
       (case cb streamId command ids st of (r, st') \<Rightarrow> (Inr (answer (hp_request p) r), st'))) \<and>
    (\<forall>cut rest. streamId = cut @ ''.'' @ rest \<and> CHR ''.'' \<notin> set cut \<longrightarrow>
       handle_request J cb (hp_request p) st =
         (case cb cut (rest @ ''.'' @ command) ids st of (r, st') \<Rightarrow> (Inr (answer (hp_request p) r), st')))"
proof -
  obtain request n where request: "createRequest J ct ids command k = (request, n)"
    by (cases "createRequest J ct ids command k")
  have ct: "ct_streamId ct = streamId" using assms(2) by (auto simp: Controller_init_def split: if_splits)
  have "execute J ct request = Posted p" and k: "k' = n"
    using assms(3,4,6) request by (cases sub; simp add: asyncSubscribe_def asyncUnsubscribe_def)+
  then have p: "rq_post (hp_request p)" "rq_body (hp_request p) = j_dump J request"
    by (auto simp: execute_def HttpPost_init_def HttpPost_run_def split: sum.splits if_splits)
  have n: "n = k + 1" using request by (simp add: createRequest_def Let_def)
  have "command_request J (hp_request p) s c ids" if "split_method (streamId @ ''.'' @ command) = Some (s, c)" for s c
    using createRequest_command [OF assms(1,3) request] assms(5) request that ct p by simp
  then show ?thesis
    using k n by (auto simp: split_method_iff intro!: command_executes)
qed

definition example_cb :: "signal_ids list command_cb" where
  "example_cb streamId command ids st = (if streamId = ''S'' then ((0, []), st @ [ids]) else ((-1, ''unknown''), st))"

definition logging_cb :: "(string \<times> string \<times> signal_ids) list command_cb" where
  "logging_cb streamId command ids st = ((0, []), st @ [(streamId, command, ids)])"

definition example_controller :: "string \<Rightarrow> controller" where
  "example_controller streamId =
     \<lparr>ct_streamId = streamId, ct_address = [], ct_port = ''7438'', ct_target = ''/'', ct_httpVersion = 11\<rparr>"

lemma example_controller_init:
  "streamId \<noteq> [] \<Longrightarrow> Controller_init streamId [] ''7438'' ''/'' 11 = Inr (example_controller streamId)"
  by (simp add: Controller_init_def example_controller_def)

lemma tree_textual [simp]: "j_textual tree_lib j"
  by (simp add: tree_lib_def)

text \<open>The stream id \<open>S\<close>, and \<open>S.x\<close>, which has a dot: the callback is called for \<open>S\<close> in both cases.\<close>

theorem control_roundtrip_witness:
  "\<exists>p q. asyncSubscribe tree_lib (example_controller ''S'') [''a'', ''b''] 41 = (Posted p, 42) \<and>
     handle_request tree_lib logging_cb (hp_request p) [] =
       (Inr (ok_response (hp_request p)), [(''S'', ''subscribe'', [''a'', ''b''])]) \<and>
     asyncSubscribe tree_lib (example_controller ''S.x'') [''a'', ''b''] 41 = (Posted q, 42) \<and>
     handle_request tree_lib logging_cb (hp_request q) [] =
       (Inr (ok_response (hp_request q)), [(''S'', ''x.subscribe'', [''a'', ''b''])])"
proof -
  have posted: "\<exists>p k'. asyncSubscribe tree_lib (example_controller s) [''a'', ''b''] 41 = (Posted p, k')" for s
    by (simp add: asyncSubscribe_def execute_def HttpPost_init_def case_prod_beta example_controller_def)
  obtain p k' where p: "asyncSubscribe tree_lib (example_controller ''S'') [''a'', ''b''] 41 = (Posted p, k')"
    using posted by blast
  obtain q l' where q: "asyncSubscribe tree_lib (example_controller ''S.x'') [''a'', ''b''] 41 = (Posted q, l')"
    using posted by blast
  show ?thesis
    using control_roundtrip [OF tree_json_laws example_controller_init _ _ tree_textual,
        of "''S''" "[''a'', ''b'']" META_METHOD_SUBSCRIBE True 41 p k' logging_cb "[]"]
      control_roundtrip [OF tree_json_laws example_controller_init _ _ tree_textual,
        of "''S.x''" "[''a'', ''b'']" META_METHOD_SUBSCRIBE True 41 q l' logging_cb "[]"] p q
    by (simp add: logging_cb_def answer_def Cons_eq_append_conv)
qed

text \<open>
  C37: the command callback runs exactly for well-formed posts. A request that is a command, in
  the sense of \<open>command_request\<close>, makes the callback run once with its stream id, command and
  signal ids, and the result of the callback decides between 200 and 400. For any other
  request, one without an id among them, the outcome does not depend on the callback and its
  state is untouched: an exception, or a bad request. A session writes exactly one response for
  the request, or none after an exception.
\<close>

theorem request_answered:
  "(\<forall>streamId command ids. command_request J req streamId command ids \<longrightarrow>
      handle_request J cb req st =
        (case cb streamId command ids st of (r, st') \<Rightarrow> (Inr (answer req r), st'))) \<and>
   ((\<nexists>streamId command ids. command_request J req streamId command ids) \<longrightarrow>
      (\<exists>res. refusal res \<and> (\<forall>cb st. handle_request J cb req st = (res, st)))) \<and>
   (case session_on_read J cb need_eof (Read_ok req) ss st of (raised, ss', st') \<Rightarrow>
      ss_sent ss' = ss_sent ss @ (case fst (handle_request J cb req st) of Inl e \<Rightarrow> [] | Inr r \<Rightarrow> [r]) \<and>
      st' = snd (handle_request J cb req st))"
proof (intro conjI impI allI)
  assume "\<nexists>streamId command ids. command_request J req streamId command ids"
  then show "\<exists>res. refusal res \<and> (\<forall>cb st. handle_request J cb req st = (res, st))"
    using other_refused [of J req] by (metis fst_conv)
next
  show "case session_on_read J cb need_eof (Read_ok req) ss st of (raised, ss', st') \<Rightarrow>
      ss_sent ss' = ss_sent ss @ (case fst (handle_request J cb req st) of Inl e \<Rightarrow> [] | Inr r \<Rightarrow> [r]) \<and>
      st' = snd (handle_request J cb req st)"
    by (simp add: session_on_read_def send_response_def Let_def split: prod.split sum.split)
qed (rule command_executes)

text \<open>The same document with and without an id: the first is executed, the second refused.\<close>

definition example_post :: "jtree \<Rightarrow> http_request" where
  "example_post request = \<lparr>rq_version = 11, rq_post = True, rq_target = ''/'', rq_host = ''localhost'',
     rq_keep_alive = True, rq_body = j_dump tree_lib request\<rparr>"

definition example_call :: "(string \<times> jtree) list" where
  "example_call = [(''method'', TStr ''S.subscribe''), (''params'', TArr [TStr ''a''])]"

lemma example_parse [simp]: "j_parse tree_lib (rq_body (example_post j)) = Some j"
  by (simp add: example_post_def text_roundtrip tree_json_laws)

theorem request_answered_witness:
  "handle_request tree_lib logging_cb (example_post (TObj ((''id'', TNum 7) # example_call))) [] =
     (Inr (ok_response (example_post (TObj ((''id'', TNum 7) # example_call)))), [(''S'', ''subscribe'', [''a''])]) \<and>
   (\<exists>res. refusal res \<and>
      (\<forall>cb st. handle_request tree_lib cb (example_post (TObj example_call)) (st :: signal_ids list) = (res, st)))"
proof
  let ?with = "example_post (TObj ((''id'', TNum 7) # example_call))" and ?without = "example_post (TObj example_call)"
  have "command_request tree_lib ?with ''S'' ''subscribe'' [''a'']"
    by (simp add: command_request_def example_call_def)
      (simp add: example_post_def tree_lib_def tree_composable)
  then show "handle_request tree_lib logging_cb ?with [] = (Inr (ok_response ?with), [(''S'', ''subscribe'', [''a''])])"
    using request_answered [of tree_lib ?with logging_cb "[]", THEN conjunct1]
    by (auto simp: logging_cb_def answer_def)
  have "\<not> command_request tree_lib ?without s c ids" for s c ids
    by (simp add: command_request_def) (simp add: example_call_def tree_lib_def)
  then show "\<exists>res. refusal res \<and> (\<forall>cb st. handle_request tree_lib cb ?without (st :: signal_ids list) = (res, st))"
    using request_answered [of tree_lib ?without, THEN conjunct2, THEN conjunct1] by blast
qed

text \<open>
  C38: a post reports its result exactly once. Whatever the four operations of a post (resolve,
  connect, write, read) return, the result callback is called once, with the first error or
  with success, and nothing is outstanding afterwards.
\<close>

theorem post_reports_once:
  assumes "HttpPost_init host port target version = Inr p" and "4 \<le> length ecs"
  shows "hp_results (fold post_complete ecs (HttpPost_run body p)) = [first_error (take 4 ecs)] \<and>
    hp_pending (fold post_complete ecs (HttpPost_run body p)) = None"
proof -
  have "hp_results p = []" using assms(1) by (auto simp: HttpPost_init_def split: if_splits)
  then show ?thesis
    using post_complete_results [of "HttpPost_run body p" Resolve ecs] assms(2) by (simp add: HttpPost_run_def)
qed

theorem post_reports_once_witness:
  "\<exists>p. HttpPost_init [] ''7438'' ''/'' 11 = Inr p \<and>
     hp_results (fold post_complete [0, 111, 0, 0] (HttpPost_run ''x'' p)) = [111]"
proof -
  obtain p where p: "HttpPost_init [] ''7438'' ''/'' 11 = Inr p" by (simp add: HttpPost_init_def)
  show ?thesis using post_reports_once [OF p, of "[0, 111, 0, 0]" "''x''"] p by (simp add: first_error_def)
qed

text \<open>
  C40: a listener never stops accepting. After any sequence of accepted connections, accept
  errors and even a stop there is exactly one accept outstanding, neither none nor a second,
  the acceptor is closed if and only if there was a stop, and there is one session for every
  connection that was accepted, each of which was started by reading a request.
\<close>

theorem listener_accepts:
  "let l = fold listener_exec ops fresh_listener
   in ln_accepting l = 1 \<and> (ln_closed l \<longleftrightarrow> Stop \<in> set ops) \<and>
      map ss_pending (ln_sessions l) = replicate (length (filter (\<lambda>i. i = Accepted 0) ops)) (Some Read_request)"
proof -
  let ?l = "fold listener_exec ops fresh_listener"
  have ok: "listener_ok ?l" by (rule listener_machine.good_run)
  then have "replicate (length (map ss_pending (ln_sessions ?l))) (Some Read_request) = map ss_pending (ln_sessions ?l)"
    by (intro replicate_length_same) (auto simp: listener_ok_def)
  with ok listener_session_count [of ops fresh_listener] listener_closed [of ops fresh_listener]
  show ?thesis by (simp add: Let_def fresh_listener_def listener_run_def do_accept_def listener_ok_def)
qed

end
