(* ===== verification/Protocol_Handler.thy ===== *)
theory Protocol_Handler
  imports Signal_Container Control
begin

text \<open>
  The consumer's session (\<open>ProtocolHandler.hpp\<close>, \<open>ProtocolHandler.cpp\<close>): the state machine
  that reads header, additional length and payload of one block after the other and hands the
  payload to the signal container or to the stream's meta information. The stream
  (\<open>daq::stream::Stream\<close>) is not part of the sources: its buffer operations are the
  parameter \<open>stream_in\<close>, and \<open>reads\<close> is what the handler relies on. Shown: whatever the pieces
  in which the bytes of a list of messages arrive, the handler delivers exactly these
  messages, of a message that breaks off nothing is delivered, and an error of the only
  outstanding operation closes the session and is reported once.
\<close>

section \<open>The stream a handler reads\<close>

text \<open>
  \<open>si_data\<close> is the buffer (\<open>data()\<close>), \<open>si_consume\<close> drops bytes from its front, \<open>si_receive\<close> is
  the arrival of bytes from the peer. An asynchronous read of \<open>n\<close> bytes completes without an
  error once the buffer holds them.
\<close>

record 'w stream_in =
  si_data :: "'w \<Rightarrow> byte list"
  si_consume :: "nat \<Rightarrow> 'w \<Rightarrow> 'w"
  si_receive :: "byte list \<Rightarrow> 'w \<Rightarrow> 'w"
  si_remoteHost :: "'w \<Rightarrow> string"
  si_init :: "'w \<Rightarrow> error_code \<times> 'w"

definition reads :: "'w stream_in \<Rightarrow> bool" where
  "reads I \<longleftrightarrow>
     (\<forall>bs w. si_data I (si_receive I bs w) = si_data I w @ bs) \<and>
     (\<forall>n w. n \<le> length (si_data I w) \<longrightarrow> si_data I (si_consume I n w) = drop n (si_data I w)) \<and>
     (\<forall>n bs w. n \<le> length (si_data I w) \<longrightarrow>
        si_consume I n (si_receive I bs w) = si_receive I bs (si_consume I n w)) \<and>
     (\<forall>bs bs' w. si_receive I bs' (si_receive I bs w) = si_receive I (bs @ bs') w) \<and>
     (\<forall>w. si_receive I [] w = w)"

text \<open>A stream that is its buffer: the one the witnesses use.\<close>

definition buffer_stream :: "byte list stream_in" where
  "buffer_stream = \<lparr>si_data = (\<lambda>w. w), si_consume = drop, si_receive = (\<lambda>bs w. w @ bs),
     si_remoteHost = (\<lambda>w. ''localhost''), si_init = (\<lambda>w. (0, w))\<rparr>"

lemma buffer_stream_reads: "reads buffer_stream"
  by (simp add: reads_def buffer_stream_def)

section \<open>State\<close>

text \<open>The outstanding asynchronous operations, and the calls of the session's own callbacks.\<close>

datatype pending = Init_stream | Read_header | Read_length | Read_payload u32 | Close_stream

datatype 'j session_call = StreamMeta_call string 'j | Completion_call error_code

record ('j, 'w) handler =
  h_stream :: "'w option"
  h_remoteHost :: string
  h_completionCb :: bool
  h_sessionEc :: error_code
  h_header :: u32
  h_length :: u32
  h_signalNumber :: u32
  h_type :: u32
  h_streamMeta :: stream_meta
  h_metaInformation :: "'j meta_information"
  h_container :: "'j container"
  h_pending :: "pending list"
  h_calls :: "'j session_call list"

text \<open>
  The constructor leaves the header fields and the HTTP version uninitialised; the container
  is a reference to the caller's.
\<close>

definition ProtocolHandler_init ::
  "'j json_lib \<Rightarrow> 'j container \<Rightarrow> u32 \<Rightarrow> u32 \<Rightarrow> u32 \<Rightarrow> u32 \<Rightarrow> u32 \<Rightarrow> ('j, 'w) handler" where
  "ProtocolHandler_init J c header len number type httpVersion = \<lparr>
     h_stream = None, h_remoteHost = [], h_completionCb = False, h_sessionEc = 0,
     h_header = header, h_length = len, h_signalNumber = number, h_type = type,
     h_streamMeta = StreamMeta_init httpVersion, h_metaInformation = MetaInformation_init J,
     h_container = c, h_pending = [], h_calls = []\<rparr>"

definition protocol_error :: error_code where "protocol_error = 71"

definition schedule :: "pending \<Rightarrow> ('j, 'w) handler \<Rightarrow> ('j, 'w) handler" where
  "schedule op h = h\<lparr>h_pending := h_pending h @ [op]\<rparr>"

section \<open>Operations\<close>

definition closeSession :: "error_code \<Rightarrow> ('j, 'w) handler \<Rightarrow> ('j, 'w) handler" where
  "closeSession ec h =
     (let h1 = h\<lparr>h_sessionEc := ec\<rparr>
      in if h_stream h1 \<noteq> None then schedule Close_stream h1 else h1)"

definition onInitComplete :: "error_code \<Rightarrow> ('j, 'w) handler block" where
  "onInitComplete ec h =
     (if ec \<noteq> 0 then (Ret 0, closeSession ec h)
      else if h_stream h = None then (Raise Null_deref, h)
      else (Next, schedule Read_header h))"

definition start :: "'w stream_in \<Rightarrow> 'w \<Rightarrow> bool \<Rightarrow> ('j, 'w) handler \<Rightarrow> ('j, 'w) handler" where
  "start I stream completionCb h =
     schedule Init_stream (h\<lparr>h_remoteHost := si_remoteHost I stream, h_stream := Some stream,
       h_completionCb := completionCb\<rparr>)"

definition startWithSyncInit :: "'w stream_in \<Rightarrow> 'w \<Rightarrow> bool \<Rightarrow> ('j, 'w) handler block" where
  "startWithSyncInit I stream completionCb h =
     (case si_init I stream of
        (ec, stream') \<Rightarrow>
          onInitComplete ec (h\<lparr>h_completionCb := completionCb, h_stream := Some stream'\<rparr>))"


text \<open>
  Subscribing goes through a controller; a \<open>std::runtime_error\<close> of its constructor or of the
  post is caught and logged. \<open>counter\<close> is the controller's static request counter \<open>s_id\<close>.
\<close>

definition handler_command ::
  "('j json_lib \<Rightarrow> controller \<Rightarrow> signal_ids \<Rightarrow> u32 \<Rightarrow> command_outcome \<times> u32) \<Rightarrow>
     'j json_lib \<Rightarrow> signal_ids \<Rightarrow> ('j, 'w) handler \<Rightarrow> u32 \<Rightarrow> command_outcome option \<times> u32" where
  "handler_command cmd J signalIds h counter =
     (if h_stream h = None then (None, counter)
      else (case Controller_init (sm_streamId (h_streamMeta h)) (h_remoteHost h)
               (sm_httpControlPort (h_streamMeta h)) (sm_httpControlPath (h_streamMeta h))
               (sm_httpVersion (h_streamMeta h)) of
         Inl e \<Rightarrow> (None, counter)
       | Inr ct \<Rightarrow>
           (case cmd J ct signalIds counter of
              (Failed e, counter') \<Rightarrow> (None, counter')
            | (outcome, counter') \<Rightarrow> (Some outcome, counter'))))"

definition subscribe ::
  "'j json_lib \<Rightarrow> signal_ids \<Rightarrow> ('j, 'w) handler \<Rightarrow> u32 \<Rightarrow> command_outcome option \<times> u32" where
  "subscribe = handler_command asyncSubscribe"

definition unsubscribe ::
  "'j json_lib \<Rightarrow> signal_ids \<Rightarrow> ('j, 'w) handler \<Rightarrow> u32 \<Rightarrow> command_outcome option \<times> u32" where
  "unsubscribe = handler_command asyncUnsubscribe"

subsection \<open>Completions\<close>

text \<open>\<open>m_stream->copyDataAndConsume\<close> of a 32 bit integer.\<close>

definition take_u32 :: "'w stream_in \<Rightarrow> 'w \<Rightarrow> u32 \<times> 'w" where
  "take_u32 I w = (of_le (take 4 (si_data I w)), si_consume I 4 w)"

definition onHeader :: "'w stream_in \<Rightarrow> error_code \<Rightarrow> ('j, 'w) handler block" where
  "onHeader I ec h =
     (if ec \<noteq> 0 then (Ret 0, closeSession ec h)
      else (case h_stream h of
         None \<Rightarrow> (Raise Null_deref, h)
       | Some w \<Rightarrow>
           let (header, w') = take_u32 I w;
               h1 = h\<lparr>h_stream := Some w', h_header := header,
                      h_signalNumber := header_signalNumber header,
                      h_type := header_type header, h_length := header_length header\<rparr>
           in if h_length h1 = 0 then (Next, schedule Read_length h1)
              else (Next, schedule (Read_payload (h_length h1)) h1)))"

definition onAdditionalLength :: "'w stream_in \<Rightarrow> error_code \<Rightarrow> ('j, 'w) handler block" where
  "onAdditionalLength I ec h =
     (if ec \<noteq> 0 then (Ret 0, closeSession ec h)
      else (case h_stream h of
         None \<Rightarrow> (Raise Null_deref, h)
       | Some w \<Rightarrow>
           let (len, w') = take_u32 I w;
               h1 = h\<lparr>h_stream := Some w', h_length := len\<rparr>
           in (Next, schedule (Read_payload (h_length h1)) h1)))"

text \<open>A result of -1 for measured data is logged only.\<close>

definition payload_data :: "byte list \<Rightarrow> ('j, 'w) handler block" where
  "payload_data dat h =
     (case container_processMeasuredData (h_signalNumber h) dat (h_container h) of
        (Inl e, c) \<Rightarrow> (Raise e, h\<lparr>h_container := c\<rparr>)
      | (Inr k, c) \<Rightarrow> (Next, h\<lparr>h_container := c\<rparr>))"

definition payload_streamMeta :: "'j json_lib \<Rightarrow> ('j, 'w) handler block" where
  "payload_streamMeta J h =
     (case StreamMeta_process J (h_metaInformation h) (h_streamMeta h) of
        (Raise e, sm) \<Rightarrow> (Raise e, h\<lparr>h_streamMeta := sm\<rparr>)
      | (fl, sm) \<Rightarrow>
          let h1 = h\<lparr>h_streamMeta := sm\<rparr>
          in if (case fl of Ret k \<Rightarrow> k < 0 | _ \<Rightarrow> False) then (Ret 0, closeSession protocol_error h1)
             else if mi_type (h_metaInformation h1) \<noteq> METAINFORMATION_MSGPACK
             then (Ret 0, closeSession protocol_error h1)
             else (case meta_method J (h_metaInformation h1) of
                Inl e \<Rightarrow> (Raise e, h1)
              | Inr method \<Rightarrow>
                  (Next, h1\<lparr>h_calls := h_calls h1 @
                     [StreamMeta_call method (meta_params J (h_metaInformation h1))]\<rparr>)))"

definition payload_signalMeta :: "'j json_lib \<Rightarrow> ('j, 'w) handler block" where
  "payload_signalMeta J h =
     (case container_processMetaInformation J (h_signalNumber h) (h_metaInformation h) (h_container h) of
        (Inl e, c) \<Rightarrow> (Raise e, h\<lparr>h_container := c\<rparr>)
      | (Inr k, c) \<Rightarrow>
          if k < 0 then (Ret 0, closeSession protocol_error (h\<lparr>h_container := c\<rparr>))
          else (Next, h\<lparr>h_container := c\<rparr>))"

definition payload_meta :: "'j json_lib \<Rightarrow> byte list \<Rightarrow> ('j, 'w) handler block" where
  "payload_meta J dat h =
     (case interpret_meta J dat (h_metaInformation h) of
        (Raise e, m) \<Rightarrow> (Raise e, h\<lparr>h_metaInformation := m\<rparr>)
      | (fl, m) \<Rightarrow>
          let h1 = h\<lparr>h_metaInformation := m\<rparr>
          in if fl \<noteq> Ret 0 then (Ret 0, closeSession protocol_error h1)
             else if h_signalNumber h1 = 0 then payload_streamMeta J h1
             else payload_signalMeta J h1)"

text \<open>The switch over the transport type; \<open>Next\<close> is the \<open>break\<close>.\<close>

definition process_payload :: "'j json_lib \<Rightarrow> byte list \<Rightarrow> ('j, 'w) handler block" where
  "process_payload J dat h =
     (if h_type h = transport_code TYPE_SIGNALDATA then payload_data dat h
      else if h_type h = transport_code TYPE_METAINFORMATION then payload_meta J dat h
      else (Ret 0, closeSession protocol_error h))"

definition onPayload :: "'j json_lib \<Rightarrow> 'w stream_in \<Rightarrow> error_code \<Rightarrow> ('j, 'w) handler block" where
  "onPayload J I ec h =
     (if ec \<noteq> 0 then (Ret 0, closeSession ec h)
      else (case h_stream h of
         None \<Rightarrow> (Raise Null_deref, h)
       | Some w \<Rightarrow> run_blocks [
           process_payload J (take (unat (h_length h)) (si_data I w)),
           (\<lambda>h. (Next, schedule Read_header
                         (h\<lparr>h_stream := Some (si_consume I (unat (h_length h)) w)\<rparr>)))] h))"

definition onClose :: "error_code \<Rightarrow> ('j, 'w) handler block" where
  "onClose ec h =
     (let h1 = h\<lparr>h_stream := None\<rparr>
      in (Next, if h_completionCb h1
                then h1\<lparr>h_calls := h_calls h1 @ [Completion_call (h_sessionEc h1)]\<rparr> else h1))"

section \<open>Completions and arrivals\<close>

text \<open>The handler of an operation, called when the operation is no longer outstanding.\<close>

definition complete ::
  "'j json_lib \<Rightarrow> 'w stream_in \<Rightarrow> pending \<Rightarrow> error_code \<Rightarrow> ('j, 'w) handler block" where
  "complete J I op ec h =
     (let h1 = h\<lparr>h_pending := remove1 op (h_pending h)\<rparr>
      in (case op of
            Init_stream \<Rightarrow> onInitComplete ec h1
          | Read_header \<Rightarrow> onHeader I ec h1
          | Read_length \<Rightarrow> onAdditionalLength I ec h1
          | Read_payload n \<Rightarrow> onPayload J I ec h1
          | Close_stream \<Rightarrow> onClose ec h1))"

fun needed :: "pending \<Rightarrow> nat" where
  "needed Read_header = 4"
| "needed Read_length = 4"
| "needed (Read_payload n) = unat n"
| "needed _ = 0"

definition receive :: "'w stream_in \<Rightarrow> byte list \<Rightarrow> ('j, 'w) handler \<Rightarrow> ('j, 'w) handler" where
  "receive I bs h = h\<lparr>h_stream := map_option (si_receive I bs) (h_stream h)\<rparr>"

text \<open>A read that completes without an error, and a run: chunks arrive, reads complete.\<close>

inductive completes :: "'j json_lib \<Rightarrow> 'w stream_in \<Rightarrow> ('j, 'w) handler \<Rightarrow> ('j, 'w) handler \<Rightarrow> bool"
  for J I where
  completesI: "h_pending h = [op] \<Longrightarrow> op \<in> {Read_header, Read_length} \<or> (\<exists>n. op = Read_payload n) \<Longrightarrow>
    h_stream h = Some w \<Longrightarrow> needed op \<le> length (si_data I w) \<Longrightarrow>
    complete J I op 0 h = (fl, h') \<Longrightarrow> completes J I h h'"

inductive_cases completesE: "completes J I h h'"

inductive runs :: "'j json_lib \<Rightarrow> 'w stream_in \<Rightarrow> byte list \<Rightarrow> ('j, 'w) handler \<Rightarrow> ('j, 'w) handler \<Rightarrow> bool"
  for J I where
  idle: "runs J I [] h h"
| arrives: "runs J I bs (receive I chunk h) h' \<Longrightarrow> runs J I (chunk @ bs) h h'"
| reacts: "completes J I h h1 \<Longrightarrow> runs J I bs h1 h' \<Longrightarrow> runs J I bs h h'"

section \<open>Delivery of messages\<close>

text \<open>
  The specification: what a message does to the state that applications see (the container,
  the stream's meta information, the calls of the stream callback). \<open>None\<close> is a message that
  ends the session or raises an exception.
\<close>

record 'j consumer =
  k_container :: "'j container"
  k_streamMeta :: stream_meta
  k_calls :: "'j session_call list"

definition view :: "('j, 'w) handler \<Rightarrow> 'j consumer" where
  "view h = \<lparr>k_container = h_container h, k_streamMeta = h_streamMeta h, k_calls = h_calls h\<rparr>"

definition deliver_data :: "u32 \<Rightarrow> byte list \<Rightarrow> 'j consumer \<Rightarrow> 'j consumer option" where
  "deliver_data n d k =
     (case container_processMeasuredData n d (k_container k) of
        (Inl e, c) \<Rightarrow> None
      | (Inr i, c) \<Rightarrow> Some (k\<lparr>k_container := c\<rparr>))"

definition deliver_meta :: "'j json_lib \<Rightarrow> u32 \<Rightarrow> 'j \<Rightarrow> 'j consumer \<Rightarrow> 'j consumer option" where
  "deliver_meta J n j k =
     (let m = \<lparr>mi_type = METAINFORMATION_MSGPACK, mi_content = j\<rparr>
      in if n = 0 then
           (case (StreamMeta_process J m (k_streamMeta k), meta_method J m) of
              ((Ret i, sm), Inr method) \<Rightarrow>
                if i < 0 then None
                else Some (k\<lparr>k_streamMeta := sm,
                            k_calls := k_calls k @ [StreamMeta_call method (meta_params J m)]\<rparr>)
            | _ \<Rightarrow> None)
         else
           (case container_processMetaInformation J n m (k_container k) of
              (Inl e, c) \<Rightarrow> None
            | (Inr i, c) \<Rightarrow> if i < 0 then None else Some (k\<lparr>k_container := c\<rparr>)))"

fun deliver_message :: "'j json_lib \<Rightarrow> 'j message \<Rightarrow> 'j consumer \<Rightarrow> 'j consumer option" where
  "deliver_message J (Data n d) k = deliver_data n d k"
| "deliver_message J (Meta n j) k = deliver_meta J n j k"

fun deliver_all :: "'j json_lib \<Rightarrow> 'j message list \<Rightarrow> 'j consumer \<Rightarrow> 'j consumer option" where
  "deliver_all J [] k = Some k"
| "deliver_all J (m # ms) k =
     (case deliver_message J m k of None \<Rightarrow> None | Some k' \<Rightarrow> deliver_all J ms k')"

subsection \<open>One block\<close>

lemma StreamMeta_process_not_next: "StreamMeta_process J m s \<noteq> (Next, s')"
  by (auto simp: StreamMeta_process_def try_catch_def Let_def split: sum.splits prod.splits flow.splits if_splits)

text \<open>The handler on the payload of a message does what the specification says.\<close>

lemma process_payload_delivers:
  assumes J: "json_laws J" and "h_type h = transport_code (message_type m)"
    and "h_signalNumber h = message_number m" and "deliver_message J m (view h) = Some k"
  shows "\<exists>h'. process_payload J (message_payload J m) h = (Next, h') \<and> view h' = k \<and>
    h_stream h' = h_stream h \<and> h_pending h' = h_pending h \<and> h_length h' = h_length h"
proof (cases m)
  case (Data n d)
  then show ?thesis
    using assms(2-4)
    by (auto simp: process_payload_def payload_data_def deliver_data_def view_def split: prod.splits sum.splits)
next
  case (Meta n j)
  have code: "transport_code TYPE_METAINFORMATION \<noteq> transport_code TYPE_SIGNALDATA"
    by (simp add: transport_code_def)
  let ?m = "\<lparr>mi_type = METAINFORMATION_MSGPACK, mi_content = j\<rparr>"
  have m: "(h_metaInformation h)\<lparr>mi_type := METAINFORMATION_MSGPACK, mi_content := j\<rparr> = ?m" by simp
  have decoded: "interpret_meta J (message_payload J m) (h_metaInformation h) = (Ret 0, ?m)"
    using interpret_meta_msgpack [OF J, of n j "h_metaInformation h"] unfolding Meta m .
  show ?thesis
  proof (cases "n = 0")
    case True
    with assms(4) obtain i sm meth where p: "StreamMeta_process J ?m (h_streamMeta h) = (Ret i, sm)"
      "meta_method J ?m = Inr meth" "\<not> i < 0"
      "k = (view h)\<lparr>k_streamMeta := sm, k_calls := h_calls h @ [StreamMeta_call meth (meta_params J ?m)]\<rparr>"
      by (auto simp: Meta deliver_meta_def view_def Let_def split: prod.splits flow.splits sum.splits if_splits)
    then show ?thesis
      using assms(2,3) True code decoded
      by (simp add: process_payload_def payload_meta_def payload_streamMeta_def Meta view_def)
  next
    case False
    with assms(4) obtain i c where p: "container_processMetaInformation J n ?m (h_container h) = (Inr i, c)"
      "\<not> i < 0" "k = (view h)\<lparr>k_container := c\<rparr>"
      by (auto simp: Meta deliver_meta_def view_def Let_def split: prod.splits sum.splits if_splits)
    then show ?thesis
      using assms(2,3) False code decoded
      by (simp add: process_payload_def payload_meta_def payload_signalMeta_def Meta view_def)
  qed
qed

definition at_header :: "'w stream_in \<Rightarrow> byte list \<Rightarrow> ('j, 'w) handler \<Rightarrow> bool" where
  "at_header I bs h \<longleftrightarrow> h_pending h = [Read_header] \<and> (\<exists>w. h_stream h = Some w \<and> si_data I w = bs)"

definition at_payload :: "'w stream_in \<Rightarrow> 'j message \<Rightarrow> 'j json_lib \<Rightarrow> byte list \<Rightarrow> ('j, 'w) handler \<Rightarrow> bool" where
  "at_payload I m J bs h \<longleftrightarrow>
     (\<exists>w n. h_pending h = [Read_payload n] \<and> h_length h = n \<and> unat n = length (message_payload J m) \<and>
        h_stream h = Some w \<and> si_data I w = message_payload J m @ bs \<and>
        h_type h = transport_code (message_type m) \<and> h_signalNumber h = message_number m)"

lemma payload_step:
  assumes J: "json_laws J" and I: "reads I" and "at_payload I m J bs h" and "deliver_message J m (view h) = Some k"
  shows "\<exists>h'. completes J I h h' \<and> at_header I bs h' \<and> view h' = k"
proof -
  from assms(3) obtain w n where h: "h_pending h = [Read_payload n]" "h_length h = n"
    "unat n = length (message_payload J m)" "h_stream h = Some w" "si_data I w = message_payload J m @ bs"
    "h_type h = transport_code (message_type m)" "h_signalNumber h = message_number m"
    by (auto simp: at_payload_def)
  let ?h = "h\<lparr>h_pending := []\<rparr>"
  have "deliver_message J m (view ?h) = Some k" using assms(4) by (simp add: view_def)
  from process_payload_delivers [OF J _ _ this] h(6,7) obtain h1 where h1:
    "process_payload J (message_payload J m) ?h = (Next, h1)" "view h1 = k"
    "h_pending h1 = []" "h_length h1 = n" using h(2) by auto
  have w: "si_data I (si_consume I (unat n) w) = bs"
    using I h(3,5) by (simp add: reads_def)
  let ?h' = "schedule Read_header (h1\<lparr>h_stream := Some (si_consume I (unat n) w)\<rparr>)"
  have "complete J I (Read_payload n) 0 h = (Next, ?h')"
    using h h1 by (simp add: complete_def onPayload_def)
  then have "completes J I h ?h'"
    using h by (intro completesI [where op = "Read_payload n" and w = w]) auto
  moreover have "at_header I bs ?h'" using h1(3) w by (simp add: at_header_def schedule_def)
  moreover have "view ?h' = k" using h1(2) by (simp add: view_def schedule_def)
  ultimately show ?thesis by blast
qed

lemma take_u32_le:
  assumes "reads I" and "si_data I w = le_bytes 4 (x :: u32) @ bs"
  shows "take_u32 I w = (x, si_consume I 4 w)" and "si_data I (si_consume I 4 w) = bs"
  using assms by (simp_all add: take_u32_def reads_def)

lemma header_step:
  assumes I: "reads I" and "at_header I (le_bytes 4 x @ bs) h"
  shows "\<exists>h' w. completes J I h h' \<and> h_stream h' = Some w \<and> si_data I w = bs \<and> view h' = view h \<and>
    h_signalNumber h' = header_signalNumber x \<and> h_type h' = header_type x \<and> h_length h' = header_length x \<and>
    h_pending h' = [if header_length x = 0 then Read_length else Read_payload (header_length x)]"
proof -
  from assms(2) obtain w where h: "h_pending h = [Read_header]" "h_stream h = Some w" "si_data I w = le_bytes 4 x @ bs"
    by (auto simp: at_header_def)
  note t = take_u32_le [OF I h(3)]
  define op where "op = (if header_length x = 0 then Read_length else Read_payload (header_length x))"
  define h' where "h' = schedule op (h\<lparr>h_pending := [], h_stream := Some (si_consume I 4 w), h_header := x,
     h_signalNumber := header_signalNumber x, h_type := header_type x, h_length := header_length x\<rparr>)"
  have "complete J I Read_header 0 h = (Next, h')"
    using h t(1) by (simp add: complete_def onHeader_def h'_def op_def)
  then have "completes J I h h'"
    using h by (intro completesI [where op = Read_header and w = w]) auto
  moreover have "h_stream h' = Some (si_consume I 4 w)" "view h' = view h"
    "h_signalNumber h' = header_signalNumber x" "h_type h' = header_type x" "h_length h' = header_length x"
    "h_pending h' = [op]"
    by (simp_all add: h'_def schedule_def view_def)
  ultimately show ?thesis using t(2) unfolding op_def by blast
qed

lemma length_step:
  assumes I: "reads I" and "h_pending h = [Read_length]" and "h_stream h = Some w" and "si_data I w = le_bytes 4 x @ bs"
  shows "\<exists>h' w'. completes J I h h' \<and> h_stream h' = Some w' \<and> si_data I w' = bs \<and> view h' = view h \<and>
    h_signalNumber h' = h_signalNumber h \<and> h_type h' = h_type h \<and> h_length h' = x \<and>
    h_pending h' = [Read_payload x]"
proof -
  note t = take_u32_le [OF I assms(4)]
  obtain h' where h': "complete J I Read_length 0 h = (Next, h')" "h_stream h' = Some (si_consume I 4 w)" "view h' = view h"
    "h_signalNumber h' = h_signalNumber h" "h_type h' = h_type h" "h_length h' = x" "h_pending h' = [Read_payload x]"
    using assms(2,3) t(1) by (auto simp: complete_def onAdditionalLength_def schedule_def view_def Let_def)
  have "completes J I h h'"
    using assms h'(1) by (intro completesI [where op = Read_length and w = w]) auto
  with h' t(2) show ?thesis by blast
qed

text \<open>Header and, for long payloads, length field lead to the payload of the message.\<close>

lemma block_header:
  assumes J: "json_laws J" and I: "reads I" and m: "sendable J m" and h: "at_header I (message_bytes J m @ bs) h"
  shows "\<exists>h'. (completes J I)\<^sup>*\<^sup>* h h' \<and> at_payload I m J bs h' \<and> view h' = view h"
proof -
  let ?p = "message_payload J m" and ?n = "message_number m" and ?t = "message_type m"
  let ?sz = "word_of_nat (length ?p) :: u64"
  have n: "valid_number ?n" and p: "?p \<noteq> []" "length ?p < 2 ^ 32" using m by (auto simp: sendable_def)
  have bytes: "message_bytes J m @ bs = concat (map (le_bytes 4) (createTransportHeader ?t ?n ?sz)) @ ?p @ bs"
    by (simp add: message_bytes_def block_bytes_def header_bytes_def)
  have sz: "unat ?sz = length ?p" "unat (ucast ?sz :: u32) = length ?p"
    using p(2) by (simp_all add: unsigned_of_nat unsigned_ucast_eq take_bit_nat_eq_self)
  show ?thesis
  proof (cases "?sz \<le> 0xff")
    case True
    from createTransportHeader_short [OF n True, of ?t] obtain x where x: "createTransportHeader ?t ?n ?sz = [x]"
      "header_signalNumber x = ?n" "header_type x = transport_code ?t" "header_length x = ucast ?sz" .
    have "at_header I (le_bytes 4 x @ ?p @ bs) h" using h bytes x(1) by simp
    from header_step [OF I this, of J] obtain h' w where h': "completes J I h h'" "h_stream h' = Some w"
      "si_data I w = ?p @ bs" "view h' = view h" "h_signalNumber h' = ?n" "h_type h' = transport_code ?t"
      "h_length h' = ucast ?sz" "h_pending h' = [if (ucast ?sz :: u32) = 0 then Read_length else Read_payload (ucast ?sz)]"
      by (auto simp: x)
    have "(ucast ?sz :: u32) \<noteq> 0" using sz(2) p(1) by (metis length_0_conv unsigned_0)
    then have "at_payload I m J bs h'" using h' sz(2) by (simp add: at_payload_def)
    with h' show ?thesis by blast
  next
    case False
    from createTransportHeader_long [OF n False, of ?t] obtain x where x:
      "createTransportHeader ?t ?n ?sz = [x, ucast ?sz]"
      "header_signalNumber x = ?n" "header_type x = transport_code ?t" "header_length x = 0" .
    have "at_header I (le_bytes 4 x @ le_bytes 4 (ucast ?sz :: u32) @ ?p @ bs) h" using h bytes x(1) by simp
    from header_step [OF I this, of J] obtain h1 w1 where h1: "completes J I h h1" "h_stream h1 = Some w1"
      "si_data I w1 = le_bytes 4 (ucast ?sz :: u32) @ ?p @ bs" "view h1 = view h" "h_signalNumber h1 = ?n"
      "h_type h1 = transport_code ?t" "h_pending h1 = [Read_length]"
      by (auto simp: x)
    from length_step [OF I h1(7,2,3), of J] obtain h' w where h': "completes J I h1 h'" "h_stream h' = Some w"
      "si_data I w = ?p @ bs" "view h' = view h1" "h_signalNumber h' = ?n" "h_type h' = transport_code ?t"
      "h_length h' = ucast ?sz" "h_pending h' = [Read_payload (ucast ?sz)]"
      using h1 by auto
    then have "at_payload I m J bs h'" using sz(2) by (simp add: at_payload_def)
    moreover have "(completes J I)\<^sup>*\<^sup>* h h'" using h1(1) h'(1) by (meson converse_rtranclp_into_rtranclp rtranclp.rtrancl_refl)
    ultimately show ?thesis using h'(4) h1(4) by auto
  qed
qed

lemma messages_delivered:
  assumes J: "json_laws J" and I: "reads I" and "\<forall>m \<in> set ms. sendable J m"
    and "at_header I (concat (map (message_bytes J) ms) @ bs) h" and "deliver_all J ms (view h) = Some k"
  shows "\<exists>h'. (completes J I)\<^sup>*\<^sup>* h h' \<and> at_header I bs h' \<and> view h' = k"
  using assms(3-5)
proof (induction ms arbitrary: h)
  case (Cons m ms)
  let ?rest = "concat (map (message_bytes J) ms) @ bs"
  have m: "sendable J m" and head: "at_header I (message_bytes J m @ ?rest) h" using Cons.prems by simp_all
  from Cons.prems(3) obtain k1 where k1: "deliver_message J m (view h) = Some k1" "deliver_all J ms k1 = Some k"
    by (auto split: option.splits)
  from block_header [OF J I m head] obtain h1 where h1: "(completes J I)\<^sup>*\<^sup>* h h1"
    "at_payload I m J ?rest h1" "view h1 = view h" by blast
  have "deliver_message J m (view h1) = Some k1" using k1(1) h1(3) by simp
  from payload_step [OF J I h1(2) this] obtain h2 where h2: "completes J I h1 h2"
    "at_header I ?rest h2" "view h2 = k1" by blast
  have "\<forall>m \<in> set ms. sendable J m" "deliver_all J ms (view h2) = Some k"
    using Cons.prems(1) h2(3) k1(2) by simp_all
  from Cons.IH [OF this(1) h2(2) this(2)] obtain h3 where h3:
    "(completes J I)\<^sup>*\<^sup>* h2 h3" "at_header I bs h3" "view h3 = k" by blast
  have "(completes J I)\<^sup>*\<^sup>* h h3"
    using h1(1) h2(1) h3(1) by (meson rtranclp.rtrancl_into_rtrancl rtranclp_trans)
  with h3 show ?case by blast
next
  case Nil
  then show ?case by (intro exI [of _ h]) simp
qed

subsection \<open>The order of arrivals and completions\<close>

lemma completes_unique: "completes J I h h1 \<Longrightarrow> completes J I h h2 \<Longrightarrow> h1 = h2"
  by (auto elim!: completesE)

text \<open>A completed read sees the front of the buffer only: it commutes with an arrival.\<close>

lemma receive_sel [simp]:
  "h_pending (receive I bs h) = h_pending h" "h_type (receive I bs h) = h_type h"
  "h_length (receive I bs h) = h_length h" "h_signalNumber (receive I bs h) = h_signalNumber h"
  "h_container (receive I bs h) = h_container h" "h_streamMeta (receive I bs h) = h_streamMeta h"
  "h_metaInformation (receive I bs h) = h_metaInformation h" "h_calls (receive I bs h) = h_calls h"
  "h_stream (receive I bs h) = map_option (si_receive I bs) (h_stream h)"
  by (simp_all add: receive_def)

lemma receive_closeSession: "closeSession ec (receive I bs h) = receive I bs (closeSession ec h)"
  by (cases h) (auto simp: closeSession_def schedule_def receive_def Let_def)

lemma process_payload_receive:
  "process_payload J dat (receive I bs h) =
     (case process_payload J dat h of (fl, h') \<Rightarrow> (fl, receive I bs h'))"
proof -
  have upd: "(receive I bs h)\<lparr>h_container := c\<rparr> = receive I bs (h\<lparr>h_container := c\<rparr>)"
    "(receive I bs h)\<lparr>h_streamMeta := sm\<rparr> = receive I bs (h\<lparr>h_streamMeta := sm\<rparr>)"
    "(receive I bs h)\<lparr>h_metaInformation := m\<rparr> = receive I bs (h\<lparr>h_metaInformation := m\<rparr>)"
    "(receive I bs h)\<lparr>h_calls := x\<rparr> = receive I bs (h\<lparr>h_calls := x\<rparr>)"
    for h :: "('a, 'b) handler" and c sm m x
    by (simp_all add: receive_def)
  have data: "payload_data dat (receive I bs h) = (case payload_data dat h of (fl, h') \<Rightarrow> (fl, receive I bs h'))"
    by (simp add: payload_data_def upd split: prod.splits sum.splits)
  have stream: "payload_streamMeta J (receive I bs h) = (case payload_streamMeta J h of (fl, h') \<Rightarrow> (fl, receive I bs h'))"
    for h :: "('a, 'b) handler"
    by (simp add: payload_streamMeta_def upd receive_closeSession Let_def split: prod.splits sum.splits flow.splits)
  have signal: "payload_signalMeta J (receive I bs h) = (case payload_signalMeta J h of (fl, h') \<Rightarrow> (fl, receive I bs h'))"
    for h :: "('a, 'b) handler"
    by (simp add: payload_signalMeta_def upd receive_closeSession split: prod.splits sum.splits)
  have meta: "payload_meta J dat (receive I bs h) = (case payload_meta J dat h of (fl, h') \<Rightarrow> (fl, receive I bs h'))"
    by (simp add: payload_meta_def upd receive_closeSession stream signal Let_def split: prod.splits flow.splits)
  show ?thesis
    by (simp add: process_payload_def data meta receive_closeSession)
qed

lemma receive_append: "reads I \<Longrightarrow> receive I (bs @ bs') h = receive I bs' (receive I bs h)"
  by (cases h) (auto simp: receive_def reads_def option.map_comp comp_def)

lemma receive_nothing: "reads I \<Longrightarrow> receive I [] h = h"
  by (cases h; cases "h_stream h") (simp_all add: receive_def reads_def)

lemma complete_receive:
  fixes h :: "('j, 'w) handler"
  assumes I: "reads I" and "op \<in> {Read_header, Read_length} \<or> (\<exists>n. op = Read_payload n)"
    and "h_stream h = Some w" and "needed op \<le> length (si_data I w)"
    and "\<And>n. op = Read_payload n \<Longrightarrow> h_length h = n"
  shows "complete J I op 0 (receive I bs h) = (case complete J I op 0 h of (fl, h') \<Rightarrow> (fl, receive I bs h'))"
proof -
  have I': "si_data I (si_receive I bs w) = si_data I w @ bs"
    "n \<le> length (si_data I w) \<Longrightarrow> si_consume I n (si_receive I bs w) = si_receive I bs (si_consume I n w)" for n
    using I by (simp_all add: reads_def)
  have word: "take_u32 I (si_receive I bs w) = (fst (take_u32 I w), si_receive I bs (snd (take_u32 I w)))"
    if "4 \<le> length (si_data I w)"
    using that I' by (simp add: take_u32_def)
  consider "op = Read_header" | "op = Read_length" | n where "op = Read_payload n" using assms(2) by blast
  then show ?thesis
  proof cases
    case 1
    then show ?thesis
      using assms(3,4) word
      by (cases h) (simp add: complete_def onHeader_def schedule_def receive_def Let_def case_prod_beta)
  next
    case 2
    then show ?thesis
      using assms(3,4) word
      by (cases h) (simp add: complete_def onAdditionalLength_def schedule_def receive_def Let_def case_prod_beta)
  next
    case 3
    let ?h = "h\<lparr>h_pending := remove1 op (h_pending h)\<rparr>" and ?d = "take (unat n) (si_data I w)"
    have pending: "(receive I bs h)\<lparr>h_pending := x\<rparr> = receive I bs (h\<lparr>h_pending := x\<rparr>)" for x
      by (simp add: receive_def)
    have n: "h_length h = n" "unat n \<le> length (si_data I w)" using assms(4,5) 3 by simp_all
    have consume: "schedule Read_header ((receive I bs h')\<lparr>h_stream := Some (si_consume I m (si_receive I bs w))\<rparr>) =
        receive I bs (schedule Read_header (h'\<lparr>h_stream := Some (si_consume I m w)\<rparr>))"
      if "m \<le> length (si_data I w)" for h' :: "('j, 'w) handler" and m
      using I'(2) [OF that] by (simp add: schedule_def receive_def)
    have kept: "h_length h' = n" if "process_payload J ?d ?h = (Next, h')" for h'
      using that n(1)
      by (auto simp: process_payload_def payload_data_def payload_meta_def payload_streamMeta_def
          payload_signalMeta_def Let_def split: if_splits prod.splits sum.splits flow.splits)
    show ?thesis
      using assms(3) 3 n I'(1) kept consume process_payload_receive [of J ?d I bs ?h]
      by (auto simp: complete_def onPayload_def pending split: prod.splits flow.splits)
  qed
qed

text \<open>The length of an outstanding read of a payload is the one in the handler.\<close>

definition length_known :: "('j, 'w) handler \<Rightarrow> bool" where
  "length_known h \<longleftrightarrow> (\<forall>n. Read_payload n \<in> set (h_pending h) \<longrightarrow> h_length h = n)"

lemma closeSession_pending [simp]:
  "h_pending (closeSession ec h) = (if h_stream h = None then h_pending h else h_pending h @ [Close_stream])"
  by (simp add: closeSession_def schedule_def Let_def)

definition may_close :: "('j, 'w) handler block \<Rightarrow> bool" where
  "may_close b \<longleftrightarrow> (\<forall>h. h_pending (snd (b h)) = h_pending h \<or> h_pending (snd (b h)) = h_pending h @ [Close_stream])"

lemma may_close_payload: "may_close (process_payload J dat)"
proof -
  have "may_close (payload_data dat :: ('a, 'b) handler block)"
    by (simp add: may_close_def payload_data_def split: prod.split sum.split)
  moreover have stream: "may_close (payload_streamMeta J :: ('a, 'b) handler block)"
    by (simp add: may_close_def payload_streamMeta_def Let_def split: prod.split sum.split flow.split)
  moreover have signal: "may_close (payload_signalMeta J :: ('a, 'b) handler block)"
    by (simp add: may_close_def payload_signalMeta_def split: prod.split sum.split)
  moreover have "may_close (payload_meta J dat :: ('a, 'b) handler block)"
    using stream signal unfolding may_close_def
    by (simp add: payload_meta_def Let_def split: prod.split flow.split) (metis handler.select_convs(12) handler.surjective handler.update_convs(10))
  ultimately show ?thesis
    by (simp add: may_close_def process_payload_def)
qed

lemma completes_length_known:
  assumes "completes J I h h'"
  shows "length_known h'"
proof -
  from assms obtain op w fl where h: "h_pending h = [op]" "h_stream h = Some w" "complete J I op 0 h = (fl, h')"
    and op: "op \<in> {Read_header, Read_length} \<or> (\<exists>n. op = Read_payload n)"
    by (elim completesE) blast
  from op consider "op = Read_header" | "op = Read_length" | n where "op = Read_payload n" by blast
  then show "length_known h'"
  proof cases
    case 3
    let ?h = "h\<lparr>h_pending := []\<rparr>"
    have "h_pending (snd (process_payload J dat ?h)) \<in> {[], [Close_stream]}" for dat
      using may_close_payload [of J dat] unfolding may_close_def by (metis append_Nil handler.select_convs(12) handler.surjective handler.update_convs(12) insertCI)
    then have pending: "h_pending h1 = [] \<or> h_pending h1 = [Close_stream]"
      if "process_payload J dat ?h = (fl1, h1)" for dat fl1 h1
      using that by (metis empty_iff insert_iff snd_conv)
    show ?thesis
      using h 3
      by (auto simp: complete_def onPayload_def length_known_def schedule_def split: prod.splits flow.splits
          dest!: pending)
  qed (use h in \<open>auto simp: complete_def onHeader_def onAdditionalLength_def length_known_def schedule_def
      Let_def case_prod_beta split: if_splits\<close>)
qed

lemma completes_receive:
  assumes I: "reads I" and "completes J I h h'" and "length_known h"
  shows "completes J I (receive I bs h) (receive I bs h')"
proof -
  from assms(2) obtain op w fl where h: "h_pending h = [op]" "h_stream h = Some w"
    "needed op \<le> length (si_data I w)" "complete J I op 0 h = (fl, h')"
    and op: "op \<in> {Read_header, Read_length} \<or> (\<exists>n. op = Read_payload n)"
    by (elim completesE) blast
  have "complete J I op 0 (receive I bs h) = (fl, receive I bs h')"
    using complete_receive [OF I op h(2,3)] assms(3) h(1,4) by (auto simp: length_known_def)
  moreover have "needed op \<le> length (si_data I (si_receive I bs w))" using I h(3) by (simp add: reads_def)
  ultimately show ?thesis
    using h op by (intro completesI [where op = op and w = "si_receive I bs w"]) simp_all
qed

lemma completes_star_receive:
  assumes "reads I" and "(completes J I)\<^sup>*\<^sup>* h h'" and "length_known h"
  shows "(completes J I)\<^sup>*\<^sup>* (receive I bs h) (receive I bs h')"
  using assms(2,3)
proof (induction rule: converse_rtranclp_induct)
  case (step h h1)
  then show ?case
    using completes_receive [OF assms(1) step.hyps(1)] completes_length_known by (meson converse_rtranclp_into_rtranclp)
qed simp

text \<open>Any run ends where a run ends in which everything has arrived at the start.\<close>

lemma runs_normal:
  assumes I: "reads I" and "runs J I bs h h'" and "length_known h"
  shows "(completes J I)\<^sup>*\<^sup>* (receive I bs h) h'"
  using assms(2,3)
proof (induction rule: runs.induct)
  case (idle h)
  then show ?case by (simp add: receive_nothing [OF I])
next
  case (arrives bs chunk h h')
  then show ?case by (simp add: receive_append [OF I] length_known_def)
next
  case (reacts h h1 bs h')
  then show ?case
    using completes_receive [OF I reacts.hyps(1)] completes_length_known by (meson converse_rtranclp_into_rtranclp)
qed

lemma deterministic_normal_form:
  assumes "\<And>x y z. R x y \<Longrightarrow> R x z \<Longrightarrow> y = z" and "R\<^sup>*\<^sup>* x y" and "R\<^sup>*\<^sup>* x z" and "\<nexists>y'. R y y'" and "\<nexists>z'. R z z'"
  shows "y = z"
  using assms(2,3)
proof (induction rule: converse_rtranclp_induct)
  case base
  then show ?case using assms(4) by (metis converse_rtranclpE)
next
  case (step x x1)
  then show ?case using assms(1,5) by (metis converse_rtranclpE)
qed

lemma at_header_empty: "at_header I [] h \<Longrightarrow> \<not> completes J I h h'"
  by (auto simp: at_header_def elim!: completesE)

lemma runs_star: "(completes J I)\<^sup>*\<^sup>* h h' \<Longrightarrow> runs J I [] h h'"
  by (induction rule: converse_rtranclp_induct) (auto intro: runs.intros)

subsection \<open>Lists of messages\<close>

lemma messages_run:
  assumes "json_laws J" and "reads I" and "\<forall>m \<in> set ms. sendable J m"
    and "at_header I [] h" and "deliver_all J ms (view h) = Some k"
  defines "bytes \<equiv> concat (map (message_bytes J) ms)"
  shows "(\<exists>h'. runs J I bytes h h' \<and> (\<nexists>h''. completes J I h' h'')) \<and>
    (\<forall>h'. runs J I bytes h h' \<and> (\<nexists>h''. completes J I h' h'') \<longrightarrow> view h' = k \<and> at_header I [] h')"
proof -
  let ?h = "receive I bytes h"
  have start: "at_header I (bytes @ []) ?h" "view ?h = view h" "length_known h"
    using assms(2,4) by (auto simp: at_header_def reads_def view_def length_known_def)
  have "\<exists>h'. (completes J I)\<^sup>*\<^sup>* ?h h' \<and> at_header I [] h' \<and> view h' = k"
    using messages_delivered [OF assms(1-3) start(1) [unfolded bytes_def], of k] start(2) assms(5)
    by (simp add: bytes_def)
  then obtain h1 where h1: "(completes J I)\<^sup>*\<^sup>* ?h h1" "at_header I [] h1" "view h1 = k" by blast
  note stuck = at_header_empty [OF h1(2)]
  have run: "runs J I bytes h h1"
    using runs.arrives [OF runs_star [OF h1(1)]] by simp
  have "h' = h1" if "runs J I bytes h h'" "\<nexists>h''. completes J I h' h''" for h'
    using completes_unique stuck
    by (intro deterministic_normal_form [where R = "completes J I", OF _ runs_normal [OF assms(2) that(1) start(3)] h1(1) that(2)]) blast+
  then show ?thesis using run stuck h1(2,3) by blast
qed

lemma messages_run_unique:
  assumes "json_laws J" and "reads I" and "\<forall>m \<in> set ms. sendable J m"
    and "at_header I [] h" and "deliver_all J ms (view h) = Some k"
    and "runs J I (concat (map (message_bytes J) ms)) h h'" and "\<nexists>h''. completes J I h' h''"
  shows "view h' = k \<and> at_header I [] h'"
  using messages_run [OF assms(1-5)] assms(6,7) by blast

subsection \<open>A prefix of a message\<close>

definition waiting :: "('j, 'w) handler \<Rightarrow> bool" where
  "waiting h \<longleftrightarrow> (\<exists>op. h_pending h = [op] \<and> op \<noteq> Close_stream) \<and> h_stream h \<noteq> None"

lemma too_few_bytes:
  assumes "h_pending h = [op]" and "h_stream h = Some w" and "length (si_data I w) < needed op"
  shows "\<not> completes J I h h'"
  using assms by (auto elim!: completesE)

lemma prefix_of_append:
  assumes "a @ b = part @ missing" and "\<not> length part < length a"
  obtains rest where "part = a @ rest" and "b = rest @ missing"
  using assms by (metis append_eq_append_conv_if append_take_drop_id linorder_not_less)

text \<open>The reads that a prefix of a message is enough for never come to its payload.\<close>

lemma prefix_stops:
  assumes J: "json_laws J" and I: "reads I" and m: "sendable J m" and h: "at_header I part h"
    and bytes: "message_bytes J m = part @ missing" and "missing \<noteq> []"
  shows "\<exists>h'. (completes J I)\<^sup>*\<^sup>* h h' \<and> (\<nexists>h''. completes J I h' h'') \<and> view h' = view h \<and> waiting h'"
proof (cases "length part < 4")
  case True
  then have "\<nexists>h'. completes J I h h'" using h too_few_bytes by (fastforce simp: at_header_def)
  then show ?thesis using h by (intro exI [of _ h]) (auto simp: at_header_def waiting_def)
next
  case False
  let ?p = "message_payload J m" and ?n = "message_number m" and ?t = "message_type m"
  let ?sz = "word_of_nat (length ?p) :: u64"
  have n: "valid_number ?n" and p: "?p \<noteq> []" "length ?p < 2 ^ 32" using m by (auto simp: sendable_def)
  have sz: "unat (ucast ?sz :: u32) = length ?p"
    using p(2) by (simp add: unsigned_of_nat unsigned_ucast_eq take_bit_nat_eq_self)
  obtain x field where x: "createTransportHeader ?t ?n ?sz = x # field"
    "header_length x = (if field = [] then ucast ?sz else 0)" "field = [] \<or> field = [ucast ?sz]"
    using createTransportHeader_short [OF n, of ?sz ?t] createTransportHeader_long [OF n, of ?sz ?t] by (metis not_Cons_self2)
  then have "le_bytes 4 x @ concat (map (le_bytes 4) field) @ ?p = part @ missing"
    using bytes by (simp add: message_bytes_def block_bytes_def header_bytes_def)
  from prefix_of_append [OF this] False obtain part1 where part1: "part = le_bytes 4 x @ part1"
    "concat (map (le_bytes 4) field) @ ?p = part1 @ missing" by auto
  from header_step [OF I h [unfolded part1(1)], of J] obtain h1 w1 where h1: "completes J I h h1" "h_stream h1 = Some w1"
    "si_data I w1 = part1" "view h1 = view h"
    "h_pending h1 = [if header_length x = 0 then Read_length else Read_payload (header_length x)]" by blast
  have nonzero: "(ucast ?sz :: u32) \<noteq> 0" using sz p(1) by (metis length_0_conv unsigned_0)
  have short: "length part2 < length ?p" if "?p = part2 @ missing" for part2
    using that assms(6) by simp
  show ?thesis
  proof (cases "field = []")
    case True
    then have "\<nexists>h''. completes J I h1 h''"
      using h1 x(2) nonzero sz part1(2) short too_few_bytes [of h1 "Read_payload (ucast ?sz)" w1 I] by simp
    then show ?thesis using h1 by (intro exI [of _ h1]) (auto simp: waiting_def)
  next
    case long: False
    then have pending: "h_pending h1 = [Read_length]" and field: "field = [ucast ?sz]" using h1(5) x by simp_all
    show ?thesis
    proof (cases "length part1 < 4")
      case True
      then have "\<nexists>h''. completes J I h1 h''"
        using h1 pending too_few_bytes [of h1 Read_length w1 I] by simp
      then show ?thesis using h1 by (intro exI [of _ h1]) (auto simp: waiting_def)
    next
      case False
      from part1(2) field have "le_bytes 4 (ucast ?sz :: u32) @ ?p = part1 @ missing" by simp
      from prefix_of_append [OF this] False obtain part2 where part2: "part1 = le_bytes 4 (ucast ?sz :: u32) @ part2"
        "?p = part2 @ missing" by auto
      from length_step [OF I pending h1(2) h1(3) [unfolded part2(1)], of J] obtain h2 w2 where h2: "completes J I h1 h2"
        "h_stream h2 = Some w2" "si_data I w2 = part2" "view h2 = view h1" "h_pending h2 = [Read_payload (ucast ?sz)]"
        by blast
      have "\<nexists>h''. completes J I h2 h''"
        using h2 sz short [OF part2(2)] too_few_bytes [of h2 "Read_payload (ucast ?sz)" w2 I] by simp
      moreover have "(completes J I)\<^sup>*\<^sup>* h h2" using h1(1) h2(1) by (meson converse_rtranclp_into_rtranclp rtranclp.rtrancl_refl)
      ultimately show ?thesis using h1(4) h2 by (intro exI [of _ h2]) (auto simp: waiting_def)
    qed
  qed
qed

lemma prefix_run:
  assumes J: "json_laws J" and I: "reads I" and "\<forall>m \<in> set ms. sendable J m" and "at_header I [] h"
    and "deliver_all J ms (view h) = Some k" and "sendable J m" and "message_bytes J m = part @ missing" and "missing \<noteq> []"
  defines "bytes \<equiv> concat (map (message_bytes J) ms) @ part"
  shows "\<exists>h1. runs J I bytes h h1 \<and> (\<nexists>h''. completes J I h1 h'') \<and> view h1 = k \<and> waiting h1 \<and>
    (\<forall>h'. runs J I bytes h h' \<longrightarrow> (\<nexists>h''. completes J I h' h'') \<longrightarrow> h' = h1)"
proof -
  let ?h = "receive I bytes h"
  have start: "at_header I bytes ?h" "view ?h = view h" "length_known h"
    using assms(2,4) by (auto simp: at_header_def reads_def view_def length_known_def)
  from messages_delivered [OF J I assms(3) start(1) [unfolded bytes_def], of k] start(2) assms(5)
  obtain h0 where h0: "(completes J I)\<^sup>*\<^sup>* ?h h0" "at_header I part h0" "view h0 = k" by (auto simp: bytes_def)
  from prefix_stops [OF J I assms(6) h0(2) assms(7,8)] obtain h1 where h1: "(completes J I)\<^sup>*\<^sup>* h0 h1"
    "\<nexists>h''. completes J I h1 h''" "view h1 = view h0" "waiting h1" by blast
  have star: "(completes J I)\<^sup>*\<^sup>* ?h h1" using h0(1) h1(1) by (rule rtranclp_trans)
  have run: "runs J I bytes h h1" using runs.arrives [OF runs_star [OF star]] by simp
  have "h' = h1" if "runs J I bytes h h'" "\<nexists>h''. completes J I h' h''" for h'
    using completes_unique h1(2)
    by (intro deterministic_normal_form [where R = "completes J I", OF _ runs_normal [OF I that(1) start(3)] star that(2)]) blast+
  then show ?thesis using run h0(3) h1 by metis
qed

text \<open>Whether a completion callback is registered never changes.\<close>

lemma closeSession_completionCb [simp]: "h_completionCb (closeSession ec h) = h_completionCb h"
  by (simp add: closeSession_def schedule_def Let_def)

lemma process_payload_completionCb:
  "h_completionCb (snd (process_payload J dat h)) = h_completionCb h"
  by (simp add: process_payload_def payload_data_def payload_meta_def payload_streamMeta_def payload_signalMeta_def
      Let_def split: if_split prod.split sum.split flow.split)

lemma completes_completionCb: "completes J I h h' \<Longrightarrow> h_completionCb h' = h_completionCb h"
  by (auto elim!: completesE simp: complete_def onHeader_def onAdditionalLength_def onPayload_def schedule_def Let_def
      case_prod_beta process_payload_completionCb split: if_splits flow.splits)

lemma runs_completionCb: "runs J I bs h h' \<Longrightarrow> h_completionCb h' = h_completionCb h"
  by (induction rule: runs.induct) (simp_all add: completes_completionCb receive_def)

section \<open>The end of a session\<close>



lemma failed_operation:
  assumes "ec \<noteq> 0" and "op \<noteq> Close_stream" and "h_pending h = op # ops"
  shows "complete J I op ec h = (Ret 0, closeSession ec (h\<lparr>h_pending := ops\<rparr>))"
  using assms
  by (cases op) (simp_all add: complete_def onInitComplete_def onHeader_def onAdditionalLength_def onPayload_def)

section \<open>Properties\<close>

text \<open>A session, and messages it accepts.\<close>

definition example_messages :: "jtree message list" where
  "example_messages =
     [Meta 0 (TObj [(METHOD, TStr META_METHOD_APIVERSION), (PARAMS, TObj [(VERSION, TStr ''1.5.0'')])]), Data 9 [1, 2, 3]]"

definition example_session :: "(jtree, byte list) handler" where
  "example_session =
     (ProtocolHandler_init tree_lib SignalContainer_init 0 0 0 0 0)\<lparr>h_stream := Some [], h_pending := [Read_header]\<rparr>"

definition example_consumer :: "jtree consumer" where
  "example_consumer = \<lparr>k_container = SignalContainer_init, k_streamMeta = (StreamMeta_init 0)\<lparr>sm_apiVersion := ''1.5.0''\<rparr>,
     k_calls = [StreamMeta_call META_METHOD_APIVERSION (TObj [(VERSION, TStr ''1.5.0'')])]\<rparr>"

lemma example_session_runs:
  "\<forall>m \<in> set example_messages. sendable tree_lib m" "at_header buffer_stream [] example_session"
  "deliver_all tree_lib example_messages (view example_session) = Some example_consumer"
  "deliver_all tree_lib [hd example_messages] (view example_session) = Some example_consumer"
proof -
  have "length (enc (TObj [(METHOD, TStr META_METHOD_APIVERSION), (PARAMS, TObj [(VERSION, TStr ''1.5.0'')])])) < 100"
    by code_simp
  then show "\<forall>m \<in> set example_messages. sendable tree_lib m"
    by (simp add: example_messages_def sendable_def valid_number_def SIGNAL_NUMBER_MASK_def tree_lib_def)
  show "at_header buffer_stream [] example_session"
    by (simp add: example_session_def at_header_def buffer_stream_def)
  have "to_decimal 1 = ''1''" "to_decimal 5 = ''5''" "to_decimal 0 = ''0''" by code_simp+
  then have "check_version ''1.5.0'' = Next" using check_version_decimal [of 1 5 0] by simp
  then show "deliver_all tree_lib example_messages (view example_session) = Some example_consumer"
    and "deliver_all tree_lib [hd example_messages] (view example_session) = Some example_consumer"
    by (simp_all add: example_messages_def example_session_def example_consumer_def
        deliver_meta_def deliver_data_def view_def ProtocolHandler_init_def StreamMeta_process_def
        meta_method_def meta_params_def meta_apiVersion_def try_catch_def tree_lib_def StreamMeta_init_def
        container_processMeasuredData_def SignalContainer_init_def)
qed

text \<open>
  C2: a connection that is lost within a block. Let a session wait for a header with an empty
  buffer, and let the bytes of a list of messages the specification accepts arrive, followed by
  a proper prefix of one more message, which may end within its header, within the length field
  or within the payload, all in any pieces. There is a run that reads all it can, and every such
  run has delivered exactly the complete messages, nothing of the last one, and waits in one
  read. When that read fails, the session is closed, the application sees the state the
  specification gives for the complete messages and the completion callback once, with the
  error.
\<close>

theorem interrupted_stream:
  assumes "json_laws J" and "reads I" and "\<forall>m \<in> set ms. sendable J m" and "at_header I [] h"
    and "deliver_all J ms (view h) = Some k"
    and "sendable J m" and "message_bytes J m = part @ missing" and "missing \<noteq> []"
    and "h_completionCb h" and "ec \<noteq> 0"
  defines "bytes \<equiv> concat (map (message_bytes J) ms) @ part"
  shows "(\<exists>h'. runs J I bytes h h' \<and> (\<nexists>h''. completes J I h' h'')) \<and>
    (\<forall>h'. runs J I bytes h h' \<and> (\<nexists>h''. completes J I h' h'') \<longrightarrow>
       view h' = k \<and>
       (\<exists>op h1 h2. h_pending h' = [op] \<and> op \<noteq> Close_stream \<and> complete J I op ec h' = (Ret 0, h1) \<and>
          complete J I Close_stream ec' h1 = (Next, h2) \<and> h_stream h2 = None \<and> h_pending h2 = [] \<and>
          view h2 = k\<lparr>k_calls := k_calls k @ [Completion_call ec]\<rparr>))"
proof -
  from prefix_run [OF assms(1-8)] obtain h1 where
    h1: "runs J I bytes h h1" "\<nexists>h''. completes J I h1 h''" "view h1 = k" "waiting h1"
    and unique: "\<And>h'. runs J I bytes h h' \<Longrightarrow> \<nexists>h''. completes J I h' h'' \<Longrightarrow> h' = h1"
    unfolding bytes_def by blast
  from h1(4) obtain op where op: "h_pending h1 = [op]" "op \<noteq> Close_stream" "h_stream h1 \<noteq> None"
    by (auto simp: waiting_def)
  have "h_completionCb h1" using runs_completionCb [OF h1(1)] assms(9) by simp
  with failed_operation [OF assms(10) op(2,1), of J I] op(3) h1(3)
  have "\<exists>h2 h3. complete J I op ec h1 = (Ret 0, h2) \<and>
      complete J I Close_stream ec' h2 = (Next, h3) \<and> h_stream h3 = None \<and> h_pending h3 = [] \<and>
      view h3 = k\<lparr>k_calls := k_calls k @ [Completion_call ec]\<rparr>"
    by (auto simp: complete_def onClose_def closeSession_def schedule_def view_def Let_def)
  then show ?thesis using h1 op unique by blast
qed

text \<open>The second message breaks off after two of its three bytes of payload.\<close>

theorem interrupted_stream_witness:
  "\<exists>h'. runs tree_lib buffer_stream
        (concat (map (message_bytes tree_lib) [hd example_messages]) @ take 6 (message_bytes tree_lib (Data 9 [1, 2, 3])))
        (example_session\<lparr>h_completionCb := True\<rparr>) h' \<and>
     view h' = example_consumer \<and>
     (\<exists>op h1 h2. h_pending h' = [op] \<and> complete tree_lib buffer_stream op 2 h' = (Ret 0, h1) \<and>
        complete tree_lib buffer_stream Close_stream 0 h1 = (Next, h2) \<and>
        k_calls (view h2) = k_calls example_consumer @ [Completion_call 2])"
proof -
  let ?m = "message_bytes tree_lib (Data 9 [1, 2, 3])"
  have s: "\<forall>m \<in> set [hd example_messages]. sendable tree_lib m" "sendable tree_lib (Data 9 [1, 2, 3])"
    using example_session_runs(1) by (simp_all add: example_messages_def)
  have h: "at_header buffer_stream [] (example_session\<lparr>h_completionCb := True\<rparr>)"
    using example_session_runs(2) by (simp add: at_header_def)
  have d: "deliver_all tree_lib [hd example_messages] (view (example_session\<lparr>h_completionCb := True\<rparr>)) = Some example_consumer"
    using example_session_runs(4) by (simp add: view_def)
  have "length ?m = 7" by code_simp
  then have missing: "?m = take 6 ?m @ drop 6 ?m" "drop 6 ?m \<noteq> []" by simp_all
  from interrupted_stream [OF tree_json_laws buffer_stream_reads s(1) h d s(2) missing, of 2 0]
  show ?thesis by fastforce
qed



text \<open>
  A block of an unknown transport type ends the session with a protocol error, and the
  container, the stream's meta information and the callbacks have not seen it.
\<close>

lemma unknown_type_closes:
  assumes "h_pending h = [Read_payload n]" and "h_stream h \<noteq> None"
    and "h_type h \<noteq> transport_code TYPE_SIGNALDATA" and "h_type h \<noteq> transport_code TYPE_METAINFORMATION"
  shows "\<exists>h'. complete J I (Read_payload n) 0 h = (Ret 0, h') \<and> h_pending h' = [Close_stream] \<and>
    h_sessionEc h' = protocol_error \<and> view h' = view h"
  using assms
  by (auto simp: complete_def onPayload_def process_payload_def closeSession_def schedule_def view_def Let_def)

end
