(* ===== verification/Producer_Signals.thy ===== *)
theory Producer_Signals
  imports Subscribed_Signal
begin

text \<open>
  The producer's signals: \<open>BaseSignal\<close> and its descendants (domain signals with a linear or
  an explicit rule; constant, synchronous and asynchronous value signals), their descriptions
  and the packets they write. A class hierarchy becomes a record that is extended, a template
  parameter a value of type \<open>data_type\<close>, a pure virtual function a case distinction. Shown:
  signal numbers, the layout of packets, tick conversions, and that the consumer reconstructs
  the signal from its description.
\<close>

section \<open>Value types\<close>

datatype data_type =
    Dt_int8 | Dt_uint8 | Dt_int16 | Dt_uint16 | Dt_int32 | Dt_uint32 | Dt_int64 | Dt_uint64
  | Dt_float | Dt_double | Dt_complex32 | Dt_complex64

text \<open>The name \<open>getMemberInformation\<close> passes on, \<open>getSampleType\<close>, and \<open>sizeof\<close>.\<close>

fun dataType_name :: "data_type \<Rightarrow> string" where
  "dataType_name Dt_int8 = DATA_TYPE_INT8"
| "dataType_name Dt_uint8 = DATA_TYPE_UINT8"
| "dataType_name Dt_int16 = DATA_TYPE_INT16"
| "dataType_name Dt_uint16 = DATA_TYPE_UINT16"
| "dataType_name Dt_int32 = DATA_TYPE_INT32"
| "dataType_name Dt_uint32 = DATA_TYPE_UINT32"
| "dataType_name Dt_int64 = DATA_TYPE_INT64"
| "dataType_name Dt_uint64 = DATA_TYPE_UINT64"
| "dataType_name Dt_float = DATA_TYPE_REAL32"
| "dataType_name Dt_double = DATA_TYPE_REAL64"
| "dataType_name Dt_complex32 = DATA_TYPE_COMPLEX32"
| "dataType_name Dt_complex64 = DATA_TYPE_COMPLEX64"

fun getSampleType :: "data_type \<Rightarrow> sample_type" where
  "getSampleType Dt_int8 = SAMPLETYPE_S8"
| "getSampleType Dt_uint8 = SAMPLETYPE_U8"
| "getSampleType Dt_int16 = SAMPLETYPE_S16"
| "getSampleType Dt_uint16 = SAMPLETYPE_U16"
| "getSampleType Dt_int32 = SAMPLETYPE_S32"
| "getSampleType Dt_uint32 = SAMPLETYPE_U32"
| "getSampleType Dt_int64 = SAMPLETYPE_S64"
| "getSampleType Dt_uint64 = SAMPLETYPE_U64"
| "getSampleType Dt_float = SAMPLETYPE_REAL32"
| "getSampleType Dt_double = SAMPLETYPE_REAL64"
| "getSampleType Dt_complex32 = SAMPLETYPE_COMPLEX32"
| "getSampleType Dt_complex64 = SAMPLETYPE_COMPLEX64"

fun dataType_size :: "data_type \<Rightarrow> nat" where
  "dataType_size Dt_int8 = 1"
| "dataType_size Dt_uint8 = 1"
| "dataType_size Dt_int16 = 2"
| "dataType_size Dt_uint16 = 2"
| "dataType_size Dt_int32 = 4"
| "dataType_size Dt_uint32 = 4"
| "dataType_size Dt_int64 = 8"
| "dataType_size Dt_uint64 = 8"
| "dataType_size Dt_float = 4"
| "dataType_size Dt_double = 8"
| "dataType_size Dt_complex32 = 8"
| "dataType_size Dt_complex64 = 16"

section \<open>BaseSignal\<close>

text \<open>The static counter of signal numbers is passed along.\<close>

definition nextSignalNumber :: "u32 \<Rightarrow> u32 \<times> u32" where
  "nextSignalNumber counter =
     (let c1 = counter + 1;
          c2 = (if c1 AND SIGNAL_NUMBER_MASK = 0 then c1 + 1 else c1)
      in (c2 AND SIGNAL_NUMBER_MASK, c2))"

record 'j base_signal =
  bs_number :: u32
  bs_id :: string
  bs_tableId :: string
  bs_interpretation :: 'j

definition setInterpretationObject :: "'j \<Rightarrow> ('j, 'm) base_signal_scheme \<Rightarrow> ('j, 'm) base_signal_scheme" where
  "setInterpretationObject object s = s\<lparr>bs_interpretation := object\<rparr>"

text \<open>The acknowledge of a subscription, and the meta information of an unsubscription.\<close>

definition subscribe_doc :: "'j json_lib \<Rightarrow> string \<Rightarrow> 'j" where
  "subscribe_doc J signalId =
     j_put2 J (j_put J (j_null J) METHOD (j_of_string J META_METHOD_SUBSCRIBE))
       PARAMS META_SIGNALID (j_of_string J signalId)"

definition unsubscribe_doc :: "'j json_lib \<Rightarrow> 'j" where
  "unsubscribe_doc J = j_put J (j_null J) METHOD (j_of_string J META_METHOD_UNSUBSCRIBE)"

text \<open>\<open>signal[METHOD] = "signal"; signal[PARAMS][META_TABLEID] = m_tableId;\<close>\<close>

definition signal_doc :: "'j json_lib \<Rightarrow> ('j, 'm) base_signal_scheme \<Rightarrow> 'j" where
  "signal_doc J s =
     j_put2 J (j_put J (j_null J) METHOD (j_of_string J META_METHOD_SIGNAL))
       PARAMS META_TABLEID (j_of_string J (bs_tableId s))"

definition put_interpretation :: "'j json_lib \<Rightarrow> ('j, 'm) base_signal_scheme \<Rightarrow> 'j \<Rightarrow> 'j" where
  "put_interpretation J s doc =
     (if \<not> j_is_null J (bs_interpretation s)
      then j_put2 J doc PARAMS META_INTERPRETATION (bs_interpretation s) else doc)"

section \<open>Domain signals\<close>

text \<open>\<open>LinearTimeSignal\<close> adds the output rate in ticks, \<open>ExplicitTimeSignal\<close> nothing.\<close>

datatype domain_rule = Linear_time u64 | Explicit_time

record 'j domain_signal = "'j base_signal" +
  ds_startInTicks :: u64
  ds_resolution :: resolution
  ds_epoch :: string
  ds_unitSecond :: munit
  ds_rule :: domain_rule

definition unit_second :: munit where
  "unit_second = \<lparr>unit_id = UNIT_ID_SECONDS, displayName = ''s'', quantity = META_TIME\<rparr>"

text \<open>\<open>m_startInTicks\<close> is not initialised by the constructor: its value is an argument.\<close>

definition BaseDomainSignal_init ::
  "'j json_lib \<Rightarrow> string \<Rightarrow> string \<Rightarrow> u64 \<Rightarrow> domain_rule \<Rightarrow> u64 \<Rightarrow> u32 \<Rightarrow> 'j domain_signal \<times> u32" where
  "BaseDomainSignal_init J signalId tableId timeTicksPerSecond rule start counter =
     (case nextSignalNumber counter of
        (n, counter') \<Rightarrow>
          (\<lparr>bs_number = n, bs_id = signalId, bs_tableId = tableId, bs_interpretation = j_null J,
            ds_startInTicks = start, ds_resolution = Resolution_init 1 timeTicksPerSecond,
            ds_epoch = UNIX_EPOCH, ds_unitSecond = unit_second, ds_rule = rule\<rparr>, counter'))"

text \<open>The product of the ticks per second and the nanoseconds is one of unsigned 64 bit.\<close>

definition ticks_of_rate :: "u64 \<Rightarrow> u64 \<Rightarrow> u64" where
  "ticks_of_rate timeTicksPerSecond nanoseconds = timeTicksPerSecond * nanoseconds div 1000000000"

definition LinearTimeSignal_init ::
  "'j json_lib \<Rightarrow> string \<Rightarrow> string \<Rightarrow> u64 \<Rightarrow> u64 \<Rightarrow> u64 \<Rightarrow> u32 \<Rightarrow> 'j domain_signal \<times> u32" where
  "LinearTimeSignal_init J signalId tableId timeTicksPerSecond outputRate start counter =
     BaseDomainSignal_init J signalId tableId timeTicksPerSecond
       (Linear_time (ticks_of_rate timeTicksPerSecond outputRate)) start counter"

definition ExplicitTimeSignal_init ::
  "'j json_lib \<Rightarrow> string \<Rightarrow> string \<Rightarrow> u64 \<Rightarrow> u64 \<Rightarrow> u32 \<Rightarrow> 'j domain_signal \<times> u32" where
  "ExplicitTimeSignal_init J signalId tableId timeTicksPerSecond start counter =
     BaseDomainSignal_init J signalId tableId timeTicksPerSecond Explicit_time start counter"

definition getRuleType :: "'j domain_signal \<Rightarrow> rule_type" where
  "getRuleType s = (case ds_rule s of Linear_time d \<Rightarrow> RULETYPE_LINEAR | Explicit_time \<Rightarrow> RULETYPE_EXPLICIT)"

definition setEpoch :: "string \<Rightarrow> 'j domain_signal \<Rightarrow> 'j domain_signal" where
  "setEpoch epoch s = s\<lparr>ds_epoch := epoch\<rparr>"

definition setTimeTicksPerSecond :: "u64 \<Rightarrow> 'j domain_signal \<Rightarrow> 'j domain_signal" where
  "setTimeTicksPerSecond timeTicksPerSecond s =
     s\<lparr>ds_resolution := (ds_resolution s)\<lparr>denominator := timeTicksPerSecond\<rparr>\<rparr>"

definition getTimeTicksPerSecond :: "'j domain_signal \<Rightarrow> u64" where
  "getTimeTicksPerSecond s = denominator (ds_resolution s)"

text \<open>Members of \<open>LinearTimeSignal\<close> only: on an explicit signal they do not exist.\<close>

definition setOutputRate :: "u64 \<Rightarrow> 'j domain_signal \<Rightarrow> 'j domain_signal" where
  "setOutputRate timeTicks s = s\<lparr>ds_rule := Linear_time timeTicks\<rparr>"

definition setOutputRate_ns :: "u64 \<Rightarrow> 'j domain_signal \<Rightarrow> 'j domain_signal" where
  "setOutputRate_ns nanoseconds s =
     setOutputRate (ticks_of_rate (denominator (ds_resolution s)) nanoseconds) s"

definition getTimeDelta :: "'j domain_signal \<Rightarrow> u64" where
  "getTimeDelta s = (case ds_rule s of Linear_time d \<Rightarrow> d | Explicit_time \<Rightarrow> 0)"

text \<open>The start time goes out as an indexed value with index 0, whatever the rule is.\<close>

definition indexed_bytes :: "u64 \<Rightarrow> byte list \<Rightarrow> byte list" where
  "indexed_bytes index val = le_bytes 8 index @ val"

definition setTimeStart ::
  "('j, 'w) iwriter \<Rightarrow> u64 \<Rightarrow> 'j domain_signal \<Rightarrow> 'w \<Rightarrow> 'j domain_signal \<times> 'w" where
  "setTimeStart W timeTicks s w =
     (case iw_data W (bs_number s) (indexed_bytes 0 (le_bytes 8 timeTicks)) w of
        (result, w') \<Rightarrow> (s\<lparr>ds_startInTicks := timeTicks\<rparr>, w'))"

text \<open>Ticks to nanoseconds in unsigned 64 bit arithmetic; no ticks per second trap.\<close>

definition nanosecondsFromTimeTicks :: "u64 \<Rightarrow> u64 \<Rightarrow> u64 option" where
  "nanosecondsFromTimeTicks timeTicks timeTicksPerSecond =
     (if timeTicksPerSecond = 0 then None
      else
        let seconds = timeTicks div timeTicksPerSecond;
            subTicks = timeTicks mod timeTicksPerSecond;
            subTicks1 = subTicks * 1000000000;
            subTicks2 = subTicks1 div timeTicksPerSecond
        in Some (seconds * 1000000000 + subTicks2))"

definition linear_member :: "'j json_lib \<Rightarrow> u64 \<Rightarrow> 'j domain_signal \<Rightarrow> 'j" where
  "linear_member J delta s =
     (let m1 = j_put J (j_null J) META_NAME (j_of_string J META_TIME);
          m2 = j_put J m1 META_RULE (j_of_string J META_RULETYPE_LINEAR);
          m3 = j_put2 J m2 META_RULETYPE_LINEAR META_DELTA (j_of_uint64 J delta);
          m4 = j_put J m3 META_DATATYPE (j_of_string J DATA_TYPE_UINT64);
          m5 = j_put J m4 META_ABSOLUTE_REFERENCE (j_of_string J (ds_epoch s))
      in Resolution_compose J (ds_resolution s) (Unit_compose J (ds_unitSecond s) m5))"

definition explicit_member :: "'j json_lib \<Rightarrow> 'j domain_signal \<Rightarrow> 'j" where
  "explicit_member J s =
     (let m1 = j_put J (j_null J) META_NAME (j_of_string J META_TIME);
          m2 = j_put J m1 META_RULE (j_of_string J META_RULETYPE_EXPLICIT);
          m3 = j_put J m2 META_DATATYPE (j_of_string J DATA_TYPE_UINT64);
          m4 = Unit_compose J (ds_unitSecond s) m3;
          m5 = j_put J m4 META_ABSOLUTE_REFERENCE (j_of_string J (ds_epoch s))
      in Resolution_compose J (ds_resolution s) m5)"

definition domain_member :: "'j json_lib \<Rightarrow> 'j domain_signal \<Rightarrow> 'j" where
  "domain_member J s =
     (case ds_rule s of Linear_time d \<Rightarrow> linear_member J d s | Explicit_time \<Rightarrow> explicit_member J s)"

definition domain_meta :: "'j json_lib \<Rightarrow> 'j domain_signal \<Rightarrow> 'j" where
  "domain_meta J s =
     put_interpretation J s (j_put2 J (signal_doc J s) PARAMS META_DEFINITION (domain_member J s))"

section \<open>Value signals\<close>

text \<open>
  What distinguishes the three classes: \<open>ConstantSignal\<close> has a default start value,
  \<open>SynchronousSignal\<close> the index of the next value. The related signals are a \<open>std::map\<close>:
  a list sorted by key.
\<close>

datatype 'j value_rule = Constant_rule 'j | Synchronous u64 | Asynchronous

record 'j value_signal = "'j base_signal" +
  vs_dataType :: data_type
  vs_valueName :: string
  vs_unit :: munit
  vs_postScaling :: postScaling
  vs_range :: range
  vs_relatedSignals :: "(string \<times> string) list"
  vs_rule :: "'j value_rule"

definition BaseValueSignal_init ::
  "'j json_lib \<Rightarrow> string \<Rightarrow> string \<Rightarrow> data_type \<Rightarrow> 'j value_rule \<Rightarrow> u32 \<Rightarrow> 'j value_signal \<times> u32" where
  "BaseValueSignal_init J signalId tableId t rule counter =
     (case nextSignalNumber counter of
        (n, counter') \<Rightarrow>
          (\<lparr>bs_number = n, bs_id = signalId, bs_tableId = tableId, bs_interpretation = j_null J,
            vs_dataType = t, vs_valueName = ''value'', vs_unit = Unit_clear, vs_postScaling = PostScaling_clear,
            vs_range = Range_clear, vs_relatedSignals = [], vs_rule = rule\<rparr>, counter'))"

definition ConstantSignal_init ::
  "'j json_lib \<Rightarrow> string \<Rightarrow> string \<Rightarrow> data_type \<Rightarrow> 'j \<Rightarrow> u32 \<Rightarrow> 'j value_signal \<times> u32" where
  "ConstantSignal_init J signalId tableId t defaultStartValue =
     BaseValueSignal_init J signalId tableId t (Constant_rule defaultStartValue)"

definition SynchronousSignal_init ::
  "'j json_lib \<Rightarrow> string \<Rightarrow> string \<Rightarrow> data_type \<Rightarrow> u64 \<Rightarrow> u32 \<Rightarrow> 'j value_signal \<times> u32" where
  "SynchronousSignal_init J signalId tableId t valueIndex =
     BaseValueSignal_init J signalId tableId t (Synchronous valueIndex)"

definition AsynchronousSignal_init ::
  "'j json_lib \<Rightarrow> string \<Rightarrow> string \<Rightarrow> data_type \<Rightarrow> u32 \<Rightarrow> 'j value_signal \<times> u32" where
  "AsynchronousSignal_init J signalId tableId t = BaseValueSignal_init J signalId tableId t Asynchronous"

definition setUnit_id :: "i32 \<Rightarrow> string \<Rightarrow> 'j value_signal \<Rightarrow> 'j value_signal" where
  "setUnit_id unitId name s = s\<lparr>vs_unit := (vs_unit s)\<lparr>unit_id := unitId, displayName := name\<rparr>\<rparr>"

definition setUnit :: "munit \<Rightarrow> 'j value_signal \<Rightarrow> 'j value_signal" where
  "setUnit u s = s\<lparr>vs_unit := u\<rparr>"

definition setMemberName :: "string \<Rightarrow> 'j value_signal \<Rightarrow> 'j value_signal" where
  "setMemberName name s = s\<lparr>vs_valueName := name\<rparr>"

definition setPostScaling :: "postScaling \<Rightarrow> 'j value_signal \<Rightarrow> 'j value_signal" where
  "setPostScaling p s = s\<lparr>vs_postScaling := p\<rparr>"

definition clearPostScaling :: "'j value_signal \<Rightarrow> 'j value_signal" where
  "clearPostScaling s = s\<lparr>vs_postScaling := PostScaling_clear\<rparr>"

definition setRange :: "range \<Rightarrow> 'j value_signal \<Rightarrow> 'j value_signal" where
  "setRange r s = s\<lparr>vs_range := r\<rparr>"

definition clearRange :: "'j value_signal \<Rightarrow> 'j value_signal" where
  "clearRange s = s\<lparr>vs_range := Range_clear\<rparr>"

definition setRelatedSignals :: "(string \<times> string) list \<Rightarrow> 'j value_signal \<Rightarrow> 'j value_signal" where
  "setRelatedSignals rs s = s\<lparr>vs_relatedSignals := rs\<rparr>"

definition related_doc :: "'j json_lib \<Rightarrow> string \<times> string \<Rightarrow> 'j" where
  "related_doc J r =
     j_put J (j_put J (j_null J) META_TYPE (j_of_string J (fst r))) META_SIGNALID (j_of_string J (snd r))"

definition composeRelatedSignals :: "'j json_lib \<Rightarrow> 'j value_signal \<Rightarrow> 'j \<Rightarrow> 'j" where
  "composeRelatedSignals J s composition =
     foldl (\<lambda>c r. j_push_at J c META_RELATEDSIGNALS (related_doc J r)) composition (vs_relatedSignals s)"

text \<open>\<open>createMember\<close> of the three classes.\<close>

definition createMember :: "'j json_lib \<Rightarrow> string \<Rightarrow> 'j value_signal \<Rightarrow> 'j" where
  "createMember J rule s =
     (let m1 = j_put J (j_null J) META_NAME (j_of_string J (vs_valueName s));
          m2 = j_put J m1 META_DATATYPE (j_of_string J (dataType_name (vs_dataType s)));
          m3 = j_put J m2 META_RULE (j_of_string J rule)
      in PostScaling_compose J (vs_postScaling s)
           (Range_compose J (vs_range s) (Unit_compose J (vs_unit s) m3)))"

definition constant_member :: "'j json_lib \<Rightarrow> 'j \<Rightarrow> 'j value_signal \<Rightarrow> 'j" where
  "constant_member J defaultStartValue s =
     (let m = createMember J META_RULETYPE_CONSTANT s
      in if \<not> j_is_null J defaultStartValue
         then j_put2 J m META_RULETYPE_CONSTANT META_START defaultStartValue else m)"

definition value_member :: "'j json_lib \<Rightarrow> 'j value_signal \<Rightarrow> 'j" where
  "value_member J s =
     (case vs_rule s of
        Constant_rule v \<Rightarrow> constant_member J v s
      | Synchronous i \<Rightarrow> createMember J META_RULETYPE_EXPLICIT s
      | Asynchronous \<Rightarrow> createMember J META_RULETYPE_EXPLICIT s)"

definition value_meta :: "'j json_lib \<Rightarrow> 'j value_signal \<Rightarrow> 'j" where
  "value_meta J s =
     (let d1 = put_interpretation J s (signal_doc J s);
          d2 = j_put2 J d1 PARAMS META_DEFINITION (value_member J s);
          d3 = (case vs_rule s of
                  Synchronous i \<Rightarrow> j_put2 J d2 PARAMS META_VALUEINDEX (j_of_uint64 J i)
                | _ \<Rightarrow> d2)
      in j_put J d3 PARAMS (composeRelatedSignals J s (j_member J d3 PARAMS)))"

section \<open>Adding data\<close>

text \<open>
  \<open>SynchronousSignal::addData\<close>: the value index advances, the values go out as they are. The
  caller's buffer holds \<open>sampleCount\<close> values, as the pointer it passes promises; a list of bytes
  shorter than that stands for no call of the program (the code would read behind the buffer)
  and is taken as far as it goes.
\<close>

definition synchronous_addData ::
  "('j, 'w) iwriter \<Rightarrow> byte list \<Rightarrow> u64 \<Rightarrow> 'j value_signal \<Rightarrow> 'w \<Rightarrow> int \<times> 'j value_signal \<times> 'w" where
  "synchronous_addData W dat sampleCount s w =
     (let s' = (case vs_rule s of Synchronous i \<Rightarrow> s\<lparr>vs_rule := Synchronous (i + sampleCount)\<rparr> | _ \<Rightarrow> s);
          n = unat (sampleCount * word_of_nat (dataType_size (vs_dataType s)));
          (r, w') = iw_data W (bs_number s) (take n dat) w
      in (r, s', w'))"

text \<open>\<open>ConstantSignal::addData\<close>: each value behind its index.\<close>

definition constant_addData ::
  "('j, 'w) iwriter \<Rightarrow> (u64 \<times> byte list) list \<Rightarrow> 'j value_signal \<Rightarrow> 'w \<Rightarrow> int \<times> 'w" where
  "constant_addData W entries s w =
     iw_data W (bs_number s) (concat (map (\<lambda>(index, val). indexed_bytes index val) entries)) w"

text \<open>
  \<open>AsynchronousSignal::addData\<close>: one packet per value; the time stamps of the tuples are not
  written. A negative result stops the loop.
\<close>

fun asynchronous_addData ::
  "('j, 'w) iwriter \<Rightarrow> (u64 \<times> byte list) list \<Rightarrow> 'j value_signal \<Rightarrow> 'w \<Rightarrow> int \<times> 'w" where
  "asynchronous_addData W [] s w = (0, w)"
| "asynchronous_addData W ((timeStamp, val) # tuples) s w =
     (case iw_data W (bs_number s) val w of
        (result, w') \<Rightarrow>
          if result < 0 then (result, w') else asynchronous_addData W tuples s w')"

section \<open>Signals as a session sees them\<close>

datatype 'j producer_signal = Domain "'j domain_signal" | Value "'j value_signal"

fun getNumber :: "'j producer_signal \<Rightarrow> u32" where
  "getNumber (Domain s) = bs_number s"
| "getNumber (Value s) = bs_number s"

fun getId :: "'j producer_signal \<Rightarrow> string" where
  "getId (Domain s) = bs_id s"
| "getId (Value s) = bs_id s"

fun getTableId :: "'j producer_signal \<Rightarrow> string" where
  "getTableId (Domain s) = bs_tableId s"
| "getTableId (Value s) = bs_tableId s"

fun isDataSignal :: "'j producer_signal \<Rightarrow> bool" where
  "isDataSignal (Domain s) = False"
| "isDataSignal (Value s) = True"

fun signal_meta :: "'j json_lib \<Rightarrow> 'j producer_signal \<Rightarrow> 'j" where
  "signal_meta J (Domain s) = domain_meta J s"
| "signal_meta J (Value s) = value_meta J s"

definition writeSignalMetaInformation ::
  "'j json_lib \<Rightarrow> ('j, 'w) iwriter \<Rightarrow> 'j producer_signal \<Rightarrow> 'w \<Rightarrow> 'w" where
  "writeSignalMetaInformation J W s w = snd (iw_meta W (getNumber s) (signal_meta J s) w)"

definition signal_subscribe ::
  "'j json_lib \<Rightarrow> ('j, 'w) iwriter \<Rightarrow> 'j producer_signal \<Rightarrow> 'w \<Rightarrow> 'w" where
  "signal_subscribe J W s w =
     writeSignalMetaInformation J W s (snd (iw_meta W (getNumber s) (subscribe_doc J (getId s)) w))"

definition signal_unsubscribe ::
  "'j json_lib \<Rightarrow> ('j, 'w) iwriter \<Rightarrow> 'j producer_signal \<Rightarrow> 'w \<Rightarrow> 'w" where
  "signal_unsubscribe J W s w = snd (iw_meta W (getNumber s) (unsubscribe_doc J) w)"

section \<open>Signal numbers\<close>

text \<open>The counter after \<open>n\<close> signals have been created.\<close>

primrec counter_after :: "nat \<Rightarrow> u32" where
  "counter_after 0 = 0"
| "counter_after (Suc n) = snd (nextSignalNumber (counter_after n))"

lemma masked_take_bit: "c AND SIGNAL_NUMBER_MASK = take_bit 20 (c :: u32)"
  using header_signalNumber_bits [of c] by (simp add: header_signalNumber_def)

lemma take_bit_succ:
  fixes c :: u32
  shows "unat (take_bit 20 (c + 1)) = (unat (take_bit 20 c) + 1) mod 2 ^ 20"
proof -
  have "unat (c + 1) mod 2 ^ 20 = (unat c + 1) mod 2 ^ 32 mod 2 ^ 20"
    by (simp add: unat_word_ariths)
  also have "\<dots> = (unat c + 1) mod 2 ^ 20"
    by (rule mod_mod_cancel) (simp add: le_imp_power_dvd)
  also have "\<dots> = (unat c mod 2 ^ 20 + 1) mod 2 ^ 20"
    by (simp only: mod_add_left_eq)
  finally show ?thesis
    by (simp add: unsigned_take_bit_eq take_bit_nat_def)
qed

text \<open>One step: the successor in 20 bits, with zero left out.\<close>

lemma nextSignalNumber_step:
  "unat (fst (nextSignalNumber c)) = unat (take_bit 20 c) mod (2 ^ 20 - 1) + 1"
  "take_bit 20 (snd (nextSignalNumber c)) = fst (nextSignalNumber c)"
proof -
  let ?m = "unat (take_bit 20 c)" and ?c1 = "c + 1"
  have bound: "?m < 2 ^ 20" by (simp only: unsigned_take_bit_eq take_bit_nat_less_exp)
  show "take_bit 20 (snd (nextSignalNumber c)) = fst (nextSignalNumber c)"
    by (simp add: nextSignalNumber_def masked_take_bit Let_def)
  show "unat (fst (nextSignalNumber c)) = ?m mod (2 ^ 20 - 1) + 1"
  proof (cases "take_bit 20 ?c1 = 0")
    case True
    then have "(?m + 1) mod 2 ^ 20 = 0" using take_bit_succ [of c] by simp
    then have "\<not> ?m + 1 < 2 ^ 20" by (metis add_is_0 mod_less one_neq_zero)
    then have m: "?m = 2 ^ 20 - 1" using bound by simp
    have "unat (take_bit 20 (?c1 + 1)) = 1" using take_bit_succ [of ?c1] True by simp
    then show ?thesis using True m by (simp add: nextSignalNumber_def masked_take_bit Let_def)
  next
    case False
    then have "(?m + 1) mod 2 ^ 20 \<noteq> 0" using take_bit_succ [of c] by (simp add: word_unat_eq_iff)
    then have "?m + 1 < 2 ^ 20" using bound by (cases "?m + 1 = 2 ^ 20") auto
    then show ?thesis
      using False take_bit_succ [of c] by (simp add: nextSignalNumber_def masked_take_bit Let_def)
  qed
qed

lemma nth_signal_number:
  "unat (fst (nextSignalNumber (counter_after n))) = n mod (2 ^ 20 - 1) + 1"
proof (induction n)
  case 0
  show ?case using nextSignalNumber_step(1) [of 0] by simp
next
  case (Suc n)
  have "unat (fst (nextSignalNumber (counter_after (Suc n)))) =
      unat (fst (nextSignalNumber (counter_after n))) mod (2 ^ 20 - 1) + 1"
    using nextSignalNumber_step(1) [of "counter_after (Suc n)"] nextSignalNumber_step(2) [of "counter_after n"]
    by simp
  also have "\<dots> = (n mod (2 ^ 20 - 1) + 1) mod (2 ^ 20 - 1) + 1" by (simp only: Suc.IH)
  also have "\<dots> = Suc n mod (2 ^ 20 - 1) + 1" by (simp add: mod_simps)
  finally show ?case .
qed

section \<open>Ticks\<close>

lemma unat_times_bound: "unat (a :: u64) * unat b < 2 ^ 64 \<Longrightarrow> unat (a * b) = unat a * unat b"
  by (simp add: unat_word_ariths)

lemma unat_plus_bound: "unat (a :: u64) + unat b < 2 ^ 64 \<Longrightarrow> unat (a + b) = unat a + unat b"
  by (simp add: unat_word_ariths)

lemma ticks_split:
  fixes t p k :: nat
  assumes "0 < p"
  shows "t div p * k + t mod p * k div p = t * k div p"
proof -
  have "t * k = t div p * k * p + t mod p * k"
    by (metis (no_types, lifting) add_mult_distrib div_mult_mod_eq mult.assoc mult.commute)
  then have "t * k div p = (t div p * k * p + t mod p * k) div p" by simp
  then show ?thesis using assms by simp
qed

lemma nanoseconds_exact:
  assumes "p \<noteq> 0" and "unat p \<le> 18446744073" and "unat t div unat p * 1000000000 + 1000000000 < 2 ^ 64"
  shows "\<exists>ns. nanosecondsFromTimeTicks t p = Some ns \<and> unat ns = unat t * 1000000000 div unat p"
proof -
  have p: "0 < unat p" using assms(1) by (simp add: word_unat_eq_iff)
  have sub: "unat (t mod p * 1000000000) = unat t mod unat p * 1000000000"
  proof -
    have "unat t mod unat p < unat p" using p by simp
    then have "unat (t mod p) * unat (1000000000 :: u64) < 2 ^ 64"
      using assms(2) by (simp add: unat_mod)
    from unat_times_bound [OF this] show ?thesis by (simp add: unat_mod)
  qed
  have sec: "unat (t div p * 1000000000) = unat t div unat p * 1000000000"
    using assms(3) unat_times_bound [of "t div p" 1000000000] by (simp add: unat_div)
  have frac: "unat (t mod p * 1000000000 div p) = unat t mod unat p * 1000000000 div unat p"
    by (simp add: unat_div sub)
  have "unat t mod unat p * 1000000000 div unat p < 1000000000"
    using p by (simp add: div_less_iff_less_mult mult.commute)
  then have "unat (t div p * 1000000000 + t mod p * 1000000000 div p) =
      unat t div unat p * 1000000000 + unat t mod unat p * 1000000000 div unat p"
    using unat_plus_bound [of "t div p * 1000000000" "t mod p * 1000000000 div p"] sec frac assms(3) by simp
  then show ?thesis
    using ticks_split [OF p, of "unat t" 1000000000] assms(1) by (simp add: nanosecondsFromTimeTicks_def)
qed

section \<open>What the consumer makes of a description\<close>

lemma scalar_size_name: "scalar_size (dataType_name t) = Some (word_of_nat (dataType_size t))"
  by (cases t) (simp_all add: scalar_size_def)

lemma set_dataType_name: "set_dataType J d (dataType_name t) s = (Next, s\<lparr>s_valueType := getSampleType t\<rparr>)"
  by (cases t) (simp_all add: set_dataType_def)

lemma dataType_size_word: "word_of_nat (dataType_size t) \<noteq> (0 :: u64)"
  by (cases t) simp_all

lemma getDataTypeSize_scalar:
  assumes "json_laws J" and "j_is_object J d" and "j_find J d META_NAME = Some (j_of_string J name)"
    and "j_find J d META_DIMENSIONS = None" and "j_find J d META_DATATYPE = Some (j_of_string J (dataType_name t))"
  shows "getDataTypeSize J d = Inr (word_of_nat (dataType_size t))"
  using assms by (simp add: getDataTypeSize_def node_size_def dimension_count_def scalar_size_name json_simps)

text \<open>The three sections of a value's description, composed one after the other.\<close>

definition value_sections :: "'j json_lib \<Rightarrow> 'j value_signal \<Rightarrow> 'j \<Rightarrow> 'j" where
  "value_sections J s m = PostScaling_compose J (vs_postScaling s) (Range_compose J (vs_range s) (Unit_compose J (vs_unit s) m))"

text \<open>The values that have a description of their own.\<close>

definition describable :: "'j value_signal \<Rightarrow> bool" where
  "describable s \<longleftrightarrow> Unit_representable (vs_unit s) \<and>
     (PostScaling_isOneToOne (vs_postScaling s) \<longrightarrow> vs_postScaling s = PostScaling_clear) \<and>
     distinct (map fst (vs_relatedSignals s))"

lemma value_sections:
  assumes J: "json_laws J" and m: "composable J m"
    and none: "j_find J m META_UNIT = None" "j_find J m META_RANGE = None" "j_find J m META_POSTSCALING = None"
  shows "composable J (value_sections J s m)"
    and "k \<notin> {META_UNIT, META_RANGE, META_POSTSCALING} \<Longrightarrow> j_find J (value_sections J s m) k = j_find J m k"
    and "describable s \<Longrightarrow> Unit_parse J (value_sections J s m) Unit_clear = (Next, vs_unit s)"
    and "Range_parse J (value_sections J s m) Range_clear = (Next, vs_range s)"
    and "describable s \<Longrightarrow> PostScaling_parse J (value_sections J s m) PostScaling_clear = (Next, vs_postScaling s)"
proof -
  let ?u = "Unit_compose J (vs_unit s) m"
  let ?r = "Range_compose J (vs_range s) ?u"
  have c: "composable J ?u" "composable J ?r"
    by (rule Unit.compose_composable [OF J m], rule Range.compose_composable [OF J Unit.compose_composable [OF J m]])
  note frame = Unit.compose_frame [OF J m] Range.compose_frame [OF J c(1)] PostScaling.compose_frame [OF J c(2)]
  show "composable J (value_sections J s m)"
    unfolding value_sections_def by (rule PostScaling.compose_composable [OF J c(2)])
  show "k \<notin> {META_UNIT, META_RANGE, META_POSTSCALING} \<Longrightarrow> j_find J (value_sections J s m) k = j_find J m k"
    by (simp add: value_sections_def frame)
  show "describable s \<Longrightarrow> Unit_parse J (value_sections J s m) Unit_clear = (Next, vs_unit s)"
    by (rule Unit.parse_later [OF J m none(1)]) (simp_all add: describable_def value_sections_def frame)
  show "Range_parse J (value_sections J s m) Range_clear = (Next, vs_range s)"
    by (rule Range.parse_later [OF J c(1)]) (simp_all add: value_sections_def frame none)
  show "describable s \<Longrightarrow> PostScaling_parse J (value_sections J s m) PostScaling_clear = (Next, vs_postScaling s)"
    by (rule PostScaling.parse_later [OF J c(2)]) (simp_all add: describable_def value_sections_def frame none)
qed

lemma createMember_sections:
  "createMember J rule s = value_sections J s (j_put J (j_put J (j_put J (j_null J)
     META_NAME (j_of_string J (vs_valueName s))) META_DATATYPE (j_of_string J (dataType_name (vs_dataType s))))
     META_RULE (j_of_string J rule))"
  by (simp add: createMember_def value_sections_def Let_def)

lemma createMember_finds:
  assumes J: "json_laws J"
  defines "m rule s \<equiv> createMember J rule s"
  shows "j_is_object J (m rule s)" "composable J (m rule s)"
    and "j_find J (m rule s) META_NAME = Some (j_of_string J (vs_valueName s))"
    and "j_find J (m rule s) META_DATATYPE = Some (j_of_string J (dataType_name (vs_dataType s)))"
    and "j_find J (m rule s) META_RULE = Some (j_of_string J rule)"
    and "k \<notin> {META_NAME, META_DATATYPE, META_RULE, META_UNIT, META_RANGE, META_POSTSCALING} \<Longrightarrow> j_find J (m rule s) k = None"
    and "describable s \<Longrightarrow> Unit_parse J (m rule s) Unit_clear = (Next, vs_unit s)"
    and "Range_parse J (m rule s) Range_clear = (Next, vs_range s)"
    and "describable s \<Longrightarrow> PostScaling_parse J (m rule s) PostScaling_clear = (Next, vs_postScaling s)"
proof -
  let ?b = "j_put J (j_put J (j_put J (j_null J) META_NAME (j_of_string J (vs_valueName s)))
     META_DATATYPE (j_of_string J (dataType_name (vs_dataType s)))) META_RULE (j_of_string J rule)"
  have b: "composable J ?b" "j_find J ?b META_UNIT = None" "j_find J ?b META_RANGE = None" "j_find J ?b META_POSTSCALING = None"
    using J by (simp_all add: json_simps)
  note s = value_sections [OF J b, where s = s]
  show "composable J (m rule s)" "describable s \<Longrightarrow> Unit_parse J (m rule s) Unit_clear = (Next, vs_unit s)"
    "Range_parse J (m rule s) Range_clear = (Next, vs_range s)"
    "describable s \<Longrightarrow> PostScaling_parse J (m rule s) PostScaling_clear = (Next, vs_postScaling s)"
    unfolding m_def createMember_sections by (fact s)+
  show name: "j_find J (m rule s) META_NAME = Some (j_of_string J (vs_valueName s))"
    "j_find J (m rule s) META_DATATYPE = Some (j_of_string J (dataType_name (vs_dataType s)))"
    "j_find J (m rule s) META_RULE = Some (j_of_string J rule)"
    "k \<notin> {META_NAME, META_DATATYPE, META_RULE, META_UNIT, META_RANGE, META_POSTSCALING} \<Longrightarrow> j_find J (m rule s) k = None"
    unfolding m_def createMember_sections using J by (simp_all add: s(2) json_simps)
  show "j_is_object J (m rule s)"
    using name(1) find_non_object [OF J] by fastforce
qed

text \<open>Each block of the consumer on a member description, in terms of what it finds there.\<close>

lemma def_blocks_found:
  assumes J: "json_laws J"
  shows "j_find J d META_RULETYPE_LINEAR = None \<Longrightarrow> def_linear J d s = (Next, s)"
    and "j_find J d META_RULETYPE_LINEAR = Some ln \<Longrightarrow> j_find J ln META_DELTA = Some (j_of_uint64 J x) \<Longrightarrow>
      def_linear J d s = (Next, s\<lparr>s_linearDeltaJson := j_of_uint64 J x, s_linearDelta := x\<rparr>)"
    and "j_find J d META_RULETYPE_CONSTANT = None \<Longrightarrow> def_constant J d s = (Next, s)"
    and "j_find J d META_RULETYPE_CONSTANT = Some cn \<Longrightarrow> j_find J cn META_START = Some v \<Longrightarrow> j_is_number J v \<Longrightarrow>
      def_constant J d s = (Next, s\<lparr>s_constRuleStartJson := v\<rparr>)"
    and "j_find J d META_RULE = Some (j_of_string J r) \<Longrightarrow> def_rule J d s = set_rule r s"
    and "getDataTypeSize J d = Inr sz \<Longrightarrow> sz \<noteq> 0 \<Longrightarrow> def_size J d s = (Next, s\<lparr>s_valueSize := sz\<rparr>)"
    and "j_find J d META_NAME = Some (j_of_string J nm) \<Longrightarrow> def_name J d s = (Next, s\<lparr>s_memberName := nm\<rparr>)"
    and "j_find J d META_DATATYPE = Some (j_of_string J t) \<Longrightarrow> def_dataType J d s = set_dataType J d t s"
    and "Unit_parse J d (s_unit s) = (Next, u) \<Longrightarrow>
      def_unit J d s = (Next, if quantity u = META_TIME then s\<lparr>s_unit := u, s_isTime := True\<rparr> else s\<lparr>s_unit := u\<rparr>)"
    and "j_find J d META_RESOLUTION = None \<Longrightarrow> def_resolution J d s = (Next, s)"
    and "Resolution_parse J d (s_resolution s) = (Ret 1, r') \<Longrightarrow> unit_id (s_unit s) = UNIT_ID_SECONDS \<Longrightarrow> numerator r' \<noteq> 0 \<Longrightarrow>
      def_resolution J d s = (Next, s\<lparr>s_resolution := r', s_timeBaseFrequency := denominator r' div numerator r'\<rparr>)"
    and "j_find J d META_ABSOLUTE_REFERENCE = None \<Longrightarrow> def_absoluteReference J d s = (Next, s)"
    and "j_find J d META_ABSOLUTE_REFERENCE = Some (j_of_string J e) \<Longrightarrow> def_absoluteReference J d s = (Next, s\<lparr>s_epoch := e\<rparr>)"
    and "Range_parse J d (s_range s) = (Next, rg) \<Longrightarrow> PostScaling_parse J d (s_postScaling s) = (Next, ps) \<Longrightarrow>
      def_scaling J d s = (Next, s\<lparr>s_range := rg, s_postScaling := ps\<rparr>)"
    and "j_find J params META_RELATEDSIGNALS = None \<Longrightarrow> def_related J params s = (Next, s)"
  using J
  by (simp_all add: def_linear_def def_constant_def def_rule_def def_size_def def_name_def def_dataType_def def_unit_def
      def_resolution_def Resolution_parse_def def_absoluteReference_def def_scaling_def def_related_def
      if_found_def zoom_def Let_def json_simps)

lemma add_related_doc:
  "json_laws J \<Longrightarrow> add_related J (related_doc J r) s = (Next, s\<lparr>s_related := (s_related s)(fst r \<mapsto> snd r)\<rparr>)"
  by (simp add: add_related_def related_doc_def json_simps)

lemma run_related:
  assumes J: "json_laws J"
  shows "run_blocks (map (add_related J) (map (related_doc J) rs)) s =
    (Next, s\<lparr>s_related := foldl (\<lambda>m r. m(fst r \<mapsto> snd r)) (s_related s) rs\<rparr>)"
  by (induction rs arbitrary: s) (simp_all add: add_related_doc [OF J])

lemma foldl_updates:
  "distinct (map fst rs) \<Longrightarrow> foldl (\<lambda>m r. m(fst r \<mapsto> snd r)) m rs = m ++ map_of rs"
proof (induction rs arbitrary: m)
  case (Cons r rs)
  have "map_of rs (fst r) = None" using Cons.prems by (simp add: map_of_eq_None_iff)
  then have "m(fst r \<mapsto> snd r) ++ map_of rs = m ++ map_of (r # rs)"
    by (intro ext) (cases r, auto simp: map_add_def split: option.splits)
  moreover have "foldl (\<lambda>m r. m(fst r \<mapsto> snd r)) m (r # rs) = m(fst r \<mapsto> snd r) ++ map_of rs"
    unfolding foldl_Cons using Cons.prems by (intro Cons.IH) simp
  ultimately show ?case by (rule trans [rotated])
qed simp

lemma def_related_found:
  assumes J: "json_laws J" and "j_find J params META_RELATEDSIGNALS = Some v" and "j_is_array J v"
    and "j_items J v = map (related_doc J) rs" and "distinct (map fst rs)"
  shows "def_related J params s = (Next, s\<lparr>s_related := map_of rs\<rparr>)"
proof -
  have "foldl (\<lambda>m r. m(fst r \<mapsto> snd r)) Map.empty rs = map_of rs"
    using foldl_updates [OF assms(5), of Map.empty] by simp
  then show ?thesis
    using assms(2-4) run_related [OF J, of rs] by (simp add: def_related_def if_found_def)
qed

text \<open>The parameters of a description: what the consumer finds under \<open>params\<close>.\<close>

lemma signal_doc_finds:
  assumes "json_laws J"
  shows "composable J (signal_doc J s)" "j_find J (signal_doc J s) METHOD = Some (j_of_string J META_METHOD_SIGNAL)"
    "j_member J (signal_doc J s) PARAMS = j_put J (j_null J) META_TABLEID (j_of_string J (bs_tableId s))"
  using assms by (simp_all add: signal_doc_def json_simps)

definition value_params :: "'j json_lib \<Rightarrow> 'j value_signal \<Rightarrow> 'j" where
  "value_params J s =
     (let p1 = j_put J (j_null J) META_TABLEID (j_of_string J (bs_tableId s));
          p2 = (if j_is_null J (bs_interpretation s) then p1 else j_put J p1 META_INTERPRETATION (bs_interpretation s));
          p3 = j_put J p2 META_DEFINITION (value_member J s)
      in (case vs_rule s of Synchronous i \<Rightarrow> j_put J p3 META_VALUEINDEX (j_of_uint64 J i) | _ \<Rightarrow> p3))"

lemma value_params_finds:
  assumes J: "json_laws J"
  shows "composable J (value_params J s)"
    and "j_find J (value_params J s) META_TABLEID = Some (j_of_string J (bs_tableId s))"
    and "j_find J (value_params J s) META_INTERPRETATION =
      (if j_is_null J (bs_interpretation s) then None else Some (bs_interpretation s))"
    and "j_find J (value_params J s) META_DEFINITION = Some (value_member J s)"
    and "j_find J (value_params J s) META_VALUEINDEX =
      (case vs_rule s of Synchronous i \<Rightarrow> Some (j_of_uint64 J i) | _ \<Rightarrow> None)"
    and "j_find J (value_params J s) META_RELATEDSIGNALS = None"
  using J by (simp_all add: value_params_def Let_def json_simps split: value_rule.splits)

lemma value_meta_finds:
  assumes J: "json_laws J"
  defines "params s \<equiv> composeRelatedSignals J s (value_params J s)"
  shows "j_find J (value_meta J s) METHOD = Some (j_of_string J META_METHOD_SIGNAL)"
    and "j_find J (value_meta J s) PARAMS = Some (params s)"
proof -
  note d = signal_doc_finds [OF J, of s]
  let ?d1 = "put_interpretation J s (signal_doc J s)"
  have d1: "composable J ?d1" "composable J (j_member J ?d1 PARAMS)"
    "j_find J ?d1 METHOD = Some (j_of_string J META_METHOD_SIGNAL)"
    using J d by (simp_all add: put_interpretation_def json_simps)
  let ?d2 = "j_put2 J ?d1 PARAMS META_DEFINITION (value_member J s)"
  have d2: "composable J ?d2" "j_find J ?d2 METHOD = Some (j_of_string J META_METHOD_SIGNAL)"
    using J d1 by (simp_all add: json_simps)
  let ?d3 = "case vs_rule s of Synchronous i \<Rightarrow> j_put2 J ?d2 PARAMS META_VALUEINDEX (j_of_uint64 J i) | _ \<Rightarrow> ?d2"
  have d3: "composable J ?d3" "j_find J ?d3 METHOD = Some (j_of_string J META_METHOD_SIGNAL)"
    "j_member J ?d3 PARAMS = value_params J s"
    using J d d1 d2
    by (simp_all add: value_params_def put_interpretation_def Let_def json_simps split: value_rule.splits)
  show "j_find J (value_meta J s) METHOD = Some (j_of_string J META_METHOD_SIGNAL)"
    "j_find J (value_meta J s) PARAMS = Some (params s)"
    using J d3 by (simp_all add: value_meta_def Let_def params_def json_simps)
qed

lemma related_finds:
  assumes J: "json_laws J"
  defines "p s \<equiv> composeRelatedSignals J s (value_params J s)"
  shows "k \<noteq> META_RELATEDSIGNALS \<Longrightarrow> j_find J (p s) k = j_find J (value_params J s) k"
    and "distinct (map fst (vs_relatedSignals s)) \<Longrightarrow> s_related c = Map.empty \<Longrightarrow>
      def_related J (p s) c = (Next, c\<lparr>s_related := map_of (vs_relatedSignals s)\<rparr>)"
proof -
  have "pushable J (j_member J (value_params J s) META_RELATEDSIGNALS)"
    using J value_params_finds(6) [OF J, of s] by (simp add: j_member_def json_simps)
  note items = push_items [OF J value_params_finds(1) [OF J] this, of "related_doc J" "vs_relatedSignals s"]
  have member: "j_items J (j_member J (value_params J s) META_RELATEDSIGNALS) = []"
    using J value_params_finds(6) [OF J, of s] by (simp add: j_member_def json_simps)
  show "k \<noteq> META_RELATEDSIGNALS \<Longrightarrow> j_find J (p s) k = j_find J (value_params J s) k"
    using items by (simp add: p_def composeRelatedSignals_def)
  show "def_related J (p s) c = (Next, c\<lparr>s_related := map_of (vs_relatedSignals s)\<rparr>)"
    if "distinct (map fst (vs_relatedSignals s))" and "s_related c = Map.empty"
  proof (cases "vs_relatedSignals s = []")
    case True
    then have "def_related J (p s) c = (Next, c)"
      using def_blocks_found(15) [OF J value_params_finds(6) [OF J, of s]]
      by (simp add: p_def composeRelatedSignals_def)
    with True that(2) show ?thesis by (cases c) simp
  next
    case False
    then show ?thesis
      using items member def_related_found [OF J _ _ _ that(1), of "p s"]
      by (simp add: p_def composeRelatedSignals_def)
  qed
qed

section \<open>Descriptions of value signals\<close>

text \<open>The consumer's signal that a description stands for.\<close>

definition described_value :: "'j json_lib \<Rightarrow> u32 \<Rightarrow> 'j value_signal \<Rightarrow> 'j signal" where
  "described_value J n s = (SubscribedSignal_init J n)\<lparr>
     s_tableId := bs_tableId s,
     s_linearValueIndex := (case vs_rule s of Synchronous i \<Rightarrow> i | _ \<Rightarrow> 0),
     s_interpretation := (if j_is_null J (bs_interpretation s) then j_null J else bs_interpretation s),
     s_constRuleStartJson := (case vs_rule s of
        Constant_rule v \<Rightarrow> if j_is_null J v then j_null J else v | _ \<Rightarrow> j_null J),
     s_rule := (case vs_rule s of Constant_rule v \<Rightarrow> RULETYPE_CONSTANT | _ \<Rightarrow> RULETYPE_EXPLICIT),
     s_valueSize := word_of_nat (dataType_size (vs_dataType s)),
     s_memberName := vs_valueName s,
     s_valueType := getSampleType (vs_dataType s),
     s_unit := vs_unit s,
     s_isTime := (quantity (vs_unit s) = META_TIME),
     s_range := vs_range s,
     s_postScaling := vs_postScaling s,
     s_related := map_of (vs_relatedSignals s)\<rparr>"

definition rule_name :: "'j value_signal \<Rightarrow> string" where
  "rule_name s = (case vs_rule s of Constant_rule v \<Rightarrow> META_RULETYPE_CONSTANT | _ \<Rightarrow> META_RULETYPE_EXPLICIT)"

definition start_ok :: "'j json_lib \<Rightarrow> 'j value_signal \<Rightarrow> bool" where
  "start_ok J s \<longleftrightarrow> (case vs_rule s of Constant_rule v \<Rightarrow> j_is_null J v \<or> j_is_number J v | _ \<Rightarrow> True)"

text \<open>All three classes of value signals describe themselves by \<open>createMember\<close>.\<close>

lemma value_member_finds:
  assumes J: "json_laws J"
  defines "m s \<equiv> value_member J s"
  shows "j_is_object J (m s)"
    and "k \<notin> {META_RULETYPE_CONSTANT} \<Longrightarrow> j_find J (m s) k = j_find J (createMember J (rule_name s) s) k"
    and "start_ok J s \<Longrightarrow> s_constRuleStartJson c = j_null J \<Longrightarrow> def_constant J (m s) c =
      (Next, c\<lparr>s_constRuleStartJson := (case vs_rule s of
        Constant_rule v \<Rightarrow> if j_is_null J v then j_null J else v | _ \<Rightarrow> j_null J)\<rparr>)"
proof -
  note f = createMember_finds [OF J]
  have none: "j_find J (createMember J r s) META_RULETYPE_CONSTANT = None" for r by (simp add: f(6))
  then have member: "j_member J (createMember J r s) META_RULETYPE_CONSTANT = j_null J" for r
    by (simp add: j_member_def)
  show "j_is_object J (m s)"
    using J f(1,2) by (simp add: m_def value_member_def constant_member_def Let_def json_simps split: value_rule.splits)
  show "k \<notin> {META_RULETYPE_CONSTANT} \<Longrightarrow> j_find J (m s) k = j_find J (createMember J (rule_name s) s) k"
    using J f(2)
    by (simp add: m_def value_member_def constant_member_def rule_name_def Let_def json_simps split: value_rule.splits)
  have same: "c\<lparr>s_constRuleStartJson := j_null J\<rparr> = c" if "s_constRuleStartJson c = j_null J" for c :: "'a signal"
    using that by (cases c) simp
  show "def_constant J (m s) c = (Next, c\<lparr>s_constRuleStartJson := (case vs_rule s of
        Constant_rule v \<Rightarrow> if j_is_null J v then j_null J else v | _ \<Rightarrow> j_null J)\<rparr>)"
    if "start_ok J s" and "s_constRuleStartJson c = j_null J"
    using that J f(2) none member same [OF that(2)]
    by (auto simp: m_def value_member_def constant_member_def start_ok_def Let_def def_constant_def if_found_def json_simps
        split: value_rule.splits)
qed

lemma value_definition_run:
  assumes J: "json_laws J" and s: "describable s" "start_ok J s"
    and c: "s_unit c = Unit_clear" "s_range c = Range_clear" "s_postScaling c = PostScaling_clear"
      "s_constRuleStartJson c = j_null J" "s_related c = Map.empty" "\<not> s_isTime c"
  shows "run_blocks (definition_blocks J (composeRelatedSignals J s (value_params J s)) (value_member J s)) c =
    (Next, c\<lparr>s_constRuleStartJson := (case vs_rule s of
          Constant_rule v \<Rightarrow> if j_is_null J v then j_null J else v | _ \<Rightarrow> j_null J),
       s_rule := (case vs_rule s of Constant_rule v \<Rightarrow> RULETYPE_CONSTANT | _ \<Rightarrow> RULETYPE_EXPLICIT),
       s_valueSize := word_of_nat (dataType_size (vs_dataType s)), s_memberName := vs_valueName s,
       s_valueType := getSampleType (vs_dataType s), s_unit := vs_unit s,
       s_isTime := (quantity (vs_unit s) = META_TIME), s_range := vs_range s, s_postScaling := vs_postScaling s,
       s_related := map_of (vs_relatedSignals s)\<rparr>)"
proof -
  let ?m = "value_member J s" and ?c = "createMember J (rule_name s) s"
  note m = value_member_finds [OF J, where s = s] and f = createMember_finds [OF J, where rule = "rule_name s" and s = s]
  have find: "j_find J ?m k = j_find J ?c k" if "k \<noteq> META_RULETYPE_CONSTANT" for k using m(2) that by simp
  have size: "getDataTypeSize J ?m = Inr (word_of_nat (dataType_size (vs_dataType s)))"
    using J m(1) f by (intro getDataTypeSize_scalar) (simp_all add: find)
  have unit: "Unit_parse J ?m Unit_clear = (Next, vs_unit s)"
    using Unit.parse_local [of J ?m ?c] f(7) s(1) by (simp add: find)
  have range: "Range_parse J ?m Range_clear = (Next, vs_range s)"
    using Range.parse_local [of J ?m ?c] f(8) by (simp add: find)
  have scaling: "PostScaling_parse J ?m PostScaling_clear = (Next, vs_postScaling s)"
    using PostScaling.parse_local [of J ?m ?c] f(9) s(1) by (simp add: find)
  have related: "distinct (map fst (vs_relatedSignals s))" using s(1) by (simp add: describable_def)
  have rule: "set_rule (rule_name s) x = (Next, x\<lparr>s_rule := (case vs_rule s of
      Constant_rule v \<Rightarrow> RULETYPE_CONSTANT | _ \<Rightarrow> RULETYPE_EXPLICIT)\<rparr>)" for x :: "'a signal"
    by (cases "vs_rule s") (simp_all add: set_rule_def rule_name_def)
  have time: "x\<lparr>s_isTime := False\<rparr> = x" if "\<not> s_isTime x" for x :: "'a signal" using that by (cases x) simp
  note blocks = def_blocks_found [OF J]
  show ?thesis
    unfolding definition_blocks_def
    using c f(3,4,5,6) size unit range scaling dataType_size_word m(3) [OF s(2)] related_finds(2) [OF J related]
    by (simp add: blocks find rule set_dataType_name time [symmetric])
qed

lemma value_described:
  assumes J: "json_laws J" and s: "describable s" "start_ok J s"
    and c: "c = (SubscribedSignal_init J n)\<lparr>s_id := i\<rparr>"
  shows "processSignalMetaInformation J META_METHOD_SIGNAL (composeRelatedSignals J s (value_params J s)) c =
    (Inr 0, (described_value J n s)\<lparr>s_id := i\<rparr>)"
proof -
  let ?p = "composeRelatedSignals J s (value_params J s)"
  note p = value_params_finds [OF J, of s] and r = related_finds(1) [OF J, of _ s]
  let ?c1 = "c\<lparr>s_tableId := bs_tableId s\<rparr>"
  let ?c2 = "?c1\<lparr>s_linearValueIndex := (case vs_rule s of Synchronous i \<Rightarrow> i | _ \<Rightarrow> 0)\<rparr>"
  let ?c3 = "?c2\<lparr>s_interpretation := (if j_is_null J (bs_interpretation s) then j_null J else bs_interpretation s)\<rparr>"
  have table: "meta_tableId J ?p c = (Next, ?c1)"
    using J p(2) r by (simp add: meta_tableId_def if_found_def assign_text_def json_simps)
  have index: "meta_valueIndex J ?p ?c1 = (Next, ?c2)"
    using J p(5) r
    by (simp add: meta_valueIndex_def if_found_def c SubscribedSignal_init_def json_simps split: value_rule.splits)
  have interp: "meta_interpretation J ?p ?c2 = (Next, ?c3)"
    using J p(3) r by (simp add: meta_interpretation_def if_found_def c SubscribedSignal_init_def json_simps)
  have "meta_definition J ?p ?c3 = (case run_blocks (definition_blocks J ?p (value_member J s)) ?c3 of
      (fl, x) \<Rightarrow> (if fl = Raise Json_exception then Ret (-1) else fl, x))"
    using J p(4) r by (simp add: meta_definition_def if_found_def try_catch_def)
  also have "run_blocks (definition_blocks J ?p (value_member J s)) ?c3 = (Next, (described_value J n s)\<lparr>s_id := i\<rparr>)"
    by (subst value_definition_run [OF J s]) (simp_all add: c SubscribedSignal_init_def described_value_def)
  finally have "meta_definition J ?p ?c3 = (Next, (described_value J n s)\<lparr>s_id := i\<rparr>)" by simp
  then show ?thesis
    using table index interp by (simp add: processSignalMetaInformation_def meta_signal_blocks_def)
qed

section \<open>Descriptions of domain signals\<close>

definition described_domain :: "'j json_lib \<Rightarrow> u32 \<Rightarrow> 'j domain_signal \<Rightarrow> 'j signal" where
  "described_domain J n s = (SubscribedSignal_init J n)\<lparr>
     s_tableId := bs_tableId s,
     s_interpretation := (if j_is_null J (bs_interpretation s) then j_null J else bs_interpretation s),
     s_linearDeltaJson := (case ds_rule s of Linear_time d \<Rightarrow> j_of_uint64 J d | Explicit_time \<Rightarrow> j_null J),
     s_linearDelta := getTimeDelta s,
     s_rule := getRuleType s,
     s_valueSize := 8,
     s_memberName := META_TIME,
     s_valueType := SAMPLETYPE_U64,
     s_unit := ds_unitSecond s,
     s_isTime := True,
     s_resolution := ds_resolution s,
     s_timeBaseFrequency := denominator (ds_resolution s) div numerator (ds_resolution s),
     s_epoch := ds_epoch s\<rparr>"

text \<open>A domain signal as the constructors and setters leave it, with a usable rate.\<close>

definition domain_ok :: "'j domain_signal \<Rightarrow> bool" where
  "domain_ok s \<longleftrightarrow> ds_unitSecond s = unit_second \<and> Resolution_valid (ds_resolution s) \<and> ds_rule s \<noteq> Linear_time 0"

lemma unit_second_representable: "Unit_representable unit_second"
  by (simp add: Unit_representable_def unit_second_def UNIT_ID_SECONDS_def UNIT_ID_NONE_def)

text \<open>A domain member before and after its unit is composed.\<close>

definition domain_base :: "'j json_lib \<Rightarrow> 'j domain_signal \<Rightarrow> 'j" where
  "domain_base J s = (case ds_rule s of
      Linear_time d \<Rightarrow> j_put J (j_put J (j_put2 J (j_put J (j_put J (j_null J) META_NAME (j_of_string J META_TIME))
        META_RULE (j_of_string J META_RULETYPE_LINEAR)) META_RULETYPE_LINEAR META_DELTA (j_of_uint64 J d))
        META_DATATYPE (j_of_string J DATA_TYPE_UINT64)) META_ABSOLUTE_REFERENCE (j_of_string J (ds_epoch s))
    | Explicit_time \<Rightarrow> j_put J (j_put J (j_put J (j_null J) META_NAME (j_of_string J META_TIME))
        META_RULE (j_of_string J META_RULETYPE_EXPLICIT)) META_DATATYPE (j_of_string J DATA_TYPE_UINT64))"

definition domain_with_unit :: "'j json_lib \<Rightarrow> 'j domain_signal \<Rightarrow> 'j" where
  "domain_with_unit J s = (case ds_rule s of Linear_time d \<Rightarrow> Unit_compose J unit_second (domain_base J s)
    | Explicit_time \<Rightarrow> j_put J (Unit_compose J unit_second (domain_base J s)) META_ABSOLUTE_REFERENCE (j_of_string J (ds_epoch s)))"

lemma domain_member_shape:
  "domain_ok s \<Longrightarrow> domain_member J s = Resolution_compose J (ds_resolution s) (domain_with_unit J s)"
  by (simp add: domain_member_def linear_member_def explicit_member_def domain_with_unit_def domain_base_def domain_ok_def Let_def
      split: domain_rule.splits)

lemma domain_base_finds:
  assumes J: "json_laws J"
  shows "composable J (domain_base J s)" "j_find J (domain_base J s) META_UNIT = None" "j_find J (domain_base J s) META_RESOLUTION = None"
  using J by (simp_all add: domain_base_def json_simps split: domain_rule.splits)

lemma domain_with_unit_finds:
  fixes J :: "'j json_lib" and s :: "'j domain_signal"
  assumes J: "json_laws J"
  defines "b \<equiv> domain_base J s" and "u \<equiv> domain_with_unit J s"
  shows "composable J u" and "j_find J u META_UNIT = j_find J (Unit_compose J unit_second b) META_UNIT"
    and "k \<noteq> META_UNIT \<Longrightarrow> k \<noteq> META_ABSOLUTE_REFERENCE \<Longrightarrow> j_find J u k = j_find J b k"
    and "j_find J u META_ABSOLUTE_REFERENCE = Some (j_of_string J (ds_epoch s))"
proof -
  note b = domain_base_finds(1) [OF J, of s, folded b_def]
  note uc = Unit.compose_composable [OF J b, of unit_second] and uf = Unit.compose_frame [OF J b]
  show "composable J u" "j_find J u META_UNIT = j_find J (Unit_compose J unit_second b) META_UNIT"
    using J uc by (simp_all add: u_def domain_with_unit_def b_def [symmetric] json_simps split: domain_rule.splits)
  show "j_find J u k = j_find J b k" if "k \<noteq> META_UNIT" "k \<noteq> META_ABSOLUTE_REFERENCE"
    using J uc uf that by (simp add: u_def domain_with_unit_def b_def [symmetric] json_simps split: domain_rule.splits)
  show "j_find J u META_ABSOLUTE_REFERENCE = Some (j_of_string J (ds_epoch s))"
  proof (cases "ds_rule s")
    case (Linear_time d)
    then have "j_find J b META_ABSOLUTE_REFERENCE = Some (j_of_string J (ds_epoch s))"
      using J by (simp add: b_def domain_base_def json_simps)
    then show ?thesis using uf Linear_time by (simp add: u_def domain_with_unit_def b_def [symmetric])
  next
    case Explicit_time
    then show ?thesis using J uc by (simp add: u_def domain_with_unit_def b_def [symmetric] json_simps)
  qed
qed

lemma domain_member_finds:
  assumes J: "json_laws J" and ok: "domain_ok s"
  defines "m \<equiv> domain_member J s"
  shows "j_is_object J m" and "j_find J m META_NAME = Some (j_of_string J META_TIME)"
    and "j_find J m META_DATATYPE = Some (j_of_string J DATA_TYPE_UINT64)"
    and "j_find J m META_RULE = Some (j_of_string J
      (case ds_rule s of Linear_time d \<Rightarrow> META_RULETYPE_LINEAR | Explicit_time \<Rightarrow> META_RULETYPE_EXPLICIT))"
    and "j_find J m META_RULETYPE_LINEAR =
      (case ds_rule s of Linear_time d \<Rightarrow> Some (j_put J (j_null J) META_DELTA (j_of_uint64 J d)) | Explicit_time \<Rightarrow> None)"
    and "j_find J m META_ABSOLUTE_REFERENCE = Some (j_of_string J (ds_epoch s))"
    and "k \<in> {META_RULETYPE_CONSTANT, META_DIMENSIONS, META_RANGE, META_POSTSCALING} \<Longrightarrow> j_find J m k = None"
    and "Unit_parse J m Unit_clear = (Next, unit_second)"
    and "Resolution_parse J m Resolution_default = (Ret 1, ds_resolution s)"
proof -
  define b u where "b = domain_base J s" and "u = domain_with_unit J s"
  note b = domain_base_finds [OF J, of s, folded b_def]
    and u = domain_with_unit_finds(1,2) [OF J, of s, folded b_def u_def]
    and ub = domain_with_unit_finds(3) [OF J, where s = s, folded b_def u_def]
    and ua = domain_with_unit_finds(4) [OF J, of s, folded u_def]
  note m = domain_member_shape [OF ok, of J, folded m_def u_def] and b_def = b_def [unfolded domain_base_def]
  note rf = Resolution.compose_frame [OF J u(1)]
  have res: "Resolution_valid (ds_resolution s)" and u3: "j_find J u META_RESOLUTION = None"
    using ok b(3) ub [of META_RESOLUTION] by (simp_all add: domain_ok_def)
  have mu: "j_find J m k = j_find J u k" if "k \<noteq> META_RESOLUTION" for k
    using that by (simp add: m rf)
  show name: "j_find J m META_NAME = Some (j_of_string J META_TIME)"
    using J by (simp add: mu ub json_simps) (simp add: b_def json_simps split: domain_rule.splits)
  show "j_find J m META_DATATYPE = Some (j_of_string J DATA_TYPE_UINT64)"
    using J by (simp add: mu ub json_simps) (simp add: b_def json_simps split: domain_rule.splits)
  show "j_find J m META_RULE = Some (j_of_string J
      (case ds_rule s of Linear_time d \<Rightarrow> META_RULETYPE_LINEAR | Explicit_time \<Rightarrow> META_RULETYPE_EXPLICIT))"
    using J by (simp add: mu ub json_simps) (simp add: b_def json_simps split: domain_rule.splits)
  show "j_find J m META_RULETYPE_LINEAR =
      (case ds_rule s of Linear_time d \<Rightarrow> Some (j_put J (j_null J) META_DELTA (j_of_uint64 J d)) | Explicit_time \<Rightarrow> None)"
    using J by (simp add: mu ub json_simps) (simp add: b_def json_simps split: domain_rule.splits)
  show "j_find J m META_ABSOLUTE_REFERENCE = Some (j_of_string J (ds_epoch s))"
    by (simp add: mu ua json_simps)
  show "j_find J m k = None" if "k \<in> {META_RULETYPE_CONSTANT, META_DIMENSIONS, META_RANGE, META_POSTSCALING}"
    using J that by (auto simp: mu ub json_simps) (simp_all add: b_def json_simps split: domain_rule.splits)
  show "j_is_object J m" using name find_non_object [OF J] by fastforce
  show "Unit_parse J m Unit_clear = (Next, unit_second)"
    by (rule Unit.parse_later [OF J b(1,2) unit_second_representable]) (simp add: m rf u(2))
  show "Resolution_parse J m Resolution_default = (Ret 1, ds_resolution s)"
    unfolding m by (rule Resolution.parse_compose [OF J u(1) u3 res])
qed

definition domain_params :: "'j json_lib \<Rightarrow> 'j domain_signal \<Rightarrow> 'j" where
  "domain_params J s =
     (let p = j_put J (j_put J (j_null J) META_TABLEID (j_of_string J (bs_tableId s))) META_DEFINITION (domain_member J s)
      in if j_is_null J (bs_interpretation s) then p else j_put J p META_INTERPRETATION (bs_interpretation s))"

lemma domain_meta_finds:
  assumes J: "json_laws J"
  shows "j_find J (domain_meta J s) METHOD = Some (j_of_string J META_METHOD_SIGNAL)"
    and "j_find J (domain_meta J s) PARAMS = Some (domain_params J s)"
  using J signal_doc_finds [OF J, of s]
  by (simp_all add: domain_meta_def put_interpretation_def domain_params_def Let_def json_simps)

lemma domain_params_finds:
  assumes J: "json_laws J"
  shows "j_find J (domain_params J s) META_TABLEID = Some (j_of_string J (bs_tableId s))"
    and "j_find J (domain_params J s) META_INTERPRETATION =
      (if j_is_null J (bs_interpretation s) then None else Some (bs_interpretation s))"
    and "j_find J (domain_params J s) META_DEFINITION = Some (domain_member J s)"
    and "j_find J (domain_params J s) META_VALUEINDEX = None"
    and "j_find J (domain_params J s) META_RELATEDSIGNALS = None"
  using J by (simp_all add: domain_params_def Let_def json_simps)

lemma domain_definition_run:
  assumes J: "json_laws J" and s: "domain_ok s"
    and c: "s_unit c = Unit_clear" "s_range c = Range_clear" "s_postScaling c = PostScaling_clear"
      "s_resolution c = Resolution_default" "s_linearDeltaJson c = j_null J" "s_linearDelta c = 0"
  shows "run_blocks (definition_blocks J (domain_params J s) (domain_member J s)) c =
    (Next, c\<lparr>s_linearDeltaJson := (case ds_rule s of Linear_time d \<Rightarrow> j_of_uint64 J d | Explicit_time \<Rightarrow> j_null J),
       s_linearDelta := getTimeDelta s, s_rule := getRuleType s, s_valueSize := 8, s_memberName := META_TIME,
       s_valueType := SAMPLETYPE_U64, s_unit := unit_second, s_isTime := True, s_resolution := ds_resolution s,
       s_timeBaseFrequency := denominator (ds_resolution s) div numerator (ds_resolution s), s_epoch := ds_epoch s\<rparr>)"
proof -
  let ?m = "domain_member J s"
  note m = domain_member_finds [OF J s] and p = domain_params_finds [OF J, of s] and blocks = def_blocks_found [OF J]
  have size: "getDataTypeSize J ?m = Inr 8"
    using getDataTypeSize_scalar [OF J m(1,2), of Dt_uint64] m(3) m(7) [of META_DIMENSIONS] by simp
  have type: "set_dataType J ?m DATA_TYPE_UINT64 x = (Next, x\<lparr>s_valueType := SAMPLETYPE_U64\<rparr>)" for x :: "'a signal"
    using set_dataType_name [of J ?m Dt_uint64] by simp
  have none: "Range_parse J ?m Range_clear = (Next, Range_clear)" "PostScaling_parse J ?m PostScaling_clear = (Next, PostScaling_clear)"
    using m(7) [of META_RANGE] m(7) [of META_POSTSCALING]
    by (simp_all add: Range_parse_def PostScaling_parse_def if_found_def)
  have res: "numerator (ds_resolution s) \<noteq> 0" using s by (simp add: domain_ok_def Resolution_valid_def)
  have unit: "quantity unit_second = META_TIME" "unit_id unit_second = UNIT_ID_SECONDS"
    by (simp_all add: unit_second_def)
  have rest: "j_find J ?m META_RULETYPE_CONSTANT = None" using m(7) [of META_RULETYPE_CONSTANT] by simp
  have start: "def_linear J ?m c = (Next, c\<lparr>s_linearDeltaJson := (case ds_rule s of
      Linear_time d \<Rightarrow> j_of_uint64 J d | Explicit_time \<Rightarrow> j_null J), s_linearDelta := getTimeDelta s\<rparr>)"
  proof (cases "ds_rule s")
    case (Linear_time d)
    with J m(5) blocks(2) [where x = d and d = ?m and s = c] show ?thesis by (simp add: getTimeDelta_def json_simps)
  next
    case Explicit_time
    have "c\<lparr>s_linearDeltaJson := j_null J, s_linearDelta := 0\<rparr> = c" using c(5,6) by (intro signal.equality) simp_all
    with m(5) Explicit_time show ?thesis by (simp add: blocks(1) getTimeDelta_def)
  qed
  have rule: "def_rule J ?m x = (Next, x\<lparr>s_rule := getRuleType s\<rparr>)" if "s_linearDelta x = getTimeDelta s" for x
  proof (cases "ds_rule s")
    case (Linear_time d)
    have "def_rule J ?m x = set_rule META_RULETYPE_LINEAR x"
      by (rule blocks(5)) (simp only: m(4) Linear_time domain_rule.case)
    moreover have "s_linearDelta x \<noteq> 0" using that s Linear_time by (simp add: getTimeDelta_def domain_ok_def)
    ultimately show ?thesis by (simp add: set_rule_def getRuleType_def Linear_time)
  next
    case Explicit_time
    have "def_rule J ?m x = set_rule META_RULETYPE_EXPLICIT x"
      by (rule blocks(5)) (simp only: m(4) Explicit_time domain_rule.case)
    then show ?thesis by (simp add: set_rule_def getRuleType_def Explicit_time)
  qed
  show ?thesis
    unfolding definition_blocks_def
    by (simp add: blocks(3,6-9,11,13-15) start rule rest type c m(2,3,6,8,9) size none res unit p(5))
qed


lemma domain_described:
  assumes J: "json_laws J" and s: "domain_ok s" and c: "c = (SubscribedSignal_init J n)\<lparr>s_id := i\<rparr>"
  shows "processSignalMetaInformation J META_METHOD_SIGNAL (domain_params J s) c =
    (Inr 0, (described_domain J n s)\<lparr>s_id := i\<rparr>)"
proof -
  let ?p = "domain_params J s"
  note p = domain_params_finds [OF J, of s]
  let ?c1 = "c\<lparr>s_tableId := bs_tableId s\<rparr>"
  let ?c2 = "?c1\<lparr>s_interpretation := (if j_is_null J (bs_interpretation s) then j_null J else bs_interpretation s)\<rparr>"
  have table: "meta_tableId J ?p c = (Next, ?c1)"
    using J p(1) by (simp add: meta_tableId_def if_found_def assign_text_def json_simps)
  have index: "meta_valueIndex J ?p ?c1 = (Next, ?c1)"
    using p(4) by (simp add: meta_valueIndex_def if_found_def)
  have interp: "meta_interpretation J ?p ?c1 = (Next, ?c2)"
    using p(2) by (simp add: meta_interpretation_def if_found_def c SubscribedSignal_init_def)
  have unit: "ds_unitSecond s = unit_second" using s by (simp add: domain_ok_def)
  have "meta_definition J ?p ?c2 = (case run_blocks (definition_blocks J ?p (domain_member J s)) ?c2 of
      (fl, x) \<Rightarrow> (if fl = Raise Json_exception then Ret (-1) else fl, x))"
    using p(3) by (simp add: meta_definition_def if_found_def try_catch_def)
  also have "run_blocks (definition_blocks J ?p (domain_member J s)) ?c2 = (Next, (described_domain J n s)\<lparr>s_id := i\<rparr>)"
    by (subst domain_definition_run [OF J s]) (simp_all add: c SubscribedSignal_init_def described_domain_def unit)
  finally have "meta_definition J ?p ?c2 = (Next, (described_domain J n s)\<lparr>s_id := i\<rparr>)" by simp
  then show ?thesis
    using table index interp by (simp add: processSignalMetaInformation_def meta_signal_blocks_def)
qed

section \<open>Properties\<close>

text \<open>
  Signal numbers. The \<open>n\<close>-th signal created (from 0) has the number \<open>n mod (2 ^ 20 - 1) + 1\<close>:
  it is never 0, the number of the stream itself, it fits the 20 bits of the transport header,
  and two of the last \<open>2 ^ 20 - 1\<close> signals never share one.
\<close>

theorem signal_numbers:
  "let number = \<lambda>n. unat (fst (nextSignalNumber (counter_after n)))
   in number n = n mod (2 ^ 20 - 1) + 1 \<and> 0 < number n \<and> number n < 2 ^ 20 \<and>
      (number m = number (m + k) \<longleftrightarrow> (2 ^ 20 - 1) dvd k)"
proof -
  have "n mod (2 ^ 20 - 1) < 2 ^ 20 - (1 :: nat)" by simp
  then have "n mod (2 ^ 20 - 1) + 1 < 2 ^ 20" by linarith
  moreover have "m mod (2 ^ 20 - 1) = (m + k) mod (2 ^ 20 - 1) \<longleftrightarrow> (2 ^ 20 - 1 :: nat) dvd k"
    using mod_eq_dvd_iff_nat [of m "m + k" "2 ^ 20 - 1"] by (metis add_diff_cancel_left' le_add1)
  ultimately show ?thesis by (simp only: Let_def nth_signal_number) simp
qed

text \<open>
  C12: a value signal and its description. The meta information that a constant, synchronous or
  asynchronous signal writes has the method \<open>signal\<close>, and a consumer that processes its
  parameters for a freshly subscribed signal ends with exactly the table, rule, type, value
  size, name, unit, range, scaling, related signals, start value and value index of the
  producer's signal.
\<close>

theorem value_description:
  assumes "json_laws J" and "describable s" and "start_ok J s"
  shows "j_find J (value_meta J s) METHOD = Some (j_of_string J META_METHOD_SIGNAL) \<and>
    (\<exists>p. j_find J (value_meta J s) PARAMS = Some p \<and>
      processSignalMetaInformation J META_METHOD_SIGNAL p ((SubscribedSignal_init J n)\<lparr>s_id := i\<rparr>) =
        (Inr 0, (described_value J n s)\<lparr>s_id := i\<rparr>))"
  using value_meta_finds [OF assms(1), of s] value_described [OF assms refl, where n = n and i = i] by blast

text \<open>
  C13: a domain signal and its description. The same for time signals, linear or explicit: the
  consumer has a time signal with the producer's table, rule, delta, resolution and epoch.
\<close>

theorem domain_description:
  assumes "json_laws J" and "domain_ok s"
  shows "j_find J (domain_meta J s) METHOD = Some (j_of_string J META_METHOD_SIGNAL) \<and>
    (\<exists>p. j_find J (domain_meta J s) PARAMS = Some p \<and>
      processSignalMetaInformation J META_METHOD_SIGNAL p ((SubscribedSignal_init J n)\<lparr>s_id := i\<rparr>) =
        (Inr 0, (described_domain J n s)\<lparr>s_id := i\<rparr>))"
  using domain_meta_finds [OF assms(1), of s] domain_described [OF assms refl, where n = n and i = i] by blast

definition example_value :: "jtree value_signal" where
  "example_value = setRelatedSignals [(META_TIME, ''time'')]
     (setRange \<lparr>low = 0, high = 0x3FF0000000000000\<rparr> (fst (SynchronousSignal_init tree_lib ''sig'' ''tab'' Dt_double 5 6)))"

definition example_time_signal :: "jtree domain_signal" where
  "example_time_signal = fst (LinearTimeSignal_init tree_lib ''time'' ''tab'' 1000000 1000000000 0 3)"

theorem value_description_witness:
  "\<exists>p. j_find tree_lib (value_meta tree_lib example_value) PARAMS = Some p \<and>
      processSignalMetaInformation tree_lib META_METHOD_SIGNAL p ((SubscribedSignal_init tree_lib 7)\<lparr>s_id := ''sig''\<rparr>) =
        (Inr 0, (described_value tree_lib 7 example_value)\<lparr>s_id := ''sig''\<rparr>)"
proof -
  have "describable example_value" "start_ok tree_lib example_value"
    by (simp_all add: example_value_def describable_def start_ok_def SynchronousSignal_init_def BaseValueSignal_init_def
        setRange_def setRelatedSignals_def nextSignalNumber_def Let_def Unit_representable_def Unit_clear_def)
  then show ?thesis using value_description [OF tree_json_laws, where s = example_value and n = 7 and i = "''sig''"] by blast
qed

theorem domain_description_witness:
  "\<exists>p. j_find tree_lib (domain_meta tree_lib example_time_signal) PARAMS = Some p \<and>
      processSignalMetaInformation tree_lib META_METHOD_SIGNAL p ((SubscribedSignal_init tree_lib 4)\<lparr>s_id := ''time''\<rparr>) =
        (Inr 0, (described_domain tree_lib 4 example_time_signal)\<lparr>s_id := ''time''\<rparr>)"
proof -
  have "domain_ok example_time_signal"
    by (simp add: example_time_signal_def domain_ok_def LinearTimeSignal_init_def BaseDomainSignal_init_def ticks_of_rate_def
        nextSignalNumber_def Let_def Resolution_valid_def Resolution_init_def)
  then show ?thesis using domain_description [OF tree_json_laws, where s = example_time_signal and n = 4 and i = "''time''"] by blast
qed

end
