(* ===== verification/Producer_Session.thy ===== *)
theory Producer_Session
  imports Producer_Signals Control "HOL-Library.List_Lexorder" "HOL-Library.Char_ord"
begin

text \<open>
  The producer's side of a connection: \<open>ProducerSession\<close> (\<open>ProducerSession.hpp\<close>,
  \<open>ProducerSession.cpp\<close>) and the \<open>Server\<close> that creates one for each client (\<open>Server.hpp\<close>,
  \<open>Server.cpp\<close>). A session refers to signals that the application owns: references into a
  store of signals. Shown: what each operation writes as messages, the bookkeeping of
  the session's signals, and that the server's weak pointers are alive.
\<close>

section \<open>State of a session\<close>

text \<open>
  \<open>ps_stream\<close> is the state of the stream, \<open>ps_allSignals\<close> the map from signal ids to shared
  pointers, \<open>ps_pending\<close> the outstanding operations, \<open>ps_errors\<close> the calls of the error
  callback.
\<close>

datatype stream_op = Read_some | Close_session

record 'w producer_session =
  ps_stream :: 'w
  ps_allSignals :: "string \<rightharpoonup> nat"
  ps_errorCb :: bool
  ps_pending :: "stream_op list"
  ps_errors :: "error_code list"

type_synonym 'j signal_store = "nat \<Rightarrow> 'j producer_signal"

section \<open>Meta information of the stream\<close>

definition apiVersion_doc :: "'j json_lib \<Rightarrow> 'j" where
  "apiVersion_doc J =
     j_put2 J (j_put J (j_null J) METHOD (j_of_string J META_METHOD_APIVERSION))
       PARAMS VERSION (j_of_string J OPENDAQ_LT_STREAM_VERSION)"

definition init_doc :: "'j json_lib \<Rightarrow> string \<Rightarrow> 'j \<Rightarrow> 'j" where
  "init_doc J streamId commandInterfaces =
     (let d = j_put2 J (j_put J (j_null J) METHOD (j_of_string J META_METHOD_INIT))
                PARAMS META_STREAMID (j_of_string J streamId)
      in if j_is_object J commandInterfaces then j_put2 J d PARAMS COMMANDINTERFACES commandInterfaces else d)"

definition writeInitialMetaInformation :: "'j json_lib \<Rightarrow> 'w stream_io \<Rightarrow> 'j \<Rightarrow> 'w \<Rightarrow> 'w" where
  "writeInitialMetaInformation J S commandInterfaces w =
     (let w1 = snd (writeMetaInformation J S 0 (apiVersion_doc J) w)
      in snd (writeMetaInformation J S 0 (init_doc J (writer_id S w1) commandInterfaces) w1))"

text \<open>\<open>doc[PARAMS][META_SIGNALIDS].push_back(id)\<close> for each signal id.\<close>

definition signalIds_doc :: "'j json_lib \<Rightarrow> string \<Rightarrow> signal_ids \<Rightarrow> 'j" where
  "signalIds_doc J method signalIds =
     foldl (\<lambda>d i. j_push_at2 J d PARAMS META_SIGNALIDS (j_of_string J i))
       (j_put J (j_null J) METHOD (j_of_string J method)) signalIds"

definition writeAvailableMetaInformation ::
  "'j json_lib \<Rightarrow> 'w stream_io \<Rightarrow> signal_ids \<Rightarrow> 'w producer_session \<Rightarrow> 'w producer_session" where
  "writeAvailableMetaInformation J S signalIds s =
     s\<lparr>ps_stream := snd (writeMetaInformation J S 0 (signalIds_doc J META_METHOD_AVAILABLE signalIds) (ps_stream s))\<rparr>"

definition writeUnavailableMetaInformation ::
  "'j json_lib \<Rightarrow> 'w stream_io \<Rightarrow> signal_ids \<Rightarrow> 'w producer_session \<Rightarrow> 'w producer_session" where
  "writeUnavailableMetaInformation J S signalIds s =
     s\<lparr>ps_stream := snd (writeMetaInformation J S 0 (signalIds_doc J META_METHOD_UNAVAILABLE signalIds) (ps_stream s))\<rparr>"

section \<open>Operations of a session\<close>

definition ProducerSession_init :: "'j json_lib \<Rightarrow> 'w stream_io \<Rightarrow> 'w \<Rightarrow> 'j \<Rightarrow> 'w producer_session" where
  "ProducerSession_init J S stream commandInterfaces =
     \<lparr>ps_stream = writeInitialMetaInformation J S commandInterfaces stream, ps_allSignals = Map.empty,
      ps_errorCb = False, ps_pending = [], ps_errors = []\<rparr>"

definition session_doRead :: "'w producer_session \<Rightarrow> 'w producer_session" where
  "session_doRead s = s\<lparr>ps_pending := ps_pending s @ [Read_some]\<rparr>"

definition session_doClose :: "'w producer_session \<Rightarrow> 'w producer_session" where
  "session_doClose s = s\<lparr>ps_pending := ps_pending s @ [Close_session]\<rparr>"

definition session_start :: "bool \<Rightarrow> 'w producer_session \<Rightarrow> 'w producer_session" where
  "session_start errorCb s = session_doRead (s\<lparr>ps_errorCb := errorCb\<rparr>)"

definition session_stop :: "'w producer_session \<Rightarrow> 'w producer_session" where
  "session_stop s = session_doClose s"

text \<open>
  Calling an empty \<open>std::function\<close> throws \<open>bad_function_call\<close>. \<open>consume\<close> is the stream's.
\<close>

definition session_onRead ::
  "(nat \<Rightarrow> 'w \<Rightarrow> 'w) \<Rightarrow> error_code \<Rightarrow> nat \<Rightarrow> 'w producer_session block" where
  "session_onRead consume ec bytesRead s =
     (if ec \<noteq> 0 then
        (if ps_errorCb s then (Ret 0, s\<lparr>ps_errors := ps_errors s @ [ec]\<rparr>) else (Raise Logic_error, s))
      else (Next, session_doRead (s\<lparr>ps_stream := consume bytesRead (ps_stream s)\<rparr>)))"

definition session_onClose :: "error_code \<Rightarrow> 'w producer_session block" where
  "session_onClose ec s = (Next, s)"

definition addSignal ::
  "'j json_lib \<Rightarrow> 'w stream_io \<Rightarrow> 'j signal_store \<Rightarrow> nat \<Rightarrow> 'w producer_session \<Rightarrow> 'w producer_session" where
  "addSignal J S store r s =
     (let signalId = getId (store r);
          s1 = s\<lparr>ps_allSignals := (ps_allSignals s)(signalId \<mapsto> r)\<rparr>
      in if isDataSignal (store r) then writeAvailableMetaInformation J S [signalId] s1 else s1)"

text \<open>
  The argument is a \<open>std::map\<close>, a list sorted by key; \<open>insert\<close> leaves keys alone that are
  there already.
\<close>

definition insert_missing :: "('k \<times> 'v) list \<Rightarrow> ('k \<rightharpoonup> 'v) \<Rightarrow> ('k \<rightharpoonup> 'v)" where
  "insert_missing xs m = map_of xs ++ m"

definition addSignals ::
  "'j json_lib \<Rightarrow> 'w stream_io \<Rightarrow> 'j signal_store \<Rightarrow> (string \<times> nat) list \<Rightarrow> 'w producer_session \<Rightarrow> 'w producer_session" where
  "addSignals J S store signals s =
     (let s1 = s\<lparr>ps_allSignals := insert_missing signals (ps_allSignals s)\<rparr>;
          signalIds = map fst (filter (\<lambda>(i, r). isDataSignal (store r)) signals)
      in if signalIds \<noteq> [] then writeAvailableMetaInformation J S signalIds s1 else s1)"

text \<open>The signals write through a writer of their own, \<open>W\<close>, on the session's stream.\<close>

fun subscribeSignals ::
  "'j json_lib \<Rightarrow> ('j, 'w) iwriter \<Rightarrow> 'j signal_store \<Rightarrow> signal_ids \<Rightarrow> 'w producer_session \<Rightarrow> nat \<times> 'w producer_session" where
  "subscribeSignals J W store [] s = (0, s)"
| "subscribeSignals J W store (i # is) s =
     (case ps_allSignals s i of
        None \<Rightarrow> subscribeSignals J W store is s
      | Some r \<Rightarrow>
          (case subscribeSignals J W store is (s\<lparr>ps_stream := signal_subscribe J W (store r) (ps_stream s)\<rparr>) of
             (count, s') \<Rightarrow> (Suc count, s')))"

fun unsubscribeSignals ::
  "'j json_lib \<Rightarrow> ('j, 'w) iwriter \<Rightarrow> 'j signal_store \<Rightarrow> signal_ids \<Rightarrow> 'w producer_session \<Rightarrow> nat \<times> 'w producer_session" where
  "unsubscribeSignals J W store [] s = (0, s)"
| "unsubscribeSignals J W store (i # is) s =
     (case ps_allSignals s i of
        None \<Rightarrow> unsubscribeSignals J W store is s
      | Some r \<Rightarrow>
          (case unsubscribeSignals J W store is (s\<lparr>ps_stream := signal_unsubscribe J W (store r) (ps_stream s)\<rparr>) of
             (count, s') \<Rightarrow> (Suc count, s')))"

text \<open>The loop of \<open>removeSignals\<close>: count, ids of data signals, and the map that is left.\<close>

fun remove_loop ::
  "'j signal_store \<Rightarrow> signal_ids \<Rightarrow> (string \<rightharpoonup> nat) \<Rightarrow> nat \<times> signal_ids \<times> (string \<rightharpoonup> nat)" where
  "remove_loop store [] m = (0, [], m)"
| "remove_loop store (i # is) m =
     (case m i of
        None \<Rightarrow> remove_loop store is m
      | Some r \<Rightarrow>
          (case remove_loop store is (m(i := None)) of
             (count, ids, m') \<Rightarrow> (Suc count, if isDataSignal (store r) then i # ids else ids, m')))"

definition removeSignals ::
  "'j json_lib \<Rightarrow> 'w stream_io \<Rightarrow> 'j signal_store \<Rightarrow> signal_ids \<Rightarrow> 'w producer_session \<Rightarrow> nat \<times> 'w producer_session" where
  "removeSignals J S store signalIds s =
     (case remove_loop store signalIds (ps_allSignals s) of
        (count, dataSignalIds, m) \<Rightarrow>
          let s1 = s\<lparr>ps_allSignals := m\<rparr>
          in (count, if dataSignalIds \<noteq> [] then writeUnavailableMetaInformation J S dataSignalIds s1 else s1))"

definition removeSignal ::
  "'j json_lib \<Rightarrow> 'w stream_io \<Rightarrow> 'j signal_store \<Rightarrow> string \<Rightarrow> 'w producer_session \<Rightarrow> nat \<times> 'w producer_session" where
  "removeSignal J S store signalId = removeSignals J S store [signalId]"

section \<open>Server\<close>

text \<open>
  A client's session lives as long as one of its operations is outstanding: the handlers hold
  the shared pointers. \<open>m_sessions\<close> is a \<open>std::map\<close> of weak pointers, a list of entries sorted
  by key; the store holds every session ever created with the id its error callback is bound to.
\<close>

record 'w server =
  sv_listening :: bool
  sv_sessions :: "(string \<times> nat) list"
  sv_store :: "(string \<times> 'w producer_session) list"

definition Server_init :: "'w server" where
  "Server_init = \<lparr>sv_listening = False, sv_sessions = [], sv_store = []\<rparr>"

definition session_of :: "'w server \<Rightarrow> nat \<Rightarrow> 'w producer_session" where
  "session_of sv r = snd (sv_store sv ! r)"

definition set_session :: "nat \<Rightarrow> 'w producer_session \<Rightarrow> 'w server \<Rightarrow> 'w server" where
  "set_session r s sv = sv\<lparr>sv_store := (sv_store sv)[r := (fst (sv_store sv ! r), s)]\<rparr>"

text \<open>\<open>weak_ptr::lock\<close> succeeds.\<close>

definition locks :: "'w server \<Rightarrow> nat \<Rightarrow> bool" where
  "locks sv r \<longleftrightarrow> ps_pending (session_of sv r) \<noteq> []"

definition sessions_put :: "string \<Rightarrow> nat \<Rightarrow> (string \<times> nat) list \<Rightarrow> (string \<times> nat) list" where
  "sessions_put k r es = insort_key fst (k, r) (filter (\<lambda>e. fst e \<noteq> k) es)"

definition sessions_erase :: "string \<Rightarrow> (string \<times> nat) list \<Rightarrow> (string \<times> nat) list" where
  "sessions_erase k es = filter (\<lambda>e. fst e \<noteq> k) es"

definition server_start :: "'w server \<Rightarrow> 'w server" where
  "server_start sv = sv\<lparr>sv_listening := True\<rparr>"

fun stop_sessions :: "(string \<times> nat) list \<Rightarrow> 'w server \<Rightarrow> 'w server" where
  "stop_sessions [] sv = sv"
| "stop_sessions ((k, r) # es) sv =
     stop_sessions es (if locks sv r then set_session r (session_stop (session_of sv r)) sv else sv)"

definition server_stop :: "'w server \<Rightarrow> 'w server" where
  "server_stop sv = (stop_sessions (sv_sessions sv) (sv\<lparr>sv_listening := False\<rparr>))\<lparr>sv_sessions := []\<rparr>"

definition sessionCount :: "'w server \<Rightarrow> nat" where
  "sessionCount sv = length (sv_sessions sv)"

text \<open>The command interfaces are a null document, and no signal is announced.\<close>

definition createSession :: "'j json_lib \<Rightarrow> 'w stream_io \<Rightarrow> 'w \<Rightarrow> 'w server \<Rightarrow> 'w server" where
  "createSession J S newStream sv =
     (let sessionId = st_url S newStream;
          newSession = ProducerSession_init J S newStream (j_null J)
      in sv\<lparr>sv_sessions := sessions_put sessionId (length (sv_store sv)) (sv_sessions sv),
            sv_store := sv_store sv @ [(sessionId, session_start True newSession)]\<rparr>)"

definition removeSessionCb :: "string \<Rightarrow> 'w server \<Rightarrow> 'w server" where
  "removeSessionCb sessionId sv = sv\<lparr>sv_sessions := sessions_erase sessionId (sv_sessions sv)\<rparr>"

text \<open>Erasing an entry of the map the range-for runs over invalidates its iterator.\<close>

fun update_sessions ::
  "'j json_lib \<Rightarrow> 'w stream_io \<Rightarrow> 'j signal_store \<Rightarrow> signal_ids \<Rightarrow> (string \<times> nat) list \<Rightarrow> 'w server block" where
  "update_sessions J S store removedSignals [] sv = (Next, sv)"
| "update_sessions J S store removedSignals ((k, r) # es) sv =
     (if locks sv r then
        update_sessions J S store removedSignals es
          (if removedSignals \<noteq> []
           then set_session r (snd (removeSignals J S store removedSignals (session_of sv r))) sv else sv)
      else (Raise Undefined, sv\<lparr>sv_sessions := sessions_erase k (sv_sessions sv)\<rparr>))"

definition updateAvailableSignals ::
  "'j json_lib \<Rightarrow> 'w stream_io \<Rightarrow> 'j signal_store \<Rightarrow> signal_ids \<Rightarrow> signal_ids \<Rightarrow> 'w server block" where
  "updateAvailableSignals J S store removedSignals addedSignals sv =
     (if removedSignals = [] \<and> addedSignals = [] then (Ret 0, sv)
      else update_sessions J S store removedSignals (sv_sessions sv) sv)"

section \<open>What a session writes\<close>

text \<open>Each operation of a session on a stream, as messages sent one after the other.\<close>

definition initial_messages :: "'j json_lib \<Rightarrow> string \<Rightarrow> 'j \<Rightarrow> 'j message list" where
  "initial_messages J streamId commandInterfaces =
     [Meta 0 (apiVersion_doc J), Meta 0 (init_doc J streamId commandInterfaces)]"

definition subscribe_messages :: "'j json_lib \<Rightarrow> 'j producer_signal \<Rightarrow> 'j message list" where
  "subscribe_messages J sg = [Meta (getNumber sg) (subscribe_doc J (getId sg)), Meta (getNumber sg) (signal_meta J sg)]"

definition unsubscribe_messages :: "'j json_lib \<Rightarrow> 'j producer_signal \<Rightarrow> 'j message list" where
  "unsubscribe_messages J sg = [Meta (getNumber sg) (unsubscribe_doc J)]"

text \<open>The signals of a session that a list of ids names, in the order of the list.\<close>

definition named_signals :: "'j signal_store \<Rightarrow> (string \<rightharpoonup> nat) \<Rightarrow> signal_ids \<Rightarrow> 'j producer_signal list" where
  "named_signals store m ids = map store (List.map_filter m ids)"

lemma writer_id_write:
  "delivers S wire \<Longrightarrow> writer_id S (snd (writeMetaInformation J S n j w)) = st_url S w"
  by (simp add: writer_id_def writeMetaInformation_def writeMsgPackMetaInformation_def delivers_def case_prod_beta)

lemma ProducerSession_init_sends:
  assumes "delivers S wire"
  shows "ps_stream (ProducerSession_init J S w ci) = stream_writer.send J S (initial_messages J (st_url S w) ci) w"
  by (simp add: ProducerSession_init_def writeInitialMetaInformation_def initial_messages_def Let_def
      writer_id_write [OF assms] StreamWriter_def)

lemma signal_subscribe_sends:
  "signal_subscribe J (StreamWriter J S) sg w = stream_writer.send J S (subscribe_messages J sg) w"
  "signal_unsubscribe J (StreamWriter J S) sg w = stream_writer.send J S (unsubscribe_messages J sg) w"
  by (simp_all add: signal_subscribe_def signal_unsubscribe_def writeSignalMetaInformation_def
      subscribe_messages_def unsubscribe_messages_def)

lemma subscribeSignals_sends:
  "subscribeSignals J (StreamWriter J S) store ids s =
     (length (named_signals store (ps_allSignals s) ids),
      s\<lparr>ps_stream := stream_writer.send J S
          (concat (map (subscribe_messages J) (named_signals store (ps_allSignals s) ids))) (ps_stream s)\<rparr>)"
  by (induction ids arbitrary: s)
    (simp_all add: named_signals_def map_filter_simps signal_subscribe_sends stream_writer.send_append split: option.splits)

lemma unsubscribeSignals_sends:
  "unsubscribeSignals J (StreamWriter J S) store ids s =
     (length (named_signals store (ps_allSignals s) ids),
      s\<lparr>ps_stream := stream_writer.send J S
          (concat (map (unsubscribe_messages J) (named_signals store (ps_allSignals s) ids))) (ps_stream s)\<rparr>)"
  by (induction ids arbitrary: s)
    (simp_all add: named_signals_def map_filter_simps signal_subscribe_sends stream_writer.send_append split: option.splits)

lemma announce_sends:
  "ps_stream (writeAvailableMetaInformation J S ids s) =
     stream_writer.send J S [Meta 0 (signalIds_doc J META_METHOD_AVAILABLE ids)] (ps_stream s)"
  "ps_stream (writeUnavailableMetaInformation J S ids s) =
     stream_writer.send J S [Meta 0 (signalIds_doc J META_METHOD_UNAVAILABLE ids)] (ps_stream s)"
  by (simp_all add: writeAvailableMetaInformation_def writeUnavailableMetaInformation_def StreamWriter_def)

text \<open>The announcement of a list of signal ids, as a consumer finds it.\<close>

lemma push_at2_items:
  fixes f :: "'x \<Rightarrow> 'j" and b :: string
  assumes J: "json_laws J" and "composable J r" and "composable J (j_member J r a)"
  defines "loop xs \<equiv> foldl (\<lambda>r x. j_push_at2 J r a b (f x)) r xs"
  shows "composable J (loop xs) \<and> (\<forall>k. k \<noteq> a \<longrightarrow> j_find J (loop xs) k = j_find J r k) \<and>
    j_member J (loop xs) a = foldl (\<lambda>r x. j_push_at J r b (f x)) (j_member J r a) xs"
  unfolding loop_def using assms(2,3)
proof (induction xs arbitrary: r)
  case (Cons x xs)
  let ?r = "j_push_at2 J r a b (f x)"
  have "composable J ?r" "composable J (j_member J ?r a)" "j_member J ?r a = j_push_at J (j_member J r a) b (f x)"
    "\<And>k. k \<noteq> a \<Longrightarrow> j_find J ?r k = j_find J r k"
    using J Cons.prems by (simp_all add: j_push_at2_def j_push_at_def json_simps)
  then show ?case using Cons.IH [of ?r] by simp
qed simp

lemma signalIds_doc_finds:
  assumes J: "json_laws J"
  shows "j_find J (signalIds_doc J m ids) METHOD = Some (j_of_string J m)"
    and "ids \<noteq> [] \<Longrightarrow> \<exists>p v. j_find J (signalIds_doc J m ids) PARAMS = Some p \<and>
      j_find J p META_SIGNALIDS = Some v \<and> j_is_array J v \<and> j_items J v = map (j_of_string J) ids"
proof -
  let ?r = "j_put J (j_null J) METHOD (j_of_string J m)" and ?d = "signalIds_doc J m ids"
  have r: "composable J ?r" "composable J (j_member J ?r PARAMS)" "j_member J ?r PARAMS = j_null J"
    using J by (simp_all add: json_simps)
  note p = push_at2_items [OF J r(1,2), where b = META_SIGNALIDS and f = "j_of_string J" and xs = ids]
  show "j_find J ?d METHOD = Some (j_of_string J m)"
    using J p by (simp add: signalIds_doc_def json_simps)
  have null: "composable J (j_null J)" "pushable J (j_member J (j_null J) META_SIGNALIDS)"
    "j_items J (j_member J (j_null J) META_SIGNALIDS) = []" "\<And>k. j_find J (j_null J) k = None"
    using J by (simp_all add: json_simps)
  let ?p = "foldl (\<lambda>r x. j_push_at J r META_SIGNALIDS (j_of_string J x)) (j_null J) ids"
  have d: "j_member J ?d PARAMS = ?p" using p r(3) by (simp add: signalIds_doc_def)
  assume "ids \<noteq> []"
  then have v: "j_find J ?p META_SIGNALIDS = Some (j_member J ?p META_SIGNALIDS)"
    "j_is_array J (j_member J ?p META_SIGNALIDS)" "j_items J (j_member J ?p META_SIGNALIDS) = map (j_of_string J) ids"
    using push_items [OF J null(1,2), of "j_of_string J" ids] null(3) by simp_all
  have "j_find J ?d PARAMS \<noteq> None"
  proof
    assume "j_find J ?d PARAMS = None"
    then have "?p = j_null J" using d by (simp add: j_member_def)
    then show False using v(1) null(4) by simp
  qed
  then have "j_find J ?d PARAMS = Some ?p" using d by (auto simp: j_member_def)
  then show "\<exists>p v. j_find J ?d PARAMS = Some p \<and>
      j_find J p META_SIGNALIDS = Some v \<and> j_is_array J v \<and> j_items J v = map (j_of_string J) ids"
    using v by blast
qed

section \<open>The signals of a session\<close>

lemma remove_loop_spec:
  "\<exists>count data. remove_loop store ids m = (count, data, m |` (- set ids)) \<and>
     count = card (set ids \<inter> dom m) \<and> distinct data \<and>
     set data = {i \<in> set ids. \<exists>r. m i = Some r \<and> isDataSignal (store r)}"
proof (induction ids arbitrary: m)
  case (Cons i ids)
  show ?case
  proof (cases "m i")
    case None
    then have "m |` (- set (i # ids)) = m |` (- set ids)" "set (i # ids) \<inter> dom m = set ids \<inter> dom m"
      by (auto simp: restrict_map_def fun_eq_iff)
    with None Cons.IH [of m] show ?thesis by auto
  next
    case (Some r)
    obtain count data where IH: "remove_loop store ids (m(i := None)) = (count, data, m(i := None) |` (- set ids))"
      "count = card (set ids \<inter> dom (m(i := None)))" "distinct data"
      "set data = {j \<in> set ids. \<exists>r. (m(i := None)) j = Some r \<and> isDataSignal (store r)}"
      using Cons.IH by blast
    have "set (i # ids) \<inter> dom m = insert i (set ids \<inter> dom (m(i := None)))" using Some by auto
    then have "Suc count = card (set (i # ids) \<inter> dom m)" by (simp add: IH(2))
    moreover have "m(i := None) |` (- set ids) = m |` (- set (i # ids))"
      by (auto simp: restrict_map_def fun_eq_iff)
    moreover have "distinct (if isDataSignal (store r) then i # data else data)" using IH(3,4) by simp
    moreover have "set (if isDataSignal (store r) then i # data else data) =
        {j \<in> set (i # ids). \<exists>r. m j = Some r \<and> isDataSignal (store r)}"
      using Some IH(4) by auto
    ultimately show ?thesis using Some IH(1) by simp
  qed
qed (simp add: restrict_map_def)

section \<open>Runs of a server\<close>

text \<open>
  What happens to a server: a client connects, an operation of a session completes, the
  server is stopped, signals become unavailable. Completions are those of operations that are
  outstanding; the error callback of a session is bound to \<open>removeSessionCb\<close>.
\<close>

datatype 'w server_op =
    Client 'w
  | Read_done nat error_code nat
  | Close_done nat error_code
  | Stop_server
  | Update signal_ids signal_ids

definition server_onRead :: "(nat \<Rightarrow> 'w \<Rightarrow> 'w) \<Rightarrow> nat \<Rightarrow> error_code \<Rightarrow> nat \<Rightarrow> 'w server \<Rightarrow> 'w server" where
  "server_onRead consume r ec bytesRead sv =
     (let s = session_of sv r;
          sv1 = set_session r (snd (session_onRead consume ec bytesRead (s\<lparr>ps_pending := remove1 Read_some (ps_pending s)\<rparr>))) sv
      in if ec \<noteq> 0 then removeSessionCb (fst (sv_store sv ! r)) sv1 else sv1)"

definition server_onClose :: "nat \<Rightarrow> error_code \<Rightarrow> 'w server \<Rightarrow> 'w server" where
  "server_onClose r ec sv =
     (let s = session_of sv r
      in set_session r (snd (session_onClose ec (s\<lparr>ps_pending := remove1 Close_session (ps_pending s)\<rparr>))) sv)"

definition outstanding :: "'w server \<Rightarrow> nat \<Rightarrow> stream_op \<Rightarrow> bool" where
  "outstanding sv r op \<longleftrightarrow> r < length (sv_store sv) \<and> op \<in> set (ps_pending (session_of sv r))"

fun server_exec ::
  "'j json_lib \<Rightarrow> 'w stream_io \<Rightarrow> (nat \<Rightarrow> 'w \<Rightarrow> 'w) \<Rightarrow> 'j signal_store \<Rightarrow> 'w server_op \<Rightarrow> 'w server \<Rightarrow> 'w server" where
  "server_exec J S consume store (Client w) sv = createSession J S w sv"
| "server_exec J S consume store (Read_done r ec n) sv =
     (if outstanding sv r Read_some then server_onRead consume r ec n sv else sv)"
| "server_exec J S consume store (Close_done r ec) sv =
     (if outstanding sv r Close_session then server_onClose r ec sv else sv)"
| "server_exec J S consume store Stop_server sv = server_stop sv"
| "server_exec J S consume store (Update removed added) sv = snd (updateAvailableSignals J S store removed added sv)"

text \<open>
  Every entry belongs to a session of that id that is still reading, and every session has
  an error callback and at most one read outstanding.
\<close>

definition session_ok :: "'w producer_session \<Rightarrow> bool" where
  "session_ok s \<longleftrightarrow> ps_errorCb s \<and> count_list (ps_pending s) Read_some \<le> 1"

definition server_ok :: "'w server \<Rightarrow> bool" where
  "server_ok sv \<longleftrightarrow> distinct (map fst (sv_sessions sv)) \<and>
     (\<forall>(k, r) \<in> set (sv_sessions sv). r < length (sv_store sv) \<and> fst (sv_store sv ! r) = k \<and>
        Read_some \<in> set (ps_pending (session_of sv r))) \<and>
     (\<forall>r < length (sv_store sv). session_ok (session_of sv r))"

lemma server_okD: "server_ok sv \<Longrightarrow> r < length (sv_store sv) \<Longrightarrow> session_ok (session_of sv r)"
  by (simp add: server_ok_def)

lemma count_remove1: "count_list (remove1 x xs) y = count_list xs y - (if x = y then 1 else 0)"
  by (induction xs) (auto simp: Suc_diff_Suc count_list_0_iff not_less_eq_eq dest: gr0I)

lemma set_session_sel:
  "sv_sessions (set_session r s sv) = sv_sessions sv" "length (sv_store (set_session r s sv)) = length (sv_store sv)"
  "fst (sv_store (set_session r s sv) ! q) = fst (sv_store sv ! q)"
  "r < length (sv_store sv) \<Longrightarrow> session_of (set_session r s sv) q = (if q = r then s else session_of sv q)"
  "session_of (sv\<lparr>sv_sessions := es\<rparr>) q = session_of sv q"
  by (auto simp: set_session_def session_of_def nth_list_update)
    (metis fst_conv list_update_beyond not_le nth_list_update)

lemma set_session_ok:
  assumes "server_ok sv" and "Read_some \<in> set (ps_pending (session_of sv r)) \<Longrightarrow> Read_some \<in> set (ps_pending s)"
    and "r < length (sv_store sv) \<Longrightarrow> session_ok s"
  shows "server_ok (set_session r s sv)"
proof (cases "r < length (sv_store sv)")
  case True
  with assms show ?thesis by (auto simp: server_ok_def set_session_sel)
next
  case False
  then have "set_session r s sv = sv" by (simp add: set_session_def list_update_beyond)
  with assms(1) show ?thesis by simp
qed

lemma sessions_put_set: "set (sessions_put k r es) = insert (k, r) {e \<in> set es. fst e \<noteq> k}"
  by (auto simp: sessions_put_def set_insort_key)

lemma map_insort_key: "map f (insort_key f x xs) = insort (f x) (map f xs)"
  by (induction xs) simp_all

lemma sessions_put_distinct: "distinct (map fst es) \<Longrightarrow> distinct (map fst (sessions_put k r es))"
  by (auto simp: sessions_put_def map_insort_key distinct_insort intro: distinct_map_filter)

lemma createSession_ok: "server_ok sv \<Longrightarrow> server_ok (createSession J S w sv)"
  by (auto simp: server_ok_def createSession_def Let_def sessions_put_set sessions_put_distinct session_of_def nth_append
      session_start_def session_doRead_def session_ok_def ProducerSession_init_def not_less less_Suc_eq)

lemma session_removeSignals_keeps:
  "ps_pending (snd (removeSignals J S store ids s)) = ps_pending s"
  "session_ok (snd (removeSignals J S store ids s)) = session_ok s"
  by (simp_all add: removeSignals_def writeUnavailableMetaInformation_def session_ok_def Let_def split: prod.splits)

lemma update_sessions_ok:
  assumes "server_ok sv" and "set es \<subseteq> set (sv_sessions sv)"
  shows "fst (update_sessions J S store removed es sv) = Next \<and> server_ok (snd (update_sessions J S store removed es sv))"
  using assms
proof (induction es arbitrary: sv)
  case (Cons e es)
  obtain k r where e: "e = (k, r)" by (cases e)
  then have "locks sv r" using Cons.prems by (auto simp: server_ok_def locks_def)
  moreover have "session_ok (session_of sv r)" if "r < length (sv_store sv)"
    using that Cons.prems(1) by (simp add: server_ok_def)
  ultimately show ?case
    using Cons e by (simp add: set_session_ok session_removeSignals_keeps set_session_sel)
qed simp

lemma stop_sessions_pending:
  assumes "\<forall>(k, r) \<in> set es. r < length (sv_store sv)"
  shows "length (sv_store (stop_sessions es sv)) = length (sv_store sv) \<and>
    set (ps_pending (session_of (stop_sessions es sv) q)) =
      set (ps_pending (session_of sv q)) \<union> (if q \<in> snd ` set es \<and> locks sv q then {Close_session} else {})"
  using assms
proof (induction es arbitrary: sv)
  case (Cons e es)
  obtain k r where e: "e = (k, r)" by (cases e)
  let ?sv = "if locks sv r then set_session r (session_stop (session_of sv r)) sv else sv"
  have r: "r < length (sv_store sv)" using Cons.prems e by simp
  have "ps_pending (session_of ?sv q) =
      ps_pending (session_of sv q) @ (if q = r \<and> locks sv r then [Close_session] else [])"
    using r by (simp add: set_session_sel session_stop_def session_doClose_def)
  moreover from this have "locks ?sv q \<longleftrightarrow> locks sv q" by (auto simp: locks_def)
  moreover have "length (sv_store ?sv) = length (sv_store sv)" by (simp add: set_session_sel)
  ultimately show ?case using Cons.IH [of ?sv] Cons.prems e by auto
qed simp

lemma stop_sessions_ok:
  "\<forall>r < length (sv_store sv). session_ok (session_of sv r) \<Longrightarrow>
     \<forall>r < length (sv_store (stop_sessions es sv)). session_ok (session_of (stop_sessions es sv) r)"
proof (induction es arbitrary: sv)
  case (Cons e es)
  obtain k r where e: "e = (k, r)" by (cases e)
  let ?sv = "if locks sv r then set_session r (session_stop (session_of sv r)) sv else sv"
  have "\<forall>q < length (sv_store ?sv). session_ok (session_of ?sv q)"
  proof (cases "r < length (sv_store sv)")
    case True
    with Cons.prems show ?thesis
      by (simp add: set_session_sel session_ok_def session_stop_def session_doClose_def)
  qed (use Cons.prems in \<open>simp add: set_session_def list_update_beyond\<close>)
  from Cons.IH [OF this] show ?case using e by simp
qed simp

lemma server_onRead_ok:
  assumes "server_ok sv" and "outstanding sv r Read_some"
  shows "server_ok (server_onRead consume r ec n sv)"
proof (cases "ec = 0")
  case True
  then show ?thesis
    using assms
    by (auto simp: server_onRead_def session_onRead_def session_doRead_def Let_def session_ok_def
        count_remove1 outstanding_def intro!: set_session_ok dest: server_okD)
next
  case False
  have r: "r < length (sv_store sv)" using assms(2) by (simp add: outstanding_def)
  let ?k = "fst (sv_store sv ! r)"
  have "q \<noteq> r" if "(k, q) \<in> set (sv_sessions sv)" "k \<noteq> ?k" for k q
    using that assms(1) by (auto simp: server_ok_def)
  then show ?thesis
    using False assms(1) r
    by (auto simp: server_onRead_def Let_def removeSessionCb_def server_ok_def sessions_erase_def distinct_map_filter
        set_session_sel session_onRead_def session_ok_def count_remove1)
qed

lemma server_exec_ok:
  assumes "server_ok sv"
  shows "server_ok (server_exec J S consume store op sv)"
proof (cases op)
  case (Read_done r ec n)
  with assms show ?thesis by (auto intro: server_onRead_ok)
next
  case (Close_done r ec)
  then show ?thesis
    using assms
    by (auto simp: server_onClose_def session_onClose_def Let_def in_set_remove1 session_ok_def count_remove1
        outstanding_def intro!: set_session_ok dest: server_okD)
next
  case (Update removed added)
  with assms show ?thesis by (simp add: updateAvailableSignals_def update_sessions_ok [OF assms order_refl])
next
  case (Client w)
  with assms show ?thesis by (simp add: createSession_ok)
next
  case Stop_server
  then show ?thesis
    using assms stop_sessions_ok [of "sv\<lparr>sv_listening := False\<rparr>" "sv_sessions sv"]
    by (simp add: server_stop_def server_ok_def set_session_sel) (simp add: session_of_def)
qed

interpretation server_machine: machine Server_init "server_exec J S consume store" server_ok
proof
  show "server_ok Server_init" by (simp add: server_ok_def Server_init_def)
qed (rule server_exec_ok)

section \<open>Properties\<close>

text \<open>
  C25: the server's weak pointers. Whatever the order in which clients connect, operations of
  their sessions complete, signals become unavailable and the server is stopped: every entry
  of \<open>m_sessions\<close> stands for a session that still reads, so that locking its weak pointer
  succeeds, and telling the sessions about removed signals never erases an entry of the map
  it iterates over.
\<close>

theorem server_sessions_alive:
  "let sv = fold (server_exec J S consume store) ops Server_init
   in (\<forall>e \<in> set (sv_sessions sv). outstanding sv (snd e) Read_some) \<and>
      fst (updateAvailableSignals J S store removed added sv) \<noteq> Raise Undefined"
proof -
  let ?sv = "fold (server_exec J S consume store) ops Server_init"
  have "server_ok ?sv" by (rule server_machine.good_run)
  then show ?thesis
    using update_sessions_ok [OF _ order_refl, of ?sv J S store removed]
    by (auto simp: Let_def server_ok_def outstanding_def updateAvailableSignals_def)
qed

theorem server_sessions_alive_witness:
  "fst (updateAvailableSignals tree_lib memory_stream (\<lambda>_. Domain example_time_signal) [''x''] []
     (fold (server_exec tree_lib memory_stream (\<lambda>n w. w) (\<lambda>_. Domain example_time_signal))
        [Client [], Client [1], Read_done 0 2 0] Server_init)) \<noteq> Raise Undefined"
  using server_sessions_alive [where J = tree_lib and S = memory_stream and consume = "\<lambda>n w. w"
      and store = "\<lambda>_. Domain example_time_signal" and removed = "[''x'']" and added = "[]"
      and ops = "[Client [], Client [1], Read_done 0 2 0]"]
  unfolding Let_def by (rule conjunct2)

text \<open>
  C26: the end of the sessions. An error of the read of a session, the end of the stream
  included, calls its error callback once with the error, leaves it with no read outstanding
  and takes its entry out of the server; stopping the server closes every session that it
  lists and empties the list.
\<close>

theorem server_sessions_end:
  fixes J :: "'j json_lib" and S :: "'w stream_io" and consume :: "nat \<Rightarrow> 'w \<Rightarrow> 'w" and store :: "'j signal_store"
  defines "run ops \<equiv> fold (server_exec J S consume store) ops Server_init"
  assumes "(k, r) \<in> set (sv_sessions (run ops))" and "ec \<noteq> 0"
  shows "(let sv1 = server_onRead consume r ec n (run ops)
      in k \<notin> fst ` set (sv_sessions sv1) \<and> \<not> outstanding sv1 r Read_some \<and>
         ps_errors (session_of sv1 r) = ps_errors (session_of (run ops) r) @ [ec]) \<and>
    sv_sessions (server_stop (run ops)) = [] \<and> outstanding (server_stop (run ops)) r Close_session"
proof -
  let ?sv = "run ops"
  have ok: "server_ok ?sv" unfolding run_def by (rule server_machine.good_run)
  have r: "r < length (sv_store ?sv)" "fst (sv_store ?sv ! r) = k" "locks ?sv r" "session_ok (session_of ?sv r)"
    using ok assms(2) by (auto simp: server_ok_def locks_def)
  have "count_list (remove1 Read_some (ps_pending (session_of ?sv r))) Read_some = 0"
    using r(4) by (simp add: count_remove1 session_ok_def)
  then have "Read_some \<notin> set (remove1 Read_some (ps_pending (session_of ?sv r)))" by (metis count_list_0_iff)
  then have "let sv1 = server_onRead consume r ec n ?sv
      in k \<notin> fst ` set (sv_sessions sv1) \<and> \<not> outstanding sv1 r Read_some \<and>
         ps_errors (session_of sv1 r) = ps_errors (session_of ?sv r) @ [ec]"
    using r assms(3)
    by (auto simp: Let_def server_onRead_def removeSessionCb_def sessions_erase_def outstanding_def set_session_sel
        session_onRead_def session_ok_def)
  moreover
  have "\<forall>(k, r) \<in> set (sv_sessions ?sv). r < length (sv_store (?sv\<lparr>sv_listening := False\<rparr>))"
    using ok by (auto simp: server_ok_def)
  from stop_sessions_pending [OF this, of r] have "outstanding (server_stop ?sv) r Close_session"
    using r assms(2) by (auto simp: outstanding_def server_stop_def set_session_sel locks_def session_of_def image_iff)
  ultimately show ?thesis by (simp add: server_stop_def)
qed

theorem server_sessions_end_witness:
  "outstanding (server_stop (fold (server_exec tree_lib memory_stream (\<lambda>n w. w) (\<lambda>_. Domain example_time_signal))
     [Client []] Server_init)) 0 Close_session"
proof -
  have "(''memory'', 0) \<in> set (sv_sessions (fold (server_exec tree_lib memory_stream (\<lambda>n w. w) (\<lambda>_. Domain example_time_signal))
     [Client []] Server_init))"
    by (simp add: createSession_def sessions_put_def Server_init_def memory_stream_def Let_def)
  from server_sessions_end [OF this, of 2] show ?thesis by simp
qed

text \<open>
  C27: removing signals. The session forgets exactly the signals that are named, counts each
  of them once, and tells the consumer about exactly the data signals among them, each once,
  in one message, which is left out if there are none.
\<close>

theorem remove_signals:
  "let (count, s') = removeSignals J S store ids s; known = ps_allSignals s
   in ps_allSignals s' = known |` (- set ids) \<and> count = card (set ids \<inter> dom known) \<and>
      (\<exists>data. distinct data \<and> set data = {i \<in> set ids. \<exists>r. known i = Some r \<and> isDataSignal (store r)} \<and>
         ps_stream s' = stream_writer.send J S
           (if data = [] then [] else [Meta 0 (signalIds_doc J META_METHOD_UNAVAILABLE data)]) (ps_stream s))"
proof -
  obtain count data where r: "remove_loop store ids (ps_allSignals s) = (count, data, ps_allSignals s |` (- set ids))"
    "count = card (set ids \<inter> dom (ps_allSignals s))" "distinct data"
    "set data = {i \<in> set ids. \<exists>r. ps_allSignals s i = Some r \<and> isDataSignal (store r)}"
    using remove_loop_spec [of store ids "ps_allSignals s"] by blast
  then show ?thesis
    by (auto simp: removeSignals_def Let_def announce_sends writeUnavailableMetaInformation_def StreamWriter_def
        intro!: exI [of _ data])
qed

end
