(* ===== verification/Connection.thy ===== *)
theory Connection
  imports Protocol_Handler Producer_Session
begin

text \<open>
  A producer and a consumer connected by a stream: what a session of the producer writes, as
  the consumer's handler, container and stream meta information see it. Shown: the
  handshake tells the consumer how to control the stream, a subscription gives it the signal
  that the producer has, and the measured data of a synchronous signal arrive with the time
  stamps that follow from the producer's value index.
\<close>

section \<open>Messages\<close>

lemma deliver_all_append:
  "deliver_all J (ms @ ms') k = Option.bind (deliver_all J ms k) (deliver_all J ms')"
  by (induction ms arbitrary: k) (simp_all split: option.splits)

abbreviation packed :: "'j \<Rightarrow> 'j meta_information" where
  "packed j \<equiv> \<lparr>mi_type = METAINFORMATION_MSGPACK, mi_content = j\<rparr>"

lemma packed_finds:
  assumes "json_laws J" and "j_find J d METHOD = Some (j_of_string J m)"
  shows "meta_method J (packed d) = Inr m"
    and "j_find J d PARAMS = Some p \<Longrightarrow> meta_params J (packed d) = p"
  using assms by (simp_all add: meta_method_def meta_params_def json_simps)

section \<open>Subscriptions\<close>

text \<open>The consumer's signal that a producer's signal describes, and when it has a description.\<close>

fun described :: "'j json_lib \<Rightarrow> 'j producer_signal \<Rightarrow> 'j signal" where
  "described J (Domain s) = (described_domain J (bs_number s) s)\<lparr>s_id := bs_id s\<rparr>"
| "described J (Value s) = (described_value J (bs_number s) s)\<lparr>s_id := bs_id s\<rparr>"

fun signal_ready :: "'j json_lib \<Rightarrow> 'j producer_signal \<Rightarrow> bool" where
  "signal_ready J (Domain s) \<longleftrightarrow> domain_ok s"
| "signal_ready J (Value s) \<longleftrightarrow> describable s \<and> start_ok J s"

fun meta_params_of :: "'j json_lib \<Rightarrow> 'j producer_signal \<Rightarrow> 'j" where
  "meta_params_of J (Domain s) = domain_params J s"
| "meta_params_of J (Value s) = composeRelatedSignals J s (value_params J s)"

lemma signal_meta_described:
  assumes J: "json_laws J" and "signal_ready J sg"
  shows "meta_method J (packed (signal_meta J sg)) = Inr META_METHOD_SIGNAL"
    and "meta_params J (packed (signal_meta J sg)) = meta_params_of J sg"
    and "processSignalMetaInformation J META_METHOD_SIGNAL (meta_params_of J sg)
      ((SubscribedSignal_init J (getNumber sg))\<lparr>s_id := getId sg\<rparr>) = (Inr 0, described J sg)"
proof -
  show "meta_method J (packed (signal_meta J sg)) = Inr META_METHOD_SIGNAL"
    using packed_finds(1) [OF J value_meta_finds(1) [OF J]] packed_finds(1) [OF J domain_meta_finds(1) [OF J]]
    by (cases sg) simp_all
  show "meta_params J (packed (signal_meta J sg)) = meta_params_of J sg"
    using packed_finds(2) [OF J value_meta_finds [OF J]] packed_finds(2) [OF J domain_meta_finds [OF J]]
    by (cases sg) simp_all
  show "processSignalMetaInformation J META_METHOD_SIGNAL (meta_params_of J sg)
      ((SubscribedSignal_init J (getNumber sg))\<lparr>s_id := getId sg\<rparr>) = (Inr 0, described J sg)"
  proof (cases sg)
    case (Domain s)
    with assms(2) have s: "domain_ok s" by simp
    show ?thesis unfolding Domain meta_params_of.simps getNumber.simps getId.simps described.simps
      by (rule domain_described [OF J s refl])
  next
    case (Value s)
    with assms(2) have s: "describable s" "start_ok J s" by simp_all
    show ?thesis unfolding Value meta_params_of.simps getNumber.simps getId.simps described.simps
      by (rule value_described [OF J s refl])
  qed
qed

lemma subscribe_doc_processed:
  fixes i :: string
  assumes J: "json_laws J"
  defines "p \<equiv> meta_params J (packed (subscribe_doc J i))"
  shows "meta_method J (packed (subscribe_doc J i)) = Inr META_METHOD_SUBSCRIBE"
    and "j_find J p META_SIGNALID = Some (j_of_string J i)"
    and "processSignalMetaInformation J META_METHOD_SUBSCRIBE p (SubscribedSignal_init J n) =
      (Inr 0, (SubscribedSignal_init J n)\<lparr>s_id := i\<rparr>)"
proof -
  have p: "p = j_put J (j_null J) META_SIGNALID (j_of_string J i)"
    using J by (simp add: p_def meta_params_def subscribe_doc_def json_simps)
  show "meta_method J (packed (subscribe_doc J i)) = Inr META_METHOD_SUBSCRIBE"
    using J by (simp add: meta_method_def subscribe_doc_def json_simps)
  show "j_find J p META_SIGNALID = Some (j_of_string J i)" using J by (simp add: p json_simps)
  then show "processSignalMetaInformation J META_METHOD_SUBSCRIBE p (SubscribedSignal_init J n) =
      (Inr 0, (SubscribedSignal_init J n)\<lparr>s_id := i\<rparr>)"
    using J by (simp add: processSignalMetaInformation_def meta_subscribe_def assign_text_def json_simps)
qed

text \<open>The container after a subscription: a new object, its number, its table, two calls.\<close>

definition subscribed_to :: "'j json_lib \<Rightarrow> 'j producer_signal \<Rightarrow> 'j container \<Rightarrow> 'j container" where
  "subscribed_to J sg c =
     (let n = getNumber sg; s = described J sg
      in c\<lparr>c_heap := c_heap c @ [s], c_signals := (c_signals c)(n \<mapsto> Some (length (c_heap c))),
           c_tables := enter_table n s (c_tables c),
           c_calls := c_calls c @
             [(c_signalMetaCb c, SignalMetaCb ((SubscribedSignal_init J n)\<lparr>s_id := getId sg\<rparr>)
                 META_METHOD_SUBSCRIBE (meta_params J (packed (subscribe_doc J (getId sg))))),
              (c_signalMetaCb c, SignalMetaCb s META_METHOD_SIGNAL (meta_params_of J sg))]\<rparr>)"

lemma subscribe_delivered:
  assumes J: "json_laws J" and "signal_ready J sg" and "getNumber sg \<noteq> 0"
    and "c_signals (k_container k) (getNumber sg) = None"
  shows "deliver_all J (subscribe_messages J sg) k = Some (k\<lparr>k_container := subscribed_to J sg (k_container k)\<rparr>)"
proof -
  let ?n = "getNumber sg" and ?c = "k_container k" and ?sub = "subscribe_doc J (getId sg)"
  let ?s = "(SubscribedSignal_init J ?n)\<lparr>s_id := getId sg\<rparr>"
  note sub = subscribe_doc_processed [OF J, of "getId sg"] and sig = signal_meta_described [OF J assms(2)]
  let ?c1 = "container_finish META_METHOD_SUBSCRIBE (meta_params J (packed ?sub)) ?n ?s
    (?c\<lparr>c_heap := c_heap ?c @ [?s], c_signals := (c_signals ?c)(?n \<mapsto> Some (length (c_heap ?c)))\<rparr>)"
  have c1: "container_processMetaInformation J ?n (packed ?sub) ?c = (Inr 0, ?c1)"
    using container_meta_subscribe [OF sub(1) assms(4) sub(2) sub(3)] by simp
  have r: "c_signals ?c1 ?n = Some (Some (length (c_heap ?c)))" "c_heap ?c1 ! length (c_heap ?c) = ?s"
    by (simp_all add: container_finish_def)
  have "container_processMetaInformation J ?n (packed (signal_meta J sg)) ?c1 =
      (Inr 0, container_finish META_METHOD_SIGNAL (meta_params_of J sg) ?n (described J sg)
        (set_object (length (c_heap ?c)) (described J sg) ?c1))"
    using container_meta_known [OF sig(1) _ _ r(1)] r(2) sig(2,3) by simp
  also have "\<dots> = (Inr 0, subscribed_to J sg ?c)"
    by (simp add: container_finish_def set_object_def subscribed_to_def Let_def)
  finally show ?thesis
    using assms(3) c1 by (simp add: subscribe_messages_def deliver_meta_def Let_def)
qed

section \<open>Handshake\<close>

text \<open>One command interface, as the constructor of a session documents it.\<close>

definition http_interface :: "'j json_lib \<Rightarrow> 'j \<Rightarrow> string \<Rightarrow> string \<Rightarrow> u32 \<Rightarrow> bool" where
  "http_interface J e path port version \<longleftrightarrow> j_is_object J e \<and>
     (\<exists>m v. is_post m \<and> stoi (filter (\<lambda>c. c \<noteq> CHR ''.'') v) = Some version \<and>
        j_find J e ''httpMethod'' = Some (j_of_string J m) \<and> j_find J e ''httpVersion'' = Some (j_of_string J v) \<and>
        j_find J e ''httpPath'' = Some (j_of_string J path) \<and> j_find J e ''port'' = Some (j_of_string J port))"

lemma meta_commandInterface_http:
  assumes J: "json_laws J" and "http_interface J e path port version" and "sm_httpControlPort s = []"
  shows "meta_commandInterface J e s =
    (Next, s\<lparr>sm_httpControlPath := path, sm_httpVersion := version, sm_httpControlPort := port\<rparr>)"
  using assms
  by (auto simp: http_interface_def meta_commandInterface_def index_string_def assign_httpVersion_def json_simps)

lemma apiVersion_delivered:
  assumes J: "json_laws J"
  shows "deliver_message J (Meta 0 (apiVersion_doc J)) k = Some (k\<lparr>
    k_streamMeta := (k_streamMeta k)\<lparr>sm_apiVersion := OPENDAQ_LT_STREAM_VERSION\<rparr>,
    k_calls := k_calls k @ [StreamMeta_call META_METHOD_APIVERSION
      (j_put J (j_null J) VERSION (j_of_string J OPENDAQ_LT_STREAM_VERSION))]\<rparr>)"
proof -
  let ?d = "apiVersion_doc J"
  have f: "j_find J ?d METHOD = Some (j_of_string J META_METHOD_APIVERSION)"
    "j_find J ?d PARAMS = Some (j_put J (j_null J) VERSION (j_of_string J OPENDAQ_LT_STREAM_VERSION))"
    using J by (simp_all add: apiVersion_doc_def json_simps)
  note p = packed_finds [OF J f(1)]
  have "to_decimal 1 = ''1''" "to_decimal 5 = ''5''" "to_decimal 0 = ''0''" by code_simp+
  then have "check_version OPENDAQ_LT_STREAM_VERSION = Next" using check_version_decimal [of 1 5 0] by simp
  then show ?thesis
    using J p(1) p(2) [OF f(2)]
    by (simp add: deliver_meta_def StreamMeta_process_def meta_apiVersion_def try_catch_def json_simps)
qed

lemma init_delivered:
  assumes J: "json_laws J" and ci: "j_is_object J ci \<Longrightarrow> \<exists>e. j_items J ci = [e] \<and> http_interface J e path port version"
    and "sm_httpControlPort (k_streamMeta k) = []"
  shows "\<exists>p. deliver_message J (Meta 0 (init_doc J i ci)) k = Some (k\<lparr>
    k_streamMeta := (let s = (k_streamMeta k)\<lparr>sm_streamId := i\<rparr> in if j_is_object J ci
       then s\<lparr>sm_httpControlPath := path, sm_httpVersion := version, sm_httpControlPort := port\<rparr> else s),
    k_calls := k_calls k @ [StreamMeta_call META_METHOD_INIT p]\<rparr>)"
proof -
  let ?d = "init_doc J i ci" and ?b = "j_put J (j_null J) META_STREAMID (j_of_string J i)"
  let ?p = "if j_is_object J ci then j_put J ?b COMMANDINTERFACES ci else ?b"
  have f: "j_find J ?d METHOD = Some (j_of_string J META_METHOD_INIT)" "j_find J ?d PARAMS = Some ?p"
    using J by (simp_all add: init_doc_def Let_def json_simps)
  note p = packed_finds [OF J f(1)]
  have v: "j_value_string J ?p META_STREAMID [] = Some i" using J by (simp add: json_simps)
  have "meta_init J ?p s = (Next, let s = s\<lparr>sm_streamId := i\<rparr> in if j_is_object J ci
       then s\<lparr>sm_httpControlPath := path, sm_httpVersion := version, sm_httpControlPort := port\<rparr> else s)"
    if "sm_httpControlPort s = []" for s
  proof (cases "j_is_object J ci")
    case True
    with ci obtain e where "j_items J ci = [e]" "http_interface J e path port version" by blast
    then show ?thesis
      using J True v that
      by (simp add: meta_init_def if_found_def json_simps meta_commandInterface_http [OF J])
  next
    case False
    then show ?thesis using J v by (simp add: meta_init_def if_found_def json_simps)
  qed
  then show ?thesis
    using J p(1) p(2) [OF f(2)] assms(3)
    by (intro exI [of _ ?p]) (simp add: deliver_meta_def StreamMeta_process_def try_catch_def)
qed

lemma announcement_delivered:
  assumes J: "json_laws J" and "ids \<noteq> []" and "m \<in> {META_METHOD_AVAILABLE, META_METHOD_UNAVAILABLE}"
  shows "\<exists>p v. deliver_message J (Meta 0 (signalIds_doc J m ids)) k =
      Some (k\<lparr>k_calls := k_calls k @ [StreamMeta_call m p]\<rparr>) \<and>
    j_find J p META_SIGNALIDS = Some v \<and> j_items J v = map (j_of_string J) ids"
proof -
  note f = signalIds_doc_finds [OF J, where m = m and ids = ids]
  obtain p v where p: "j_find J (signalIds_doc J m ids) PARAMS = Some p" "j_find J p META_SIGNALIDS = Some v"
    "j_items J v = map (j_of_string J) ids" using f(2) [OF assms(2)] by blast
  note q = packed_finds(1) [OF J f(1)] packed_finds(2) [OF J f(1) p(1)]
  have "deliver_message J (Meta 0 (signalIds_doc J m ids)) k = Some (k\<lparr>k_calls := k_calls k @ [StreamMeta_call m p]\<rparr>)"
    using assms(3) q by (auto simp: deliver_meta_def StreamMeta_process_def try_catch_def)
  with p show ?thesis by blast
qed

lemma addSignals_sends:
  "ps_stream (addSignals J S store sigs s) = stream_writer.send J S
     (case map fst (filter (\<lambda>(i, r). isDataSignal (store r)) sigs) of
        [] \<Rightarrow> [] | ids \<Rightarrow> [Meta 0 (signalIds_doc J META_METHOD_AVAILABLE ids)]) (ps_stream s)"
  "ps_allSignals (addSignals J S store sigs s) = insert_missing sigs (ps_allSignals s)"
  using announce_sends(1) [of J S] by (simp_all add: addSignals_def Let_def writeAvailableMetaInformation_def split: list.split)

section \<open>Measured data of a synchronous signal\<close>

text \<open>
  The consumer is in step with a producer: the value signal \<open>n\<close> with values of \<open>sz\<close> bytes and the
  value index \<open>i\<close>, and the linear time signal \<open>tn\<close> of its table, which gave the time \<open>t0\<close> to the
  value index \<open>ti\<close>.
\<close>

definition in_step :: "u32 \<Rightarrow> u32 \<Rightarrow> u64 \<Rightarrow> u64 \<Rightarrow> u64 \<Rightarrow> u64 \<Rightarrow> u64 \<Rightarrow> 'j container \<Rightarrow> bool" where
  "in_step n tn sz delta t0 ti i c \<longleftrightarrow>
     (\<exists>r q t. c_signals c n = Some (Some r) \<and> c_signals c tn = Some (Some q) \<and>
        r \<noteq> q \<and> r < length (c_heap c) \<and> q < length (c_heap c) \<and>
        s_number (c_heap c ! r) = n \<and> \<not> s_isTime (c_heap c ! r) \<and> s_rule (c_heap c ! r) = RULETYPE_EXPLICIT \<and>
        s_valueSize (c_heap c ! r) = sz \<and> s_linearValueIndex (c_heap c ! r) = i \<and>
        s_rule (c_heap c ! q) = RULETYPE_LINEAR \<and> s_linearDelta (c_heap c ! q) = delta \<and>
        s_time (c_heap c ! q) = t0 \<and> s_linearValueIndex (c_heap c ! q) = ti \<and>
        c_tables c (s_tableId (c_heap c ! r)) = Some t \<and> timeSignalNumber t = tn \<and> tn \<noteq> 0)"

text \<open>What the raw and the value callback get to see: signal number, time stamp, data, count.\<close>

definition raw_data :: "(nat \<times> 'j event) list \<Rightarrow> (u32 \<times> u64 \<times> byte list) list" where
  "raw_data calls = List.map_filter (\<lambda>(cb, ev). case ev of RawData s ts d \<Rightarrow> Some (s_number s, ts, d) | _ \<Rightarrow> None) calls"

definition value_data :: "(nat \<times> 'j event) list \<Rightarrow> (u32 \<times> u64 \<times> byte list \<times> u64) list" where
  "value_data calls =
     List.map_filter (\<lambda>(cb, ev). case ev of ValueData s ts d m \<Rightarrow> Some (s_number s, ts, d, m) | _ \<Rightarrow> None) calls"

lemma map_filter_append: "List.map_filter f (xs @ ys) = List.map_filter f xs @ List.map_filter f ys"
  by (simp add: List.map_filter_def)

lemmas data_simps = raw_data_def value_data_def map_filter_append map_filter_simps

text \<open>
  The path of data packets to the callbacks: a state of the consumer for the signal \<open>n\<close>, what a
  packet makes of it, and the time stamp and the count that its callbacks get.
\<close>

fun seen_packets ::
  "('s \<Rightarrow> u64) \<Rightarrow> (byte list \<Rightarrow> 's \<Rightarrow> 's) \<Rightarrow> (byte list \<Rightarrow> u64) \<Rightarrow> 's \<Rightarrow> byte list list \<Rightarrow> (u64 \<times> byte list \<times> u64) list" where
  "seen_packets stamp step count s [] = []"
| "seen_packets stamp step count s (d # ds) = (stamp s, d, count d) # seen_packets stamp step count (step d s) ds"

locale data_path =
  fixes n :: u32 and ready :: "'s \<Rightarrow> 'j container \<Rightarrow> bool" and whole :: "byte list \<Rightarrow> bool"
    and stamp :: "'s \<Rightarrow> u64" and step :: "byte list \<Rightarrow> 's \<Rightarrow> 's" and count :: "byte list \<Rightarrow> u64"
  assumes packet: "ready s c \<Longrightarrow> whole d \<Longrightarrow> \<exists>c'. container_processMeasuredData n d c = (Inr (ssize_of d), c') \<and>
    ready (step d s) c' \<and> c_signals c' = c_signals c \<and>
    raw_data (c_calls c') = raw_data (c_calls c) @ [(n, stamp s, d)] \<and>
    value_data (c_calls c') = value_data (c_calls c) @ [(n, stamp s, d, count d)]"
begin

lemma packets:
  assumes "ready s (k_container k)" and "\<forall>d \<in> set ds. whole d"
  shows "\<exists>c' s'. deliver_all J (map (Data n) ds) k = Some (k\<lparr>k_container := c'\<rparr>) \<and> ready s' c' \<and>
    c_signals c' = c_signals (k_container k) \<and>
    raw_data (c_calls c') = raw_data (c_calls (k_container k)) @
      map (\<lambda>(ts, d, m). (n, ts, d)) (seen_packets stamp step count s ds) \<and>
    value_data (c_calls c') = value_data (c_calls (k_container k)) @
      map (\<lambda>(ts, d, m). (n, ts, d, m)) (seen_packets stamp step count s ds)"
  using assms
proof (induction ds arbitrary: s k)
  case (Cons d ds)
  obtain c1 where c1: "container_processMeasuredData n d (k_container k) = (Inr (ssize_of d), c1)"
    "ready (step d s) c1" "c_signals c1 = c_signals (k_container k)"
    "raw_data (c_calls c1) = raw_data (c_calls (k_container k)) @ [(n, stamp s, d)]"
    "value_data (c_calls c1) = value_data (c_calls (k_container k)) @ [(n, stamp s, d, count d)]"
    using packet [of s "k_container k" d] Cons.prems by auto
  with Cons.IH [of "step d s" "k\<lparr>k_container := c1\<rparr>"] Cons.prems(2) show ?case
    by (simp add: deliver_data_def)
next
  case Nil
  then show ?case by (intro exI [of _ "k_container k"] exI [of _ s]) simp
qed

end

lemma value_packet:
  assumes "in_step n tn sz delta t0 ti i c" and "sz \<noteq> 0"
  shows "\<exists>c'. container_processMeasuredData n d c = (Inr (ssize_of d), c') \<and>
    in_step n tn sz delta t0 ti (i + size_of d div sz) c' \<and> c_signals c' = c_signals c \<and>
    raw_data (c_calls c') = raw_data (c_calls c) @ [(n, t0 + (i - ti) * delta, d)] \<and>
    value_data (c_calls c') = value_data (c_calls c) @ [(n, t0 + (i - ti) * delta, d, size_of d div sz)]"
proof -
  from assms(1) obtain r q t where h: "c_signals c n = Some (Some r)" "c_signals c tn = Some (Some q)"
    "r \<noteq> q" "r < length (c_heap c)" "q < length (c_heap c)"
    "s_number (c_heap c ! r) = n" "\<not> s_isTime (c_heap c ! r)" "s_rule (c_heap c ! r) = RULETYPE_EXPLICIT"
    "s_valueSize (c_heap c ! r) = sz" "s_linearValueIndex (c_heap c ! r) = i"
    "s_rule (c_heap c ! q) = RULETYPE_LINEAR" "s_linearDelta (c_heap c ! q) = delta"
    "s_time (c_heap c ! q) = t0" "s_linearValueIndex (c_heap c ! q) = ti"
    "c_tables c (s_tableId (c_heap c ! r)) = Some t" "timeSignalNumber t = tn" "tn \<noteq> 0"
    by (auto simp: in_step_def)
  define s1 where "s1 = (c_heap c ! r)\<lparr>s_timeSignal := Some q, s_linearDelta := delta\<rparr>"
  define c' where "c' = (set_object r (s1\<lparr>s_linearValueIndex := i + size_of d div sz\<rparr>) c)\<lparr>c_calls := c_calls c @
    [(c_dataAsRawCb c, RawData s1 (t0 + (i - ti) * delta) d),
     (c_dataAsValueCb c, ValueData s1 (t0 + (i - ti) * delta) d (size_of d div sz))]\<rparr>"
  have "container_processMeasuredData n d c = (Inr (ssize_of d), c')"
    using h assms(2)
    by (simp add: container_processMeasuredData_def container_valueData_def object_processMeasuredData_def
        signal_processMeasuredData_def deliver_def call_of_def set_object_def Let_def c'_def s1_def)
  moreover have "in_step n tn sz delta t0 ti (i + size_of d div sz) c'"
    unfolding in_step_def
    by (rule exI [of _ r], rule exI [of _ q], rule exI [of _ t]) (use h in \<open>simp add: c'_def s1_def set_object_def\<close>)
  ultimately show ?thesis using h(6) by (simp add: c'_def s1_def set_object_def data_simps)
qed

text \<open>The packets of a signal whose first value has the index \<open>i\<close>, with their time stamps and counts.\<close>

fun timed :: "u64 \<Rightarrow> u64 \<Rightarrow> u64 \<Rightarrow> u64 \<Rightarrow> byte list list \<Rightarrow> (u64 \<times> byte list \<times> u64) list" where
  "timed sz delta t0 i [] = []"
| "timed sz delta t0 i (d # ds) = (t0 + i * delta, d, size_of d div sz) # timed sz delta t0 (i + size_of d div sz) ds"

interpretation linear_path: data_path n "\<lambda>i c. in_step n tn sz delta t0 ti i c \<and> sz \<noteq> 0" "\<lambda>d. True"
  "\<lambda>i. t0 + (i - ti) * delta" "\<lambda>d i. i + size_of d div sz" "\<lambda>d. size_of d div sz" for n tn sz delta t0 ti
  using value_packet by unfold_locales blast

lemma seen_timed:
  "seen_packets (\<lambda>i. t0 + (i - 0) * delta) (\<lambda>d i. i + size_of d div sz) (\<lambda>d. size_of d div sz) i ds = timed sz delta t0 i ds"
  by (induction ds arbitrary: i) simp_all

lemma value_packets:
  assumes "in_step n tn sz delta t0 0 i (k_container k)" and "sz \<noteq> 0"
  shows "\<exists>c' i'. deliver_all J (map (Data n) ds) k = Some (k\<lparr>k_container := c'\<rparr>) \<and>
    in_step n tn sz delta t0 0 i' c' \<and>
    c_signals c' = c_signals (k_container k) \<and>
    raw_data (c_calls c') = raw_data (c_calls (k_container k)) @ map (\<lambda>(ts, d, m). (n, ts, d)) (timed sz delta t0 i ds) \<and>
    value_data (c_calls c') = value_data (c_calls (k_container k)) @ map (\<lambda>(ts, d, m). (n, ts, d, m)) (timed sz delta t0 i ds)"
  using linear_path.packets [of n tn sz delta t0 0 i k ds J] assms unfolding seen_timed by blast

text \<open>The start: both signals subscribed, and the time of the value index 0.\<close>

lemma pair_subscribed:
  fixes J :: "'j json_lib" and T :: "'j domain_signal" and V :: "'j value_signal"
  assumes "c_tables c (bs_tableId V) = None" and "bs_tableId T = bs_tableId V" and "quantity (vs_unit V) \<noteq> META_TIME"
  defines "c2 \<equiv> subscribed_to J (Value V) (subscribed_to J (Domain T) c)"
  shows "c_heap c2 = c_heap c @ [described J (Domain T), described J (Value V)]"
    and "c_signals c2 = (c_signals c)(bs_number T \<mapsto> Some (length (c_heap c)), bs_number V \<mapsto> Some (Suc (length (c_heap c))))"
    and "c_tables c2 = (c_tables c)(bs_tableId V \<mapsto> \<lparr>timeSignalNumber = bs_number T, dataSignalNumbers = [bs_number V]\<rparr>)"
    and "raw_data (c_calls c2) = raw_data (c_calls c)" and "value_data (c_calls c2) = value_data (c_calls c)"
proof -
  define dT where "dT = described J (Domain T)"
  define dV where "dV = described J (Value V)"
  have "s_isTime dT" "s_tableId dT = bs_tableId V" "\<not> s_isTime dV" "s_tableId dV = bs_tableId V"
    using assms(2,3) by (simp_all add: dT_def dV_def described_domain_def described_value_def SubscribedSignal_init_def)
  then show "c_heap c2 = c_heap c @ [described J (Domain T), described J (Value V)]"
    "c_signals c2 = (c_signals c)(bs_number T \<mapsto> Some (length (c_heap c)), bs_number V \<mapsto> Some (Suc (length (c_heap c))))"
    "c_tables c2 = (c_tables c)(bs_tableId V \<mapsto> \<lparr>timeSignalNumber = bs_number T, dataSignalNumbers = [bs_number V]\<rparr>)"
    "raw_data (c_calls c2) = raw_data (c_calls c)" "value_data (c_calls c2) = value_data (c_calls c)"
    using assms(1)
    by (simp_all add: c2_def subscribed_to_def Let_def dT_def [symmetric] dV_def [symmetric] enter_table_def Table_new_def
        data_simps insort_insert_key_def del: described.simps)
qed

lemma pair_delivered:
  assumes J: "json_laws J" and ready: "signal_ready J (Domain T)" "signal_ready J (Value V)"
    and "bs_number T \<noteq> 0" "bs_number V \<noteq> 0" "bs_number V \<noteq> bs_number T"
    and "c_signals (k_container k) (bs_number T) = None" "c_signals (k_container k) (bs_number V) = None"
  shows "deliver_all J (subscribe_messages J (Domain T) @ subscribe_messages J (Value V)) k =
    Some (k\<lparr>k_container := subscribed_to J (Value V) (subscribed_to J (Domain T) (k_container k))\<rparr>)"
proof -
  let ?c1 = "subscribed_to J (Domain T) (k_container k)"
  have "deliver_all J (subscribe_messages J (Domain T)) k = Some (k\<lparr>k_container := ?c1\<rparr>)"
    using subscribe_delivered [OF J ready(1), of k] assms(4,7) by simp
  moreover have "c_signals ?c1 (bs_number V) = None" using assms(6,8) by (simp add: subscribed_to_def Let_def)
  ultimately show ?thesis
    using subscribe_delivered [OF J ready(2), of "k\<lparr>k_container := ?c1\<rparr>"] assms(5) by (simp add: deliver_all_append)
qed

lemma streaming_starts:
  fixes J :: "'j json_lib" and T :: "'j domain_signal" and V :: "'j value_signal"
  assumes "c_tables c (bs_tableId V) = None" and "bs_tableId T = bs_tableId V"
    and "bs_number V \<noteq> bs_number T" and "bs_number T \<noteq> 0" and "ds_rule T = Linear_time delta"
    and "vs_rule V = Synchronous i" and "quantity (vs_unit V) \<noteq> META_TIME"
  defines "c2 \<equiv> subscribed_to J (Value V) (subscribed_to J (Domain T) c)"
  shows "\<exists>c3. container_processMeasuredData (bs_number T) (indexed_bytes 0 (le_bytes 8 t0)) c2 = (Inr 16, c3) \<and>
    in_step (bs_number V) (bs_number T) (word_of_nat (dataType_size (vs_dataType V))) delta t0 0 i c3 \<and>
    c_signals c3 = (c_signals c)(bs_number T \<mapsto> Some (length (c_heap c)), bs_number V \<mapsto> Some (Suc (length (c_heap c)))) \<and>
    raw_data (c_calls c3) = raw_data (c_calls c) \<and> value_data (c_calls c3) = value_data (c_calls c)"
proof -
  let ?n = "bs_number V" and ?tn = "bs_number T" and ?q = "length (c_heap c)" and ?d = "indexed_bytes 0 (le_bytes 8 t0)"
  let ?t = "\<lparr>timeSignalNumber = ?tn, dataSignalNumbers = [?n]\<rparr>"
  define dT where "dT = described J (Domain T)"
  define dV where "dV = described J (Value V)"
  have T: "s_isTime dT" "s_rule dT = RULETYPE_LINEAR" "s_tableId dT = bs_tableId V" "s_linearDelta dT = delta"
    using assms(2,5) by (simp_all add: dT_def described_domain_def getRuleType_def getTimeDelta_def)
  have V: "\<not> s_isTime dV" "s_rule dV = RULETYPE_EXPLICIT" "s_tableId dV = bs_tableId V" "s_number dV = ?n"
    "s_valueSize dV = word_of_nat (dataType_size (vs_dataType V))" "s_linearValueIndex dV = i"
    using assms(6,7) by (simp_all add: dV_def described_value_def SubscribedSignal_init_def)
  note c2 = pair_subscribed [OF assms(1,2,7), where J = J, folded c2_def dT_def dV_def]
  have d: "length ?d = 16" "indexed_index ?d = 0" "indexed_value ?d = t0"
    by (simp_all add: indexed_bytes_def indexed_index_def indexed_value_def)
  define c3 where "c3 = set_object ?q (implicit_time ?d dT) c2"
  have q: "c_heap c2 ! ?q = dT" "c_signals c2 ?tn = Some (Some ?q)" "c_signals c2 ?n = Some (Some (Suc ?q))"
    "c_tables c2 (s_tableId dT) = Some ?t"
    using c2 T(3) assms(3) by (simp_all add: nth_append)
  have "visit_dataSignal ?q (implicit_time ?d) ?n c2 = (Next, c3)"
    using q by (simp add: visit_dataSignal_def c3_def set_object_def Let_def)
  then have "container_processMeasuredData ?tn ?d c2 = (Inr (ssize_of ?d), c3)"
    using q T d by (simp add: container_processMeasuredData_def container_timeData_def implicit_time_blocks_def after_loop_def Let_def)
  moreover have "ssize_of ?d = 16" by (simp add: ssize_of_def size_of_def d)
  moreover have "in_step ?n ?tn (word_of_nat (dataType_size (vs_dataType V))) delta t0 0 i c3"
    unfolding in_step_def
    by (rule exI [of _ "Suc ?q"], rule exI [of _ ?q], rule exI [of _ ?t])
      (use T V c2 d assms(3,4) in \<open>simp add: c3_def set_object_def implicit_time_def nth_append\<close>)
  moreover have "c_calls c3 = c_calls c2" "c_signals c3 = c_signals c2" by (simp_all add: c3_def set_object_def)
  ultimately show ?thesis using c2(2,4,5) by simp
qed

text \<open>All of it as messages: two subscriptions, the start time, and the packets.\<close>

definition streaming_messages ::
  "'j json_lib \<Rightarrow> 'j domain_signal \<Rightarrow> 'j value_signal \<Rightarrow> u64 \<Rightarrow> byte list list \<Rightarrow> 'j message list" where
  "streaming_messages J T V t0 ds = subscribe_messages J (Domain T) @ subscribe_messages J (Value V) @
     [Data (bs_number T) (indexed_bytes 0 (le_bytes 8 t0))] @ map (Data (bs_number V)) ds"

lemma streaming_sendable:
  assumes fits: "\<forall>m \<in> set (subscribe_messages J (Domain T) @ subscribe_messages J (Value V)). sendable J m"
    and ds: "\<forall>d \<in> set ds. d \<noteq> [] \<and> length d < 2 ^ 32"
  shows "\<forall>m \<in> set (streaming_messages J T V t0 ds). sendable J m"
proof -
  let ?subs = "subscribe_messages J (Domain T) @ subscribe_messages J (Value V)"
  have "Meta (bs_number T) (subscribe_doc J (bs_id T)) \<in> set ?subs" "Meta (bs_number V) (subscribe_doc J (bs_id V)) \<in> set ?subs"
    by (simp_all add: subscribe_messages_def)
  with fits have "valid_number (bs_number T)" "valid_number (bs_number V)" unfolding sendable_def by force+
  moreover have "length (indexed_bytes 0 (le_bytes 8 t0)) = 16" by (simp add: indexed_bytes_def)
  ultimately have "sendable J (Data (bs_number T) (indexed_bytes 0 (le_bytes 8 t0)))" "\<forall>d \<in> set ds. sendable J (Data (bs_number V) d)"
    using ds by (auto simp: sendable_def)
  with fits show ?thesis by (auto simp: streaming_messages_def)
qed

lemma streaming_steps:
  assumes "deliver_all J (subscribe_messages J (Domain T) @ subscribe_messages J (Value V)) k = Some k2"
    and "deliver_all J [Data (bs_number T) (indexed_bytes 0 (le_bytes 8 t0))] k2 = Some k3"
    and "deliver_all J (map (Data (bs_number V)) ds) k3 = Some k4"
  shows "deliver_all J (streaming_messages J T V t0 ds) k = Some k4"
proof -
  let ?subs = "subscribe_messages J (Domain T) @ subscribe_messages J (Value V)"
    and ?first = "[Data (bs_number T) (indexed_bytes 0 (le_bytes 8 t0))]"
  have "streaming_messages J T V t0 ds = ?subs @ ?first @ map (Data (bs_number V)) ds"
    by (simp only: streaming_messages_def append_assoc)
  then show ?thesis by (simp only: deliver_all_append [where ms = ?subs] deliver_all_append [where ms = ?first] assms bind.bind_lunit)
qed

lemma streaming_delivered:
  fixes J :: "'j json_lib" and T :: "'j domain_signal" and V :: "'j value_signal" and k :: "'j consumer"
  assumes J: "json_laws J"
    and T: "domain_ok T" "ds_rule T = Linear_time delta" "bs_number T \<noteq> 0"
    and V: "describable V" "vs_rule V = Synchronous i" "quantity (vs_unit V) \<noteq> META_TIME" "bs_number V \<noteq> 0"
    and table: "bs_tableId T = bs_tableId V" "bs_number V \<noteq> bs_number T"
    and new: "c_signals (k_container k) (bs_number T) = None" "c_signals (k_container k) (bs_number V) = None"
      "c_tables (k_container k) (bs_tableId V) = None"
  defines "n \<equiv> bs_number V" and "tn \<equiv> bs_number T" and "c \<equiv> k_container k"
    and "sz \<equiv> word_of_nat (dataType_size (vs_dataType V)) :: u64"
  shows "\<exists>c' i' q r. deliver_all J (streaming_messages J T V t0 ds) k = Some (k\<lparr>k_container := c'\<rparr>) \<and>
    in_step n tn sz delta t0 0 i' c' \<and> c_signals c' = (c_signals c)(tn \<mapsto> Some q, n \<mapsto> Some r) \<and>
    raw_data (c_calls c') = raw_data (c_calls c) @ map (\<lambda>(ts, d, m). (n, ts, d)) (timed sz delta t0 i ds) \<and>
    value_data (c_calls c') = value_data (c_calls c) @ map (\<lambda>(ts, d, m). (n, ts, d, m)) (timed sz delta t0 i ds)"
proof -
  let ?c2 = "subscribed_to J (Value V) (subscribed_to J (Domain T) c)"
  have ready: "signal_ready J (Domain T)" "signal_ready J (Value V)"
    using T(1) V(1,2) by (simp_all add: start_ok_def)
  have s2: "deliver_all J (subscribe_messages J (Domain T) @ subscribe_messages J (Value V)) k = Some (k\<lparr>k_container := ?c2\<rparr>)"
    unfolding c_def using pair_delivered [OF J ready T(3) V(4) table(2)] new(1,2) by blast
  obtain c3 where c3: "container_processMeasuredData tn (indexed_bytes 0 (le_bytes 8 t0)) ?c2 = (Inr 16, c3)"
    "in_step n tn sz delta t0 0 i c3"
    "c_signals c3 = (c_signals c)(tn \<mapsto> Some (length (c_heap c)), n \<mapsto> Some (Suc (length (c_heap c))))"
    "raw_data (c_calls c3) = raw_data (c_calls c)" "value_data (c_calls c3) = value_data (c_calls c)"
    using streaming_starts [OF new(3) table T(3) T(2) V(2) V(3), where J = J and ?t0.0 = t0]
    unfolding n_def tn_def sz_def c_def by blast
  have s3: "deliver_all J [Data tn (indexed_bytes 0 (le_bytes 8 t0))] (k\<lparr>k_container := ?c2\<rparr>) = Some (k\<lparr>k_container := c3\<rparr>)"
    using c3(1) by (simp add: deliver_data_def)
  have "sz \<noteq> 0" using dataType_size_word by (simp add: sz_def)
  from value_packets [OF _ this, where k = "k\<lparr>k_container := c3\<rparr>" and J = J and ds = ds, of n tn delta t0 i] c3(2)
  obtain c4 i' where c4: "deliver_all J (map (Data n) ds) (k\<lparr>k_container := c3\<rparr>) = Some (k\<lparr>k_container := c4\<rparr>)"
    "in_step n tn sz delta t0 0 i' c4" "c_signals c4 = c_signals c3"
    "raw_data (c_calls c4) = raw_data (c_calls c3) @ map (\<lambda>(ts, d, m). (n, ts, d)) (timed sz delta t0 i ds)"
    "value_data (c_calls c4) = value_data (c_calls c3) @ map (\<lambda>(ts, d, m). (n, ts, d, m)) (timed sz delta t0 i ds)"
    by auto
  from streaming_steps [OF s2 s3 [unfolded tn_def] c4(1) [unfolded n_def]] have "deliver_all J (streaming_messages J T V t0 ds) k = Some (k\<lparr>k_container := c4\<rparr>)" .
  with c3 c4 show ?thesis by auto
qed

subsection \<open>The producer's side\<close>

text \<open>Packets of whole values, added one after the other.\<close>

definition whole_packet :: "data_type \<Rightarrow> byte list \<Rightarrow> bool" where
  "whole_packet t d \<longleftrightarrow> d \<noteq> [] \<and> length d < 2 ^ 32 \<and> dataType_size t dvd length d"

definition sample_count :: "data_type \<Rightarrow> byte list \<Rightarrow> u64" where
  "sample_count t d = word_of_nat (length d div dataType_size t)"

fun add_packets :: "('j, 'w) iwriter \<Rightarrow> byte list list \<Rightarrow> 'j value_signal \<Rightarrow> 'w \<Rightarrow> 'j value_signal \<times> 'w" where
  "add_packets W [] v w = (v, w)"
| "add_packets W (d # ds) v w =
     (case synchronous_addData W d (sample_count (vs_dataType v) d) v w of (r, v', w') \<Rightarrow> add_packets W ds v' w')"

lemma whole_packet_count:
  assumes "whole_packet t d"
  shows "unat (sample_count t d * word_of_nat (dataType_size t)) = length d"
    and "size_of d div word_of_nat (dataType_size t) = sample_count t d"
proof -
  let ?s = "dataType_size t"
  have l: "length d < 2 ^ 32" "?s dvd length d" using assms by (simp_all add: whole_packet_def)
  have s: "0 < ?s" "?s < 2 ^ 64" by (cases t; simp)+
  have "sample_count t d * word_of_nat ?s = word_of_nat (length d)"
    using l(2) by (simp add: sample_count_def flip: of_nat_mult)
  then show "unat (sample_count t d * word_of_nat ?s) = length d"
    using l(1) by (simp add: unat_of_nat)
  have "length d div ?s < 2 ^ 64" by (rule le_less_trans [OF div_le_dividend]) (use l(1) in simp)
  then have "unat (sample_count t d) = length d div ?s" by (simp add: sample_count_def unat_of_nat)
  moreover have "unat (size_of d div word_of_nat ?s :: u64) = length d div ?s"
    using l(1) s by (simp add: size_of_def unat_div unat_of_nat)
  ultimately show "size_of d div word_of_nat ?s = sample_count t d" by (simp add: word_unat_eq_iff)
qed

lemma addData_sends:
  assumes "whole_packet (vs_dataType v) d" and "vs_rule v = Synchronous i"
  shows "synchronous_addData (StreamWriter J S) d (sample_count (vs_dataType v) d) v w =
    (fst (iw_data (StreamWriter J S) (bs_number v) d w), v\<lparr>vs_rule := Synchronous (i + sample_count (vs_dataType v) d)\<rparr>,
     stream_writer.send J S [Data (bs_number v) d] w)"
  using whole_packet_count(1) [OF assms(1)] assms(2)
  by (simp add: synchronous_addData_def Let_def case_prod_beta)

lemma add_packets_sends:
  assumes "\<forall>d \<in> set ds. whole_packet (vs_dataType v) d" and "vs_rule v = Synchronous i"
  shows "add_packets (StreamWriter J S) ds v w =
    (v\<lparr>vs_rule := Synchronous (i + (\<Sum>d \<leftarrow> ds. sample_count (vs_dataType v) d))\<rparr>,
     stream_writer.send J S (map (Data (bs_number v)) ds) w)"
  using assms
proof (induction ds arbitrary: v i w)
  case (Cons d ds)
  let ?v = "v\<lparr>vs_rule := Synchronous (i + sample_count (vs_dataType v) d)\<rparr>"
  have "add_packets (StreamWriter J S) (d # ds) v w =
      add_packets (StreamWriter J S) ds ?v (stream_writer.send J S [Data (bs_number v) d] w)"
    using addData_sends [of v d i J S w] Cons.prems by simp
  also have "\<dots> = (?v\<lparr>vs_rule := Synchronous (i + sample_count (vs_dataType v) d + (\<Sum>d \<leftarrow> ds. sample_count (vs_dataType v) d))\<rparr>,
     stream_writer.send J S (map (Data (bs_number v)) ds) (stream_writer.send J S [Data (bs_number v) d] w))"
    using Cons.IH [of ?v] Cons.prems by simp
  finally show ?case by (simp add: add.assoc)
next
  case Nil
  then have "v\<lparr>vs_rule := Synchronous i\<rparr> = v" by (intro value_signal.equality) simp_all
  with Nil show ?case by simp
qed

lemma setTimeStart_sends:
  "setTimeStart (StreamWriter J S) t0 T w = (T\<lparr>ds_startInTicks := t0\<rparr>,
     stream_writer.send J S [Data (bs_number T) (indexed_bytes 0 (le_bytes 8 t0))] w)"
  by (simp add: setTimeStart_def case_prod_beta)

text \<open>\<open>Stream::write\<close> returns the number of bytes written.\<close>

definition counts :: "'w stream_io \<Rightarrow> bool" where
  "counts S \<longleftrightarrow> (\<forall>w bufs. fst (st_write S w bufs) = word_of_nat (length (concat bufs)))"

lemma memory_stream_counts: "counts memory_stream"
  by (simp add: counts_def memory_stream_def)

lemma int_of_size_small:
  assumes "n < 2 ^ 31"
  shows "int_of_size (word_of_nat n) = int n"
proof -
  have "take_bit 32 n = n" using assms by (simp add: take_bit_nat_eq_self_iff)
  moreover have "signed_take_bit 31 (int n) = int n" using assms by (intro signed_take_bit_int_eq_self) simp_all
  ultimately show ?thesis by (simp add: int_of_size_def unsigned_ucast_eq unsigned_of_nat sint_uint)
qed

lemma writeSignalData_accepted:
  assumes "counts S" and "length d < 2 ^ 31 - 8"
  shows "0 \<le> fst (iw_data (StreamWriter J S) n d w)"
proof -
  let ?h = "header_bytes TYPE_SIGNALDATA n (word_of_nat (length d))"
  have "length ?h \<le> 8" by (simp add: header_bytes_def createTransportHeader_def Let_def)
  with assms(2) have l: "length (concat [?h, d]) < 2 ^ 31" by simp
  have "fst (iw_data (StreamWriter J S) n d w) = int_of_size (word_of_nat (length (concat [?h, d])))"
    using assms(1) by (simp add: StreamWriter_def writeSignalData_def counts_def case_prod_beta)
  also have "\<dots> = int (length (concat [?h, d]))" by (rule int_of_size_small [OF l])
  finally show ?thesis by simp
qed

text \<open>What a complete run leaves in the container.\<close>

lemma container_run:
  assumes "json_laws J" and "reads I" and "\<forall>m \<in> set ms. sendable J m" and "at_header I [] h"
    and "deliver_all J ms (view h) = Some ((view h)\<lparr>k_container := c\<rparr>)"
  defines "bytes \<equiv> concat (map (message_bytes J) ms)"
  shows "(\<exists>h'. runs J I bytes h h' \<and> (\<nexists>h''. completes J I h' h'')) \<and>
    (\<forall>h'. runs J I bytes h h' \<and> (\<nexists>h''. completes J I h' h'') \<longrightarrow> h_container h' = c)"
proof -
  have "h_container h' = c" if "view h' = (view h)\<lparr>k_container := c\<rparr>" for h'
    using arg_cong [OF that, of k_container] by (simp add: view_def)
  with messages_run [OF assms(1-5)] show ?thesis unfolding bytes_def by blast
qed

section \<open>Properties\<close>

text \<open>
  C4: measured data from end to end. A producer subscribes a linear time signal and a
  synchronous signal of one table, tells the start time and adds packets of whole values. Its
  bytes reach a consumer that knows neither the signals nor the table, in pieces of any size.
  Then the consumer can read all of them, and whenever it can read no further, its raw and
  its value callback have been called once for each packet, in order, with the packet, its
  number of values, and the time stamp: start time plus delta times the value index that the
  producer had before the packet.
\<close>

theorem synchronous_data_end_to_end:
  fixes T :: "'j domain_signal" and V :: "'j value_signal" and w :: 'w and J :: "'j json_lib" and t0 :: u64
  assumes J: "json_laws J" and S: "delivers S wire" and I: "reads I" and "wire w = []"
    and T: "domain_ok T" "ds_rule T = Linear_time delta" "bs_number T \<noteq> 0"
    and V: "describable V" "vs_rule V = Synchronous i" "quantity (vs_unit V) \<noteq> META_TIME" "bs_number V \<noteq> 0"
    and table: "bs_tableId T = bs_tableId V" "bs_number V \<noteq> bs_number T"
    and fits: "\<forall>m \<in> set (subscribe_messages J (Domain T) @ subscribe_messages J (Value V)). sendable J m"
    and ds: "\<forall>d \<in> set ds. whole_packet (vs_dataType V) d"
    and h: "at_header I [] h" "c_signals (h_container h) (bs_number T) = None"
      "c_signals (h_container h) (bs_number V) = None" "c_tables (h_container h) (bs_tableId V) = None"
  defines "W \<equiv> StreamWriter J S"
  defines "w2 \<equiv> signal_subscribe J W (Value V) (signal_subscribe J W (Domain T) w)"
  defines "bytes \<equiv> wire (snd (add_packets W ds V (snd (setTimeStart W t0 T w2))))"
    and "expected \<equiv> timed (word_of_nat (dataType_size (vs_dataType V))) delta t0 i ds"
  shows "(\<exists>h'. runs J I bytes h h' \<and> (\<nexists>h''. completes J I h' h'')) \<and>
    (\<forall>h'. runs J I bytes h h' \<and> (\<nexists>h''. completes J I h' h'') \<longrightarrow>
       raw_data (c_calls (h_container h')) = raw_data (c_calls (h_container h)) @
         map (\<lambda>(ts, d, m). (bs_number V, ts, d)) expected \<and>
       value_data (c_calls (h_container h')) = value_data (c_calls (h_container h)) @
         map (\<lambda>(ts, d, m). (bs_number V, ts, d, m)) expected)"
proof -
  let ?n = "bs_number V" and ?ms = "streaming_messages J T V t0 ds" and ?k = "view h"
  have bytes: "bytes = concat (map (message_bytes J) ?ms)"
    using stream_writer.send_wire [OF S, of J ?ms w] assms(4) add_packets_sends [OF ds V(2), of J S]
    by (simp add: bytes_def w2_def W_def streaming_messages_def signal_subscribe_sends setTimeStart_sends stream_writer.send_append)
  have k: "k_container ?k = h_container h" by (simp add: view_def)
  from streaming_delivered [OF J T V table, of ?k t0 ds] h(2-4)
  obtain c4 where all: "deliver_all J ?ms ?k = Some (?k\<lparr>k_container := c4\<rparr>)"
    and c4: "raw_data (c_calls c4) = raw_data (c_calls (h_container h)) @ map (\<lambda>(ts, d, m). (?n, ts, d)) expected"
    "value_data (c_calls c4) = value_data (c_calls (h_container h)) @ map (\<lambda>(ts, d, m). (?n, ts, d, m)) expected"
    unfolding k expected_def by blast
  have ms: "\<forall>m \<in> set ?ms. sendable J m" by (rule streaming_sendable [OF fits]) (use ds in \<open>auto simp: whole_packet_def\<close>)
  from container_run [OF J I ms h(1) all] c4 show ?thesis unfolding bytes by auto
qed

definition example_packet :: "byte list" where
  "example_packet = [1, 2, 3, 4, 5, 6, 7, 8]"

lemma example_signals:
  "domain_ok example_time_signal" "ds_rule example_time_signal = Linear_time 1000000" "bs_number example_time_signal = 4"
  "describable example_value" "vs_rule example_value = Synchronous 5" "quantity (vs_unit example_value) \<noteq> META_TIME"
  "bs_number example_value = 7" "bs_tableId example_value = ''tab''" "bs_tableId example_time_signal = ''tab''"
  "vs_dataType example_value = Dt_double" "start_ok tree_lib example_value"
  by (simp_all add: example_time_signal_def domain_ok_def LinearTimeSignal_init_def BaseDomainSignal_init_def ticks_of_rate_def
      nextSignalNumber_def SIGNAL_NUMBER_MASK_def Let_def Resolution_valid_def Resolution_init_def
      example_value_def describable_def start_ok_def SynchronousSignal_init_def BaseValueSignal_init_def
      setRange_def setRelatedSignals_def Unit_representable_def Unit_clear_def)

lemma sendable_tree: "valid_number n \<Longrightarrow> length (enc d) < 2000 \<Longrightarrow> sendable tree_lib (Meta n d)"
  using enc_nonempty [of d] by (simp add: sendable_def tree_lib_def)

lemma example_fits:
  "\<forall>m \<in> set (subscribe_messages tree_lib (Domain example_time_signal) @ subscribe_messages tree_lib (Value example_value)).
     sendable tree_lib m"
proof -
  have "length (enc (subscribe_doc tree_lib (bs_id example_time_signal))) < 2000"
    "length (enc (signal_meta tree_lib (Domain example_time_signal))) < 2000"
    "length (enc (subscribe_doc tree_lib (bs_id example_value))) < 2000"
    "length (enc (signal_meta tree_lib (Value example_value))) < 2000"
    by code_simp+
  moreover have "valid_number 4" "valid_number 7" by (simp_all add: valid_number_def SIGNAL_NUMBER_MASK_def)
  ultimately show ?thesis by (simp add: subscribe_messages_def sendable_tree example_signals)
qed

theorem synchronous_data_end_to_end_witness:
  "\<exists>h'. runs tree_lib buffer_stream
      (let W = StreamWriter tree_lib memory_stream;
           w2 = signal_subscribe tree_lib W (Value example_value) (signal_subscribe tree_lib W (Domain example_time_signal) [])
       in snd (add_packets W [example_packet, example_packet] example_value (snd (setTimeStart W 100 example_time_signal w2))))
      example_session h' \<and>
    raw_data (c_calls (h_container h')) = [(7, 5000100, example_packet), (7, 6000100, example_packet)]"
proof -
  have "length example_packet = 8" by (simp add: example_packet_def)
  then have packet: "whole_packet Dt_double example_packet" by (auto simp: whole_packet_def)
  have h: "at_header buffer_stream [] example_session" "h_container example_session = SignalContainer_init"
    by (simp_all add: example_session_def at_header_def buffer_stream_def ProtocolHandler_init_def)
  have size: "size_of example_packet div 8 = 1" by (simp add: size_of_def example_packet_def)
  have none: "raw_data (c_calls (SignalContainer_init :: jtree container)) = []"
    by (simp add: SignalContainer_init_def data_simps)
  note e = synchronous_data_end_to_end [OF tree_json_laws memory_stream_delivers buffer_stream_reads refl example_signals(1,2) _
      example_signals(4,5,6) _ _ _ example_fits, where ds = "[example_packet, example_packet]" and h = example_session and ?t0.0 = 100]
  have "c_signals (SignalContainer_init :: jtree container) = Map.empty"
    "c_tables (SignalContainer_init :: jtree container) = Map.empty"
    by (simp_all add: SignalContainer_init_def)
  with e show ?thesis by (auto simp: Let_def example_signals packet h size none)
qed

text \<open>
  C18: the handshake. What the constructor of a producer session writes, received by a
  consumer that has no control port yet, tells the consumer the version of the protocol, the
  stream id, which is the end point of the producer's stream, and, when there is a command
  interface, its path, port and HTTP version.
\<close>

theorem handshake_end_to_end:
  assumes J: "json_laws J" and S: "delivers S wire" and I: "reads I" and "wire w = []"
    and ci: "j_is_object J ci \<Longrightarrow> \<exists>e. j_items J ci = [e] \<and> http_interface J e path port version"
    and fits: "\<forall>m \<in> set (initial_messages J (st_url S w) ci). sendable J m"
    and h: "at_header I [] h" "sm_httpControlPort (h_streamMeta h) = []"
  defines "bytes \<equiv> wire (ps_stream (ProducerSession_init J S w ci))"
  shows "(\<exists>h'. runs J I bytes h h' \<and> (\<nexists>h''. completes J I h' h'')) \<and>
    (\<forall>h'. runs J I bytes h h' \<and> (\<nexists>h''. completes J I h' h'') \<longrightarrow> h_streamMeta h' =
      (let s = (h_streamMeta h)\<lparr>sm_apiVersion := OPENDAQ_LT_STREAM_VERSION, sm_streamId := st_url S w\<rparr>
       in if j_is_object J ci
          then s\<lparr>sm_httpControlPath := path, sm_httpVersion := version, sm_httpControlPort := port\<rparr> else s))"
proof -
  let ?i = "st_url S w" and ?k = "view h"
  have bytes: "bytes = concat (map (message_bytes J) (initial_messages J ?i ci))"
    unfolding bytes_def ProducerSession_init_sends [OF S] stream_writer.send_wire [OF S] assms(4) by simp
  define k1 where "k1 = ?k\<lparr>k_streamMeta := (h_streamMeta h)\<lparr>sm_apiVersion := OPENDAQ_LT_STREAM_VERSION\<rparr>,
    k_calls := h_calls h @ [StreamMeta_call META_METHOD_APIVERSION
      (j_put J (j_null J) VERSION (j_of_string J OPENDAQ_LT_STREAM_VERSION))]\<rparr>"
  have api: "deliver_message J (Meta 0 (apiVersion_doc J)) ?k = Some k1"
    using apiVersion_delivered [OF J, of ?k] unfolding k1_def view_def consumer.select_convs .
  have "sm_httpControlPort (k_streamMeta k1) = []" using h(2) by (simp add: k1_def)
  from init_delivered [OF J ci this, of ?i] obtain p where
    init: "deliver_message J (Meta 0 (init_doc J ?i ci)) k1 = Some (k1\<lparr>
      k_streamMeta := (let s = (k_streamMeta k1)\<lparr>sm_streamId := ?i\<rparr> in if j_is_object J ci
         then s\<lparr>sm_httpControlPath := path, sm_httpVersion := version, sm_httpControlPort := port\<rparr> else s),
      k_calls := k_calls k1 @ [StreamMeta_call META_METHOD_INIT p]\<rparr>)" (is "_ = Some ?k2") by blast
  have all: "deliver_all J (initial_messages J ?i ci) ?k = Some ?k2"
    unfolding initial_messages_def deliver_all.simps api option.case init ..
  have "h_streamMeta h' = (let s = (h_streamMeta h)\<lparr>sm_apiVersion := OPENDAQ_LT_STREAM_VERSION, sm_streamId := st_url S w\<rparr>
       in if j_is_object J ci
          then s\<lparr>sm_httpControlPath := path, sm_httpVersion := version, sm_httpControlPort := port\<rparr> else s)"
    if "view h' = ?k2" for h' :: "('a, 'd) handler"
    using arg_cong [OF that, of k_streamMeta] unfolding view_def consumer.select_convs consumer.update_convs
    by (simp add: k1_def)
  with messages_run [OF J I fits h(1) all] show ?thesis unfolding bytes by blast
qed

definition example_interface :: jtree where
  "example_interface = TObj [(''httpMethod'', TStr ''POST''), (''httpVersion'', TStr ''1.1''),
     (''httpPath'', TStr ''/lt''), (''port'', TStr ''7438'')]"

definition example_interfaces :: jtree where
  "example_interfaces = TObj [(''jsonrpc-http'', example_interface)]"

theorem handshake_end_to_end_witness:
  "\<exists>h'. runs tree_lib buffer_stream (ps_stream (ProducerSession_init tree_lib memory_stream [] example_interfaces)) example_session h' \<and>
    sm_streamId (h_streamMeta h') = ''memory'' \<and> sm_httpControlPath (h_streamMeta h') = ''/lt'' \<and>
    sm_httpControlPort (h_streamMeta h') = ''7438'' \<and> sm_httpVersion (h_streamMeta h') = 11"
proof -
  have i: "j_is_object tree_lib example_interfaces"
    "\<exists>e. j_items tree_lib example_interfaces = [e] \<and> http_interface tree_lib e ''/lt'' ''7438'' 11"
  proof -
    have "j_items tree_lib example_interfaces = [example_interface]" by (simp add: tree_lib_def example_interfaces_def)
    moreover have "scan_number (filter (\<lambda>c. c \<noteq> CHR ''.'') ''1.1'') = Some (False, 11)" by code_simp
    then have "stoi (filter (\<lambda>c. c \<noteq> CHR ''.'') ''1.1'') = Some 11" unfolding stoi_def by simp
    moreover have "j_is_object tree_lib example_interface" "is_post ''POST''"
      "j_find tree_lib example_interface ''httpMethod'' = Some (j_of_string tree_lib ''POST'')"
      "j_find tree_lib example_interface ''httpVersion'' = Some (j_of_string tree_lib ''1.1'')"
      "j_find tree_lib example_interface ''httpPath'' = Some (j_of_string tree_lib ''/lt'')"
      "j_find tree_lib example_interface ''port'' = Some (j_of_string tree_lib ''7438'')"
      by code_simp+
    ultimately show "\<exists>e. j_items tree_lib example_interfaces = [e] \<and> http_interface tree_lib e ''/lt'' ''7438'' 11"
      unfolding http_interface_def by blast
  qed code_simp
  have "length (enc (apiVersion_doc tree_lib)) < 2000" "length (enc (init_doc tree_lib ''memory'' example_interfaces)) < 2000"
    by code_simp+
  moreover have "valid_number 0" by (simp add: valid_number_def SIGNAL_NUMBER_MASK_def)
  moreover have url: "st_url memory_stream [] = ''memory''" by (simp add: memory_stream_def)
  ultimately have fits: "\<forall>m \<in> set (initial_messages tree_lib (st_url memory_stream []) example_interfaces). sendable tree_lib m"
    by (simp add: initial_messages_def sendable_tree)
  have h: "at_header buffer_stream [] example_session" "sm_httpControlPort (h_streamMeta example_session) = []"
    by (simp_all add: example_session_def at_header_def buffer_stream_def ProtocolHandler_init_def StreamMeta_init_def)
  show ?thesis
    using handshake_end_to_end [OF tree_json_laws memory_stream_delivers buffer_stream_reads refl i(2) fits h] i(1) url
    by auto
qed

lemma subscriptions_delivered:
  assumes J: "json_laws J" and "\<forall>sg \<in> set sgs. signal_ready J sg \<and> getNumber sg \<noteq> 0 \<and> c_signals (k_container k) (getNumber sg) = None"
    and "distinct (map getNumber sgs)"
  shows "deliver_all J (concat (map (subscribe_messages J) sgs)) k =
    Some (k\<lparr>k_container := fold (subscribed_to J) sgs (k_container k)\<rparr>)"
  using assms(2,3)
proof (induction sgs arbitrary: k)
  case (Cons sg sgs)
  let ?k = "k\<lparr>k_container := subscribed_to J sg (k_container k)\<rparr>"
  have "deliver_all J (subscribe_messages J sg) k = Some ?k" using Cons.prems by (intro subscribe_delivered [OF J]) simp_all
  moreover have "deliver_all J (concat (map (subscribe_messages J) sgs)) ?k =
      Some (?k\<lparr>k_container := fold (subscribed_to J) sgs (k_container ?k)\<rparr>)"
  proof (rule Cons.IH)
    have "getNumber sg' \<noteq> getNumber sg" if "sg' \<in> set sgs" for sg'
      using that Cons.prems(2) by (metis distinct.simps(2) image_eqI list.set_map list.simps(9))
    then show "\<forall>sg' \<in> set sgs. signal_ready J sg' \<and> getNumber sg' \<noteq> 0 \<and> c_signals (k_container ?k) (getNumber sg') = None"
      using Cons.prems(1) by (simp add: subscribed_to_def Let_def)
  qed (use Cons.prems(2) in simp)
  ultimately show ?case by (simp add: deliver_all_append)
qed simp

text \<open>
  C10: subscriptions. When a session subscribes the signals that a list of ids names, signals
  with different numbers other than 0 that the consumer has not subscribed yet, the consumer
  reads all of it, and whenever it can read no further, it has, for each named signal in that
  order, a subscribed signal with the description of the producer's signal, entered in its table,
  and its meta callback has been called for the acknowledge and for the description. (A second
  acknowledge of a number is refused by the container and closes the session, so a list that
  names a signal twice is not covered.)
\<close>

theorem subscriptions_end_to_end:
  assumes J: "json_laws J" and S: "delivers S wire" and I: "reads I"
    and sub: "subscribeSignals J (StreamWriter J S) store ids s = (count, s')"
    and sgs: "sgs = named_signals store (ps_allSignals s) ids" "distinct (map getNumber sgs)"
    and new: "\<forall>sg \<in> set sgs. signal_ready J sg \<and> getNumber sg \<noteq> 0 \<and> c_signals (h_container h) (getNumber sg) = None"
    and fits: "\<forall>sg \<in> set sgs. \<forall>m \<in> set (subscribe_messages J sg). sendable J m" and h: "at_header I [] h"
  shows "count = length sgs \<and> (\<exists>bytes. wire (ps_stream s') = wire (ps_stream s) @ bytes \<and>
    (\<exists>h'. runs J I bytes h h' \<and> (\<nexists>h''. completes J I h' h'')) \<and>
    (\<forall>h'. runs J I bytes h h' \<and> (\<nexists>h''. completes J I h' h'') \<longrightarrow>
       h_container h' = fold (subscribed_to J) sgs (h_container h)))"
proof -
  let ?ms = "concat (map (subscribe_messages J) sgs)" and ?k = "view h"
  have s': "count = length sgs" "ps_stream s' = stream_writer.send J S ?ms (ps_stream s)"
    using sub unfolding subscribeSignals_sends sgs(1) by auto
  have ms: "\<forall>m \<in> set ?ms. sendable J m" using fits by auto
  have k: "k_container ?k = h_container h" by (simp add: view_def)
  have all: "deliver_all J ?ms ?k = Some (?k\<lparr>k_container := fold (subscribed_to J) sgs (h_container h)\<rparr>)"
    using subscriptions_delivered [OF J _ sgs(2), of ?k] new unfolding k by blast
  from container_run [OF J I ms h all] stream_writer.send_wire [OF S, of J ?ms "ps_stream s"] s' show ?thesis
    by (intro conjI exI [of _ "concat (map (message_bytes J) ?ms)"]) auto
qed

theorem subscriptions_end_to_end_witness:
  "let s' = snd (subscribeSignals tree_lib (StreamWriter tree_lib memory_stream)
       (\<lambda>r. if r = 0 then Domain example_time_signal else Value example_value) [''value'', ''nothing'', ''time'']
       \<lparr>ps_stream = [], ps_allSignals = [''time'' \<mapsto> 0, ''value'' \<mapsto> 1], ps_errorCb = True, ps_pending = [], ps_errors = []\<rparr>)
   in \<exists>h'. runs tree_lib buffer_stream (ps_stream s') example_session h' \<and>
     h_container h' = fold (subscribed_to tree_lib) [Value example_value, Domain example_time_signal] SignalContainer_init"
proof -
  let ?store = "\<lambda>r :: nat. if r = 0 then Domain example_time_signal else Value example_value"
  let ?s = "\<lparr>ps_stream = [], ps_allSignals = [''time'' \<mapsto> 0, ''value'' \<mapsto> 1], ps_errorCb = True, ps_pending = [], ps_errors = []\<rparr>"
  let ?sgs = "[Value example_value, Domain example_time_signal]" and ?ids = "[''value'', ''nothing'', ''time'']"
  have sgs: "?sgs = named_signals ?store (ps_allSignals ?s) ?ids"
    by (simp add: named_signals_def map_filter_simps)
  have new: "\<forall>sg \<in> set ?sgs. signal_ready tree_lib sg \<and> getNumber sg \<noteq> 0 \<and>
      c_signals (h_container example_session) (getNumber sg) = None"
    by (simp add: example_signals example_session_def ProtocolHandler_init_def SignalContainer_init_def)
  have h: "at_header buffer_stream [] example_session" "h_container example_session = SignalContainer_init"
    by (simp_all add: example_session_def at_header_def buffer_stream_def ProtocolHandler_init_def)
  have "distinct (map getNumber ?sgs)" by (simp add: example_signals)
  from subscriptions_end_to_end [OF tree_json_laws memory_stream_delivers buffer_stream_reads prod.collapse [symmetric] sgs this new _ h(1)]
    example_fits show ?thesis unfolding h(2) by (auto simp: Let_def)
qed

end
