(* ===== verification/Table_Connection.thy ===== *)
theory Table_Connection
  imports Connection
begin

text \<open>
  Any number of signals in any number of tables over one connection: a producer subscribes
  linear time signals and synchronous signals in any order, and then writes start times and
  packets of the signals as they come. Shown: the packets of a signal are seen with the time
  stamps they would have if it were alone.
\<close>

section \<open>Signals and their tables\<close>

text \<open>
  A list of signals that can be streamed: the numbers are different, a table has one linear time
  signal and at least one synchronous signal. \<open>index\<close> gives the value index of a number.
\<close>

definition streamable :: "'j producer_signal \<Rightarrow> (u32 \<Rightarrow> u64) \<Rightarrow> bool" where
  "streamable sg index = (case sg of
     Domain T \<Rightarrow> (\<exists>delta. ds_rule T = Linear_time delta)
   | Value V \<Rightarrow> vs_rule V = Synchronous (index (bs_number V)) \<and> quantity (vs_unit V) \<noteq> META_TIME)"

definition one_time :: "'j producer_signal list \<Rightarrow> bool" where
  "one_time sgs \<longleftrightarrow> (\<forall>T T'. Domain T \<in> set sgs \<and> Domain T' \<in> set sgs \<and> bs_tableId T = bs_tableId T' \<longrightarrow> T = T')"

definition tabled :: "'j producer_signal list \<Rightarrow> (u32 \<Rightarrow> u64) \<Rightarrow> bool" where
  "tabled sgs index \<longleftrightarrow> distinct (map getNumber sgs) \<and> one_time sgs \<and>
     (\<forall>sg \<in> set sgs. getNumber sg \<noteq> 0 \<and> streamable sg index) \<and>
     (\<forall>V. Value V \<in> set sgs \<longrightarrow> (\<exists>T. Domain T \<in> set sgs \<and> bs_tableId T = bs_tableId V)) \<and>
     (\<forall>T. Domain T \<in> set sgs \<longrightarrow> (\<exists>V. Value V \<in> set sgs \<and> bs_tableId V = bs_tableId T))"

text \<open>The consumer's object of a value signal, as far as the interpretation of its values depends on it.\<close>

definition reads_as :: "'j value_signal \<Rightarrow> 'j signal \<Rightarrow> bool" where
  "reads_as V s \<longleftrightarrow> s_number s = bs_number V \<and> s_rule s = RULETYPE_EXPLICIT \<and>
     s_valueType s = getSampleType (vs_dataType V) \<and> s_valueSize s = word_of_nat (dataType_size (vs_dataType V))"

text \<open>
  The consumer's object of a signal, when \<open>started\<close> gives the start times told so far and
  \<open>index\<close> the index of the next value.
\<close>

fun mirrors :: "(u32 \<rightharpoonup> u64) \<Rightarrow> (u32 \<Rightarrow> u64) \<Rightarrow> 'j producer_signal \<Rightarrow> 'j signal \<Rightarrow> bool" where
  "mirrors started index (Domain T) s \<longleftrightarrow>
     s_number s = bs_number T \<and> s_tableId s = bs_tableId T \<and> s_isTime s \<and> s_rule s = RULETYPE_LINEAR \<and>
     s_linearDelta s = getTimeDelta T \<and>
     (\<forall>t. started (bs_number T) = Some t \<longrightarrow> s_time s = t \<and> s_linearValueIndex s = 0)"
| "mirrors started index (Value V) s \<longleftrightarrow>
     reads_as V s \<and> s_tableId s = bs_tableId V \<and> \<not> s_isTime s \<and> s_linearValueIndex s = index (bs_number V)"

definition entered :: "'j producer_signal list \<Rightarrow> string \<Rightarrow> table \<Rightarrow> bool" where
  "entered sgs tab t \<longleftrightarrow>
     (\<forall>T. Domain T \<in> set sgs \<and> bs_tableId T = tab \<longrightarrow> timeSignalNumber t = bs_number T) \<and>
     set (dataSignalNumbers t) = {bs_number V |V. Value V \<in> set sgs \<and> bs_tableId V = tab}"

definition streams :: "'j producer_signal list \<Rightarrow> (u32 \<rightharpoonup> u64) \<Rightarrow> (u32 \<Rightarrow> u64) \<Rightarrow> 'j container \<Rightarrow> bool" where
  "streams sgs started index c \<longleftrightarrow> (\<forall>sg \<in> set sgs.
     (\<exists>r < length (c_heap c). c_signals c (getNumber sg) = Some (Some r) \<and> mirrors started index sg (c_heap c ! r)) \<and>
     (\<exists>t. c_tables c (getTableId sg) = Some t \<and> entered sgs (getTableId sg) t))"

lemma mirrors_number: "mirrors st ix sg s \<Longrightarrow> s_number s = getNumber sg"
  by (cases sg) (simp_all add: reads_as_def)

lemma same_number: "distinct (map getNumber sgs) \<Longrightarrow> sg \<in> set sgs \<Longrightarrow> sg' \<in> set sgs \<Longrightarrow> getNumber sg = getNumber sg' \<Longrightarrow> sg = sg'"
  using inj_onD [of getNumber "set sgs" sg sg'] by (simp add: distinct_map)

lemma described_mirrors: "streamable sg index \<Longrightarrow> mirrors Map.empty index sg (described J sg)"
  by (cases sg) (auto simp: streamable_def described_domain_def described_value_def SubscribedSignal_init_def getRuleType_def
      reads_as_def)

section \<open>Subscriptions\<close>

lemma entered_enter:
  assumes "entered sgs tab t" and "one_time (sgs @ [sg])" and "getTableId sg = tab"
    and "s_isTime s \<longleftrightarrow> \<not> isDataSignal sg"
  shows "entered (sgs @ [sg]) tab (if s_isTime s then t\<lparr>timeSignalNumber := getNumber sg\<rparr>
    else t\<lparr>dataSignalNumbers := insort_insert (getNumber sg) (dataSignalNumbers t)\<rparr>)"
proof (cases sg)
  case (Domain T)
  then have "T' = T" if "Domain T' \<in> set sgs" "bs_tableId T' = tab" for T'
    using assms(2,3) that by (auto simp: one_time_def)
  then show ?thesis using assms Domain by (auto simp: entered_def)
next
  case (Value V)
  then show ?thesis using assms by (auto simp: entered_def set_insort_insert)
qed

lemma entered_other: "entered sgs tab t \<Longrightarrow> getTableId sg \<noteq> tab \<Longrightarrow> entered (sgs @ [sg]) tab t"
  by (cases sg) (auto simp: entered_def)

lemma entered_new: "\<forall>sg \<in> set sgs. getTableId sg \<noteq> tab \<Longrightarrow> entered sgs tab Table_new"
  by (force simp: entered_def Table_new_def)

lemma subscribed_to_frame:
  "n \<noteq> getNumber sg \<Longrightarrow> c_signals (subscribed_to J sg c) n = c_signals c n"
  "tab \<noteq> getTableId sg \<Longrightarrow> c_tables (subscribed_to J sg c) tab = c_tables c tab"
  "raw_data (c_calls (subscribed_to J sg c)) = raw_data (c_calls c)"
  "value_data (c_calls (subscribed_to J sg c)) = value_data (c_calls c)"
proof -
  have "s_tableId (described J sg) = getTableId sg"
    by (cases sg) (simp_all add: described_domain_def described_value_def)
  then show "tab \<noteq> getTableId sg \<Longrightarrow> c_tables (subscribed_to J sg c) tab = c_tables c tab"
    by (simp add: subscribed_to_def enter_table_def Let_def)
qed (simp_all add: subscribed_to_def Let_def data_simps)

lemma subscribe_streams:
  assumes "streams sgs Map.empty index c" and "getTableId sg \<notin> getTableId ` set sgs \<Longrightarrow> c_tables c (getTableId sg) = None"
    and "one_time (sgs @ [sg])" and "streamable sg index" and "getNumber sg \<notin> getNumber ` set sgs"
  shows "streams (sgs @ [sg]) Map.empty index (subscribed_to J sg c)"
proof -
  let ?s = "described J sg" and ?n = "getNumber sg" and ?tab = "getTableId sg"
  note sg = described_mirrors [OF assms(4), of J]
  then have s: "s_tableId ?s = ?tab" "s_isTime ?s \<longleftrightarrow> \<not> isDataSignal sg" by (cases sg; simp)+
  define t where "t = (case c_tables c ?tab of None \<Rightarrow> Table_new | Some t \<Rightarrow> t)"
  have "entered sgs ?tab t"
  proof (cases "?tab \<in> getTableId ` set sgs")
    case False
    then have "entered sgs ?tab Table_new" by (intro entered_new) (metis imageI)
    then show ?thesis using assms(2) [OF False] by (simp add: t_def)
  qed (use assms(1) in \<open>auto simp: streams_def t_def\<close>)
  note t' = entered_enter [OF this assms(3) refl s(2)]
  define c1 where "c1 = subscribed_to J sg c"
  have c1: "c_heap c1 = c_heap c @ [?s]" "c_signals c1 = (c_signals c)(?n \<mapsto> Some (length (c_heap c)))"
    "c_tables c1 = (c_tables c)(?tab \<mapsto> if s_isTime ?s then t\<lparr>timeSignalNumber := ?n\<rparr>
       else t\<lparr>dataSignalNumbers := insort_insert ?n (dataSignalNumbers t)\<rparr>)"
    unfolding c1_def subscribed_to_def Let_def enter_table_def s(1) t_def [symmetric] by simp_all
  have "(\<exists>r < length (c_heap c1). c_signals c1 (getNumber sg') = Some (Some r) \<and> mirrors Map.empty index sg' (c_heap c1 ! r)) \<and>
      (\<exists>t. c_tables c1 (getTableId sg') = Some t \<and> entered (sgs @ [sg]) (getTableId sg') t)" if "sg' \<in> set sgs" for sg'
  proof -
    from that obtain r t0 where "r < length (c_heap c)" "c_signals c (getNumber sg') = Some (Some r)"
      "mirrors Map.empty index sg' (c_heap c ! r)" "c_tables c (getTableId sg') = Some t0" "entered sgs (getTableId sg') t0"
      using assms(1) by (auto simp: streams_def)
    moreover have "getNumber sg' \<noteq> ?n" using that assms(5) by (metis imageI)
    ultimately show ?thesis using t' entered_other [of sgs "getTableId sg'" t0 sg] by (auto simp: c1 nth_append)
  qed
  then show ?thesis using sg t' unfolding c1_def [symmetric] streams_def by (auto simp: c1)
qed

lemma subscribed_streams:
  fixes J :: "'j json_lib"
  assumes "distinct (map getNumber sgs)" and "one_time sgs" and "\<forall>sg \<in> set sgs. streamable sg index"
    and "\<forall>sg \<in> set sgs. c_tables c (getTableId sg) = None"
  defines "c' \<equiv> fold (subscribed_to J) sgs c"
  shows "streams sgs Map.empty index c' \<and> (\<forall>n. n \<notin> getNumber ` set sgs \<longrightarrow> c_signals c' n = c_signals c n) \<and>
    (\<forall>tab. tab \<notin> getTableId ` set sgs \<longrightarrow> c_tables c' tab = c_tables c tab) \<and>
    raw_data (c_calls c') = raw_data (c_calls c) \<and> value_data (c_calls c') = value_data (c_calls c)"
  using assms(1-4) unfolding c'_def
proof (induction sgs rule: rev_induct)
  case (snoc sg sgs)
  let ?c = "fold (subscribed_to J) sgs c"
  have IH: "streams sgs Map.empty index ?c" "\<forall>n. n \<notin> getNumber ` set sgs \<longrightarrow> c_signals ?c n = c_signals c n"
    "\<forall>tab. tab \<notin> getTableId ` set sgs \<longrightarrow> c_tables ?c tab = c_tables c tab"
    "raw_data (c_calls ?c) = raw_data (c_calls c)" "value_data (c_calls ?c) = value_data (c_calls c)"
    using snoc by (auto simp: one_time_def)
  have "streams (sgs @ [sg]) Map.empty index (subscribed_to J sg ?c)"
    using snoc.prems IH(3) by (intro subscribe_streams [OF IH(1)]) auto
  then show ?case using IH by (simp add: subscribed_to_frame)
qed (simp add: streams_def)

section \<open>Measured data\<close>

definition callbacks :: "'j container \<Rightarrow> nat \<times> nat \<times> nat" where
  "callbacks c = (c_signalMetaCb c, c_dataAsRawCb c, c_dataAsValueCb c)"

text \<open>A change of one object, which belongs to one signal.\<close>

lemma streams_write:
  fixes sgs :: "'j producer_signal list" and c :: "'j container"
  assumes "streams sgs started index c" and "distinct (map getNumber sgs)" and "sg \<in> set sgs"
    and "c_signals c (getNumber sg) = Some (Some r)" and "mirrors started' index' sg s"
    and "\<And>(sg' :: 'j producer_signal) s'. getNumber sg' \<noteq> getNumber sg \<Longrightarrow> mirrors started index sg' s' \<Longrightarrow> mirrors started' index' sg' s'"
    and "c_heap c' = (c_heap c)[r := s]" and "c_signals c' = c_signals c" and "c_tables c' = c_tables c"
  shows "streams sgs started' index' c'"
  unfolding streams_def
proof
  fix sg' assume sg': "sg' \<in> set sgs"
  then obtain r' where r': "r' < length (c_heap c)" "c_signals c (getNumber sg') = Some (Some r')"
    "mirrors started index sg' (c_heap c ! r')" "\<exists>t. c_tables c (getTableId sg') = Some t \<and> entered sgs (getTableId sg') t"
    using assms(1) by (auto simp: streams_def)
  obtain r0 where r0: "c_signals c (getNumber sg) = Some (Some r0)" "mirrors started index sg (c_heap c ! r0)"
    using assms(1,3) by (auto simp: streams_def)
  have "mirrors started' index' sg' (c_heap c' ! r')"
  proof (cases "getNumber sg' = getNumber sg")
    case True
    then have "sg' = sg" using sg' same_number assms(2,3) by blast
    then show ?thesis using assms(4,5,7) r'(1,2) by simp
  next
    case False
    have "r' \<noteq> r" using False mirrors_number [OF r'(3)] mirrors_number [OF r0(2)] r0(1) assms(4) by auto
    then show ?thesis using assms(6) [OF False r'(3)] assms(7) by simp
  qed
  with r' assms(7-9) show "(\<exists>r < length (c_heap c'). c_signals c' (getNumber sg') = Some (Some r) \<and>
      mirrors started' index' sg' (c_heap c' ! r)) \<and>
    (\<exists>t. c_tables c' (getTableId sg') = Some t \<and> entered sgs (getTableId sg') t)" by auto
qed

lemma start_streams:
  assumes "streams sgs started index c" and "tabled sgs index0" and "Domain T \<in> set sgs"
  shows "\<exists>c'. container_processMeasuredData (bs_number T) (indexed_bytes 0 (le_bytes 8 t0)) c = (Inr 16, c') \<and>
    streams sgs (started(bs_number T \<mapsto> t0)) index c' \<and> c_signals c' = c_signals c \<and> c_calls c' = c_calls c \<and> callbacks c' = callbacks c"
proof -
  let ?d = "indexed_bytes 0 (le_bytes 8 t0)" and ?tab = "bs_tableId T"
  obtain r t where r: "r < length (c_heap c)" "c_signals c (bs_number T) = Some (Some r)" "mirrors started index (Domain T) (c_heap c ! r)"
    and t: "c_tables c ?tab = Some t" "entered sgs ?tab t"
    using assms(1,3) by (force simp: streams_def)
  obtain V where V: "Value V \<in> set sgs" "bs_tableId V = ?tab" using assms(2,3) by (auto simp: tabled_def)
  have members: "\<forall>k \<in> set (dataSignalNumbers t). \<exists>d. c_signals c k = Some (Some d)"
    using assms(1) t(2) by (force simp: streams_def entered_def)
  have "dataSignalNumbers t \<noteq> []" using V t(2) by (auto simp: entered_def)
  moreover have d: "length ?d = 16" "indexed_index ?d = 0" "indexed_value ?d = t0" "ssize_of ?d = 16"
    by (simp_all add: indexed_bytes_def indexed_index_def indexed_value_def ssize_of_def size_of_def)
  ultimately have "container_processMeasuredData (bs_number T) ?d c = (Inr 16, set_object r (implicit_time ?d (c_heap c ! r)) c)"
    using r t(1) visit_all [of "implicit_time ?d", OF _ r(1) members]
    by (simp add: container_processMeasuredData_def container_timeData_def implicit_time_blocks_def after_loop_def Let_def
        implicit_time_def)
  moreover have "streams sgs (started(bs_number T \<mapsto> t0)) index (set_object r (implicit_time ?d (c_heap c ! r)) c)"
  proof (rule streams_write [OF assms(1) _ assms(3)])
    show "mirrors (started(bs_number T \<mapsto> t0)) index (Domain T) (implicit_time ?d (c_heap c ! r))"
      using r(3) d by (simp add: implicit_time_def)
    show "mirrors (started(bs_number T \<mapsto> t0)) index sg' s'"
      if "getNumber sg' \<noteq> getNumber (Domain T)" "mirrors started index sg' s'" for sg' s'
      using that by (cases sg') auto
  qed (use assms(2) r in \<open>simp_all add: tabled_def set_object_def\<close>)
  ultimately show ?thesis by (auto simp: set_object_def callbacks_def)
qed

lemma samples_streams:
  fixes d :: "byte list"
  assumes "streams sgs started index c" and "tabled sgs index0" and "Value V \<in> set sgs" and "Domain T \<in> set sgs"
    and "bs_tableId T = bs_tableId V" and "started (bs_number T) = Some t0"
  defines "n \<equiv> bs_number V" and "m \<equiv> size_of d div word_of_nat (dataType_size (vs_dataType V))"
  defines "ts \<equiv> t0 + index (bs_number V) * getTimeDelta T"
  shows "\<exists>c' s. container_processMeasuredData n d c = (Inr (ssize_of d), c') \<and>
    streams sgs started (index(n := index n + m)) c' \<and> c_signals c' = c_signals c \<and> callbacks c' = callbacks c \<and>
    reads_as V s \<and> c_calls c' = c_calls c @ [(c_dataAsRawCb c, RawData s ts d), (c_dataAsValueCb c, ValueData s ts d m)]"
proof -
  obtain r t where r: "r < length (c_heap c)" "c_signals c n = Some (Some r)" "mirrors started index (Value V) (c_heap c ! r)"
    and t: "c_tables c (bs_tableId V) = Some t" "entered sgs (bs_tableId V) t"
    using assms(1,3) by (force simp: streams_def n_def)
  obtain q where q: "q < length (c_heap c)" "c_signals c (bs_number T) = Some (Some q)" "mirrors started index (Domain T) (c_heap c ! q)"
    using assms(1,4) by (force simp: streams_def)
  have tn: "timeSignalNumber t = bs_number T" "bs_number T \<noteq> 0"
    using t(2) assms(2,4,5) by (force simp: entered_def tabled_def)+
  have neq: "r \<noteq> q" using r(3) q(3) by auto
  have sz: "word_of_nat (dataType_size (vs_dataType V)) \<noteq> (0 :: u64)" by (rule dataType_size_word)
  define s1 where "s1 = (c_heap c ! r)\<lparr>s_timeSignal := Some q, s_linearDelta := getTimeDelta T\<rparr>"
  define c' where "c' = (set_object r (s1\<lparr>s_linearValueIndex := index n + m\<rparr>) c)\<lparr>c_calls := c_calls c @
    [(c_dataAsRawCb c, RawData s1 ts d), (c_dataAsValueCb c, ValueData s1 ts d m)]\<rparr>"
  have "container_processMeasuredData n d c = (Inr (ssize_of d), c')"
    using r q t(1) tn neq sz assms(6)
    by (simp add: container_processMeasuredData_def container_valueData_def object_processMeasuredData_def
        signal_processMeasuredData_def deliver_def call_of_def set_object_def Let_def c'_def s1_def m_def ts_def n_def reads_as_def)
  moreover have "streams sgs started (index(n := index n + m)) c'"
  proof (rule streams_write [OF assms(1) _ assms(3)])
    show "mirrors started (index(n := index n + m)) (Value V) (s1\<lparr>s_linearValueIndex := index n + m\<rparr>)"
      using r(3) by (simp add: s1_def n_def reads_as_def)
    show "mirrors started (index(n := index n + m)) sg' s'"
      if "getNumber sg' \<noteq> getNumber (Value V)" "mirrors started index sg' s'" for sg' s'
      using that by (cases sg') (auto simp: n_def)
  qed (use assms(2) r in \<open>simp_all add: tabled_def set_object_def c'_def n_def\<close>)
  moreover have "reads_as V s1" using r(3) by (simp add: s1_def reads_as_def)
  ultimately show ?thesis by (intro exI [of _ c'] exI [of _ s1]) (simp add: c'_def set_object_def callbacks_def)
qed

section \<open>Packets in any order\<close>

datatype 'j packet = Start "'j domain_signal" u64 | Samples "'j value_signal" "byte list"

fun packet_message :: "'j packet \<Rightarrow> 'j message" where
  "packet_message (Start T t) = Data (bs_number T) (indexed_bytes 0 (le_bytes 8 t))"
| "packet_message (Samples V d) = Data (bs_number V) d"

text \<open>The time signal of a value signal.\<close>

fun time_signal :: "'j producer_signal list \<Rightarrow> 'j value_signal \<Rightarrow> 'j domain_signal" where
  "time_signal (Domain T # sgs) V = (if bs_tableId T = bs_tableId V then T else time_signal sgs V)"
| "time_signal (Value _ # sgs) V = time_signal sgs V"

lemma time_signal_eq:
  assumes "one_time sgs" and "Domain T \<in> set sgs" and "bs_tableId T = bs_tableId V"
  shows "time_signal sgs V = T"
proof -
  have "Domain (time_signal sgs V) \<in> set sgs \<and> bs_tableId (time_signal sgs V) = bs_tableId V"
    using assms(2,3)
  proof (induction sgs)
    case (Cons sg sgs)
    then show ?case by (cases sg) auto
  qed simp
  with assms show ?thesis unfolding one_time_def by metis
qed

lemma tabled_time:
  assumes "tabled sgs index" and "Value V \<in> set sgs"
  shows "Domain (time_signal sgs V) \<in> set sgs" and "bs_tableId (time_signal sgs V) = bs_tableId V"
proof -
  obtain T where "Domain T \<in> set sgs" "bs_tableId T = bs_tableId V" using assms by (auto simp: tabled_def)
  moreover then have "time_signal sgs V = T" using assms(1) by (intro time_signal_eq) (simp_all add: tabled_def)
  ultimately show "Domain (time_signal sgs V) \<in> set sgs" "bs_tableId (time_signal sgs V) = bs_tableId V" by simp_all
qed

text \<open>Packets of known signals, each after the start time of its table.\<close>

fun in_time :: "'j producer_signal list \<Rightarrow> u32 set \<Rightarrow> 'j packet list \<Rightarrow> bool" where
  "in_time sgs started [] \<longleftrightarrow> True"
| "in_time sgs started (Start T t # ps) \<longleftrightarrow> Domain T \<in> set sgs \<and> in_time sgs (insert (bs_number T) started) ps"
| "in_time sgs started (Samples V d # ps) \<longleftrightarrow>
     Value V \<in> set sgs \<and> bs_number (time_signal sgs V) \<in> started \<and> in_time sgs started ps"

text \<open>What the callbacks are called with: number, time stamp, data and count.\<close>

fun observed ::
  "'j producer_signal list \<Rightarrow> (u32 \<rightharpoonup> u64) \<Rightarrow> (u32 \<Rightarrow> u64) \<Rightarrow> 'j packet list \<Rightarrow> (u32 \<times> u64 \<times> byte list \<times> u64) list" where
  "observed sgs started index [] = []"
| "observed sgs started index (Start T t # ps) = observed sgs (started(bs_number T \<mapsto> t)) index ps"
| "observed sgs started index (Samples V d # ps) =
     (let n = bs_number V; T = time_signal sgs V; m = size_of d div word_of_nat (dataType_size (vs_dataType V))
      in (n, the (started (bs_number T)) + index n * getTimeDelta T, d, m) # observed sgs started (index(n := index n + m)) ps)"

text \<open>The calls of the callbacks this stands for.\<close>

fun reported ::
  "'j producer_signal list \<Rightarrow> nat \<Rightarrow> nat \<Rightarrow> (u32 \<times> u64 \<times> byte list \<times> u64) list \<Rightarrow> (nat \<times> 'j event) list \<Rightarrow> bool" where
  "reported sgs raw val [] calls \<longleftrightarrow> calls = []"
| "reported sgs raw val ((n, ts, d, m) # seen) calls \<longleftrightarrow>
     (\<exists>V s rest. Value V \<in> set sgs \<and> n = bs_number V \<and> reads_as V s \<and>
        calls = (raw, RawData s ts d) # (val, ValueData s ts d m) # rest \<and> reported sgs raw val seen rest)"

lemma subscribed_calls:
  "callbacks (fold (subscribed_to J) sgs c) = callbacks c"
  "c_calls (fold (subscribed_to J) sgs c) = c_calls c @ concat (map (\<lambda>sg.
     [(c_signalMetaCb c, SignalMetaCb ((SubscribedSignal_init J (getNumber sg))\<lparr>s_id := getId sg\<rparr>)
         META_METHOD_SUBSCRIBE (meta_params J (packed (subscribe_doc J (getId sg))))),
      (c_signalMetaCb c, SignalMetaCb (described J sg) META_METHOD_SIGNAL (meta_params_of J sg))]) sgs)"
proof (induction sgs arbitrary: c)
  case (Cons sg sgs)
  case 1
  show ?case using Cons(1) [of "subscribed_to J sg c"] by (simp add: subscribed_to_def Let_def callbacks_def)
  case 2
  show ?case using Cons(2) [of "subscribed_to J sg c"] by (simp add: subscribed_to_def Let_def)
qed simp_all

lemma reported_data:
  "reported sgs raw val seen calls \<Longrightarrow> raw_data calls = map (\<lambda>(n, ts, d, m). (n, ts, d)) seen \<and> value_data calls = seen"
  by (induction sgs raw val seen calls rule: reported.induct) (auto simp: data_simps reads_as_def)

lemma packets_reported:
  assumes "tabled sgs index0" and "streams sgs started index (k_container k)" and "in_time sgs (dom started) ps"
    and "callbacks (k_container k) = (meta, raw, val)"
  shows "\<exists>c' started' index' calls. deliver_all J (map packet_message ps) k = Some (k\<lparr>k_container := c'\<rparr>) \<and>
    streams sgs started' index' c' \<and> c_signals c' = c_signals (k_container k) \<and>
    c_calls c' = c_calls (k_container k) @ calls \<and> reported sgs raw val (observed sgs started index ps) calls"
  using assms(2-)
proof (induction ps arbitrary: started index k)
  case (Cons p ps)
  show ?case
  proof (cases p)
    case (Start T t)
    have ps: "Domain T \<in> set sgs" "in_time sgs (dom (started(bs_number T \<mapsto> t))) ps" using Cons.prems(2) Start by simp_all
    obtain c1 where c1: "container_processMeasuredData (bs_number T) (indexed_bytes 0 (le_bytes 8 t)) (k_container k) = (Inr 16, c1)"
      "streams sgs (started(bs_number T \<mapsto> t)) index (k_container (k\<lparr>k_container := c1\<rparr>))"
      "c_signals c1 = c_signals (k_container k)" "c_calls c1 = c_calls (k_container k)"
      "callbacks (k_container (k\<lparr>k_container := c1\<rparr>)) = (meta, raw, val)"
      using start_streams [OF Cons.prems(1) assms(1) ps(1)] Cons.prems(3) by auto
    from Cons.IH [OF c1(2) ps(2) c1(5)] c1(1,3,4) Start show ?thesis by (simp add: deliver_data_def fun_upd_def)
  next
    case (Samples V d)
    let ?n = "bs_number V" and ?T = "time_signal sgs V" and ?m = "size_of d div word_of_nat (dataType_size (vs_dataType V))"
    have V: "Value V \<in> set sgs" "bs_number ?T \<in> dom started" "in_time sgs (dom started) ps" using Cons.prems(2) Samples by simp_all
    note T = tabled_time [OF assms(1) V(1)]
    from V(2) obtain t0 where t0: "started (bs_number ?T) = Some t0" by auto
    have cbs: "c_dataAsRawCb (k_container k) = raw" "c_dataAsValueCb (k_container k) = val"
      using Cons.prems(3) by (simp_all add: callbacks_def)
    from samples_streams [OF Cons.prems(1) assms(1) V(1) T t0, of d] Cons.prems(3) cbs obtain c1 s
      where c1: "container_processMeasuredData ?n d (k_container k) = (Inr (ssize_of d), c1)"
        "streams sgs started (index(?n := index ?n + ?m)) (k_container (k\<lparr>k_container := c1\<rparr>))" "c_signals c1 = c_signals (k_container k)"
        "callbacks (k_container (k\<lparr>k_container := c1\<rparr>)) = (meta, raw, val)" "reads_as V s"
        "c_calls c1 = c_calls (k_container k) @ [(raw, RawData s (t0 + index ?n * getTimeDelta ?T) d),
           (val, ValueData s (t0 + index ?n * getTimeDelta ?T) d ?m)]" by auto
    from Cons.IH [OF c1(2) V(3) c1(4)] obtain c' st' ix' calls
      where "deliver_all J (map packet_message ps) (k\<lparr>k_container := c1\<rparr>) = Some (k\<lparr>k_container := c'\<rparr>)"
        "streams sgs st' ix' c'" "c_signals c' = c_signals c1" "c_calls c' = c_calls c1 @ calls"
        "reported sgs raw val (observed sgs started (index(?n := index ?n + ?m)) ps) calls"
      by (auto simp: fun_upd_def)
    with c1 V(1) t0 Samples show ?thesis
      by (intro exI [of _ c'] exI [of _ st'] exI [of _ ix'] exI [of _ "(raw, RawData s (t0 + index ?n * getTimeDelta ?T) d) #
            (val, ValueData s (t0 + index ?n * getTimeDelta ?T) d ?m) # calls"])
        (auto simp: deliver_data_def Let_def fun_upd_def)
  qed
next
  case Nil
  then show ?case by (intro exI [of _ "k_container k"]) auto
qed

lemma packets_delivered:
  assumes "tabled sgs index0" and "streams sgs started index (k_container k)" and "in_time sgs (dom started) ps"
  shows "\<exists>c' started' index'. deliver_all J (map packet_message ps) k = Some (k\<lparr>k_container := c'\<rparr>) \<and>
    streams sgs started' index' c' \<and> c_signals c' = c_signals (k_container k) \<and>
    raw_data (c_calls c') = raw_data (c_calls (k_container k)) @ map (\<lambda>(n, ts, d, m). (n, ts, d)) (observed sgs started index ps) \<and>
    value_data (c_calls c') = value_data (c_calls (k_container k)) @ observed sgs started index ps"
proof -
  obtain meta raw val where "callbacks (k_container k) = (meta, raw, val)" by (cases "callbacks (k_container k)") auto
  from packets_reported [OF assms this, of J] obtain c' started' index' calls
    where "deliver_all J (map packet_message ps) k = Some (k\<lparr>k_container := c'\<rparr>)"
      "streams sgs started' index' c'" "c_signals c' = c_signals (k_container k)"
      "c_calls c' = c_calls (k_container k) @ calls" "reported sgs raw val (observed sgs started index ps) calls" by blast
  with reported_data [OF this(5)] show ?thesis
    by (intro exI [of _ c'] exI [of _ started'] exI [of _ index']) (simp add: raw_data_def value_data_def map_filter_append)
qed

text \<open>The packets of one signal among all packets, and what is observed of it.\<close>

fun packets_of :: "u32 \<Rightarrow> 'j packet list \<Rightarrow> byte list list" where
  "packets_of n [] = []"
| "packets_of n (Start T t # ps) = packets_of n ps"
| "packets_of n (Samples V d # ps) = (if bs_number V = n then d # packets_of n ps else packets_of n ps)"

fun starts_of :: "u32 \<Rightarrow> 'j packet list \<Rightarrow> u64 list" where
  "starts_of n [] = []"
| "starts_of n (Start T t # ps) = (if bs_number T = n then t # starts_of n ps else starts_of n ps)"
| "starts_of n (Samples V d # ps) = starts_of n ps"

lemma observed_after_start:
  fixes V :: "'j value_signal" and sgs :: "'j producer_signal list"
  assumes "distinct (map getNumber sgs)" and "Value V \<in> set sgs" and "in_time sgs st ps"
    and "starts_of (bs_number (time_signal sgs V)) ps = []" and "started (bs_number (time_signal sgs V)) = Some t0"
  defines "n \<equiv> bs_number V" and "sz \<equiv> word_of_nat (dataType_size (vs_dataType V)) :: u64" and "T \<equiv> time_signal sgs V"
  shows "filter (\<lambda>e. fst e = n) (observed sgs started index ps) =
    map (\<lambda>(ts, d, m). (n, ts, d, m)) (timed sz (getTimeDelta T) t0 (index n) (packets_of n ps))"
  using assms(3-5)
proof (induction ps arbitrary: started index st)
  case (Cons p ps)
  show ?case
  proof (cases p)
    case (Start T' t)
    then have other: "bs_number T' \<noteq> bs_number (time_signal sgs V)" using Cons.prems(2) by auto
    have "filter (\<lambda>e. fst e = n) (observed sgs (started(bs_number T' \<mapsto> t)) index ps) =
        map (\<lambda>(ts, d, m). (n, ts, d, m)) (timed sz (getTimeDelta T) t0 (index n) (packets_of n ps))"
      by (rule Cons.IH [of "insert (bs_number T') st"]) (use Start other Cons.prems in auto)
    with Start show ?thesis by simp
  next
    case (Samples V' d)
    have "V' = V" if "bs_number V' = n"
    proof -
      have "Value V' \<in> set sgs" using Cons.prems(1) Samples by simp
      from same_number [OF assms(1) this assms(2)] that have "Value V' = Value V" by (simp add: n_def)
      then show ?thesis by simp
    qed
    with Samples Cons show ?thesis
      by (cases "bs_number V' = n") (auto simp: T_def [symmetric] sz_def Let_def fun_upd_def)
  qed
qed simp

lemma observed_signal:
  fixes V :: "'j value_signal" and sgs :: "'j producer_signal list"
  assumes "tabled sgs index0" and "Value V \<in> set sgs" and "in_time sgs st ps"
    and "starts_of (bs_number (time_signal sgs V)) ps = [t0]" and "bs_number (time_signal sgs V) \<notin> st"
  defines "n \<equiv> bs_number V" and "sz \<equiv> word_of_nat (dataType_size (vs_dataType V)) :: u64" and "T \<equiv> time_signal sgs V"
  shows "filter (\<lambda>e. fst e = n) (observed sgs started index ps) =
    map (\<lambda>(ts, d, m). (n, ts, d, m)) (timed sz (getTimeDelta T) t0 (index n) (packets_of n ps))"
  using assms(3-5)
proof (induction ps arbitrary: started index st)
  case (Cons p ps)
  have distinct: "distinct (map getNumber sgs)" using assms(1) by (simp add: tabled_def)
  show ?case
  proof (cases p)
    case (Start T' t)
    show ?thesis
    proof (cases "bs_number T' = bs_number T")
      case True
      then have "starts_of (bs_number (time_signal sgs V)) ps = []" "t = t0" "in_time sgs (insert (bs_number T') st) ps"
        using Cons.prems Start by (auto simp: T_def)
      from observed_after_start [OF distinct assms(2) this(3,1), of "started(bs_number T' \<mapsto> t)" t0] this(2) True Start
      show ?thesis by (simp add: n_def sz_def T_def)
    next
      case False
      have "filter (\<lambda>e. fst e = n) (observed sgs (started(bs_number T' \<mapsto> t)) index ps) =
          map (\<lambda>(ts, d, m). (n, ts, d, m)) (timed sz (getTimeDelta T) t0 (index n) (packets_of n ps))"
        by (rule Cons.IH [of "insert (bs_number T') st"]) (use Start False Cons.prems in \<open>auto simp: T_def\<close>)
      with Start show ?thesis by simp
    qed
  next
    case (Samples V' d)
    have "bs_number V' \<noteq> n"
    proof
      assume "bs_number V' = n"
      moreover have "Value V' \<in> set sgs" "bs_number (time_signal sgs V') \<in> st" using Cons.prems(1) Samples by simp_all
      ultimately have "Value V' = Value V" using same_number [OF distinct _ assms(2)] by (simp add: n_def)
      with \<open>bs_number (time_signal sgs V') \<in> st\<close> Cons.prems(3) show False by simp
    qed
    with Samples Cons show ?thesis by (auto simp: Let_def)
  qed
qed simp

section \<open>The producer\<close>

text \<open>
  The operations of the producer for these packets, on the current state of its signals: \<open>store\<close>
  has the value signals by their numbers.
\<close>

fun produce ::
  "('j, 'w) iwriter \<Rightarrow> 'j packet list \<Rightarrow> (u32 \<Rightarrow> 'j value_signal) \<Rightarrow> 'w \<Rightarrow> (u32 \<Rightarrow> 'j value_signal) \<times> 'w" where
  "produce W [] store w = (store, w)"
| "produce W (Start T t # ps) store w = produce W ps store (snd (setTimeStart W t T w))"
| "produce W (Samples V d # ps) store w =
     (let v = store (bs_number V) in
      case synchronous_addData W d (sample_count (vs_dataType v) d) v w of
        (r, v', w') \<Rightarrow> produce W ps (store(bs_number V := v')) w')"

lemma produce_sends:
  assumes "\<forall>V d. Samples V d \<in> set ps \<longrightarrow> whole_packet (vs_dataType V) d \<and> bs_number (store (bs_number V)) = bs_number V \<and>
      vs_dataType (store (bs_number V)) = vs_dataType V \<and> (\<exists>i. vs_rule (store (bs_number V)) = Synchronous i)"
  shows "snd (produce (StreamWriter J S) ps store w) = stream_writer.send J S (map packet_message ps) w"
  using assms
proof (induction ps arbitrary: store w)
  case (Cons p ps)
  show ?case
  proof (cases p)
    case (Samples V d)
    let ?v = "store (bs_number V)"
    from Cons.prems Samples obtain i where v: "whole_packet (vs_dataType ?v) d" "vs_rule ?v = Synchronous i" "bs_number ?v = bs_number V"
      by fastforce
    have "\<forall>V' d'. Samples V' d' \<in> set ps \<longrightarrow> whole_packet (vs_dataType V') d' \<and>
        bs_number ((store(bs_number V := ?v\<lparr>vs_rule := Synchronous j\<rparr>)) (bs_number V')) = bs_number V' \<and>
        vs_dataType ((store(bs_number V := ?v\<lparr>vs_rule := Synchronous j\<rparr>)) (bs_number V')) = vs_dataType V' \<and>
        (\<exists>i. vs_rule ((store(bs_number V := ?v\<lparr>vs_rule := Synchronous j\<rparr>)) (bs_number V')) = Synchronous i)" for j
      using Cons.prems by fastforce
    from Cons.IH [OF this] show ?thesis using addData_sends [OF v(1,2), of J S w] v(3) Samples by (simp add: Let_def fun_upd_def)
  next
    case (Start T t)
    have "snd (produce (StreamWriter J S) ps store w') = stream_writer.send J S (map packet_message ps) w'" for w'
      using Cons.prems by (intro Cons.IH) auto
    with Start show ?thesis by (simp add: setTimeStart_sends)
  qed
qed simp

section \<open>Properties\<close>

lemma in_time_packets:
  assumes "in_time sgs started ps" and "p \<in> set ps"
  shows "(\<exists>T t. p = Start T t \<and> Domain T \<in> set sgs) \<or> (\<exists>V d. p = Samples V d \<and> Value V \<in> set sgs)"
  using assms
proof (induction ps arbitrary: started)
  case (Cons q ps)
  then show ?case by (cases q) auto
qed simp

lemma packets_sendable:
  assumes "\<forall>sg \<in> set sgs. \<forall>m \<in> set (subscribe_messages J sg). sendable J m" and "in_time sgs started ps"
    and "\<forall>V d. Samples V d \<in> set ps \<longrightarrow> d \<noteq> [] \<and> length d < 2 ^ 32"
  shows "\<forall>m \<in> set (map packet_message ps). sendable J m"
proof -
  have number: "valid_number (getNumber sg)" if "sg \<in> set sgs" for sg
  proof -
    have "Meta (getNumber sg) (subscribe_doc J (getId sg)) \<in> set (subscribe_messages J sg)" by (simp add: subscribe_messages_def)
    with assms(1) that show ?thesis by (force simp: sendable_def)
  qed
  have "sendable J (packet_message p)" if p: "p \<in> set ps" for p
    using in_time_packets [OF assms(2) p]
  proof (elim disjE exE conjE)
    fix T t assume "p = Start T t" "Domain T \<in> set sgs"
    moreover have "length (indexed_bytes 0 (le_bytes 8 t)) = 16" by (simp add: indexed_bytes_def)
    ultimately show ?thesis using number [of "Domain T"] by (auto simp: sendable_def)
  next
    fix V d assume "p = Samples V d" "Value V \<in> set sgs"
    then show ?thesis using number [of "Value V"] p assms(3) by (auto simp: sendable_def)
  qed
  then show ?thesis by simp
qed

text \<open>The whole run: subscriptions and packets written by the producer and read by a consumer.\<close>

lemma tables_run:
  fixes sgs :: "'j producer_signal list" and J :: "'j json_lib" and w :: 'w and h :: "('j, 'u) handler"
    and ps :: "'j packet list" and index :: "u32 \<Rightarrow> u64" and store :: "u32 \<Rightarrow> 'j value_signal"
  assumes J: "json_laws J" and S: "delivers S wire" and I: "reads I" and "wire w = []"
    and sgs: "tabled sgs index" "\<forall>sg \<in> set sgs. signal_ready J sg" "\<forall>V. Value V \<in> set sgs \<longrightarrow> store (bs_number V) = V"
    and fits: "\<forall>sg \<in> set sgs. \<forall>m \<in> set (subscribe_messages J sg). sendable J m"
    and ps: "in_time sgs {} ps" "\<forall>V d. Samples V d \<in> set ps \<longrightarrow> whole_packet (vs_dataType V) d"
    and h: "at_header I [] h" "\<forall>sg \<in> set sgs. c_signals (h_container h) (getNumber sg) = None \<and>
      c_tables (h_container h) (getTableId sg) = None"
    and callbacks: "callbacks (h_container h) = (meta, raw, val)"
  defines "W \<equiv> StreamWriter J S" and "c1 \<equiv> fold (subscribed_to J) sgs (h_container h)"
  defines "bytes \<equiv> wire (snd (produce W ps store (fold (signal_subscribe J W) sgs w)))"
  shows "\<exists>calls. reported sgs raw val (observed sgs Map.empty index ps) calls \<and>
    raw_data (c_calls c1) = raw_data (c_calls (h_container h)) \<and> value_data (c_calls c1) = value_data (c_calls (h_container h)) \<and>
    (\<exists>h'. runs J I bytes h h' \<and> (\<nexists>h''. completes J I h' h'')) \<and>
    (\<forall>h'. runs J I bytes h h' \<and> (\<nexists>h''. completes J I h' h'') \<longrightarrow> c_calls (h_container h') = c_calls c1 @ calls)"
proof -
  let ?subs = "concat (map (subscribe_messages J) sgs)" and ?ms = "concat (map (subscribe_messages J) sgs) @ map packet_message ps"
  let ?c = "h_container h" and ?k = "view h"
  have T: "distinct (map getNumber sgs)" "one_time sgs" "\<forall>sg \<in> set sgs. streamable sg index" "\<forall>sg \<in> set sgs. getNumber sg \<noteq> 0"
    using sgs(1) by (simp_all add: tabled_def)
  have k: "k_container ?k = ?c" by (simp add: view_def)
  have subs: "fold (signal_subscribe J W) sgs w = stream_writer.send J S ?subs w"
    by (induction sgs arbitrary: w) (simp_all add: W_def signal_subscribe_sends stream_writer.send_append)
  have vals: "\<forall>V d. Samples V d \<in> set ps \<longrightarrow> whole_packet (vs_dataType V) d \<and> bs_number (store (bs_number V)) = bs_number V \<and>
      vs_dataType (store (bs_number V)) = vs_dataType V \<and> (\<exists>i. vs_rule (store (bs_number V)) = Synchronous i)"
    using in_time_packets [OF ps(1)] ps(2) sgs(3) T(3) by (fastforce simp: streamable_def)
  have bytes: "bytes = concat (map (message_bytes J) ?ms)"
    using stream_writer.send_wire [OF S, of J ?ms w] assms(4) produce_sends [OF vals, of J S]
    by (simp add: bytes_def W_def [symmetric] subs stream_writer.send_append)
  have ms: "\<forall>m \<in> set ?ms. sendable J m"
    using packets_sendable [OF fits ps(1)] ps(2) fits by (auto simp: whole_packet_def)
  have d1: "deliver_all J ?subs ?k = Some (?k\<lparr>k_container := c1\<rparr>)"
    using subscriptions_delivered [OF J _ T(1), of ?k] sgs(2) T(4) h(2) by (simp add: k c1_def)
  have c1: "streams sgs Map.empty index c1" "raw_data (c_calls c1) = raw_data (c_calls ?c)" "value_data (c_calls c1) = value_data (c_calls ?c)"
    "callbacks c1 = (meta, raw, val)"
    using subscribed_streams [OF T(1-3), of ?c J] h(2) callbacks subscribed_calls(1) [of J sgs ?c] by (simp_all add: c1_def)
  obtain c2 calls where c2: "deliver_all J (map packet_message ps) (?k\<lparr>k_container := c1\<rparr>) = Some (?k\<lparr>k_container := c2\<rparr>)"
    "c_calls c2 = c_calls c1 @ calls" "reported sgs raw val (observed sgs Map.empty index ps) calls"
    using packets_reported [OF sgs(1), of Map.empty index "?k\<lparr>k_container := c1\<rparr>" ps meta raw val J] c1 ps(1) by auto
  have all: "deliver_all J ?ms ?k = Some (?k\<lparr>k_container := c2\<rparr>)" by (simp add: deliver_all_append d1 c2(1))
  from container_run [OF J I ms h(1) all] c1(2,3) c2(2,3) show ?thesis
    unfolding bytes by (intro exI [of _ calls]) auto
qed

text \<open>
  C7: many signals over one connection. A producer subscribes any list of linear time signals and
  synchronous signals, whose numbers are different and whose tables have one time signal each,
  and then tells start times and adds packets of whole values in any order in which a table's
  start time comes first. A consumer that reads this, in pieces of any size, has its callbacks
  called once for each packet of values, in order; and what it gets of one signal is what it
  would get if the others did not exist: each packet with the start time of its table plus
  delta times the index of its first value, the indices counted over this signal's packets.
\<close>

theorem signals_do_not_interfere:
  fixes sgs :: "'j producer_signal list" and J :: "'j json_lib" and w :: 'w and h :: "('j, 'u) handler"
    and ps :: "'j packet list" and index :: "u32 \<Rightarrow> u64" and store :: "u32 \<Rightarrow> 'j value_signal"
  assumes J: "json_laws J" and S: "delivers S wire" and I: "reads I" and "wire w = []"
    and sgs: "tabled sgs index" "\<forall>sg \<in> set sgs. signal_ready J sg" "\<forall>V. Value V \<in> set sgs \<longrightarrow> store (bs_number V) = V"
    and fits: "\<forall>sg \<in> set sgs. \<forall>m \<in> set (subscribe_messages J sg). sendable J m"
    and ps: "in_time sgs {} ps" "\<forall>V d. Samples V d \<in> set ps \<longrightarrow> whole_packet (vs_dataType V) d"
    and h: "at_header I [] h" "\<forall>sg \<in> set sgs. c_signals (h_container h) (getNumber sg) = None \<and>
      c_tables (h_container h) (getTableId sg) = None"
  defines "W \<equiv> StreamWriter J S"
  defines "bytes \<equiv> wire (snd (produce W ps store (fold (signal_subscribe J W) sgs w)))"
    and "seen \<equiv> observed sgs Map.empty index ps"
  shows "(\<exists>h'. runs J I bytes h h' \<and> (\<nexists>h''. completes J I h' h'')) \<and>
    (\<forall>h'. runs J I bytes h h' \<and> (\<nexists>h''. completes J I h' h'') \<longrightarrow>
       raw_data (c_calls (h_container h')) = raw_data (c_calls (h_container h)) @ map (\<lambda>(n, ts, d, m). (n, ts, d)) seen \<and>
       value_data (c_calls (h_container h')) = value_data (c_calls (h_container h)) @ seen) \<and>
    (\<forall>V t0. Value V \<in> set sgs \<and> starts_of (bs_number (time_signal sgs V)) ps = [t0] \<longrightarrow>
       filter (\<lambda>e. fst e = bs_number V) seen = map (\<lambda>(ts, d, m). (bs_number V, ts, d, m))
         (timed (word_of_nat (dataType_size (vs_dataType V))) (getTimeDelta (time_signal sgs V)) t0 (index (bs_number V))
            (packets_of (bs_number V) ps)))"
proof -
  obtain meta raw val where cb: "callbacks (h_container h) = (meta, raw, val)" by (cases "callbacks (h_container h)") auto
  define c1 where "c1 = fold (subscribed_to J) sgs (h_container h)"
  note run = tables_run [OF J S I assms(4) sgs fits ps h cb, folded W_def, folded bytes_def seen_def c1_def]
  then obtain calls where calls: "reported sgs raw val seen calls" "\<exists>h'. runs J I bytes h h' \<and> (\<nexists>h''. completes J I h' h'')"
    "raw_data (c_calls c1) = raw_data (c_calls (h_container h))" "value_data (c_calls c1) = value_data (c_calls (h_container h))"
    and last: "\<And>h'. runs J I bytes h h' \<and> (\<nexists>h''. completes J I h' h'') \<Longrightarrow> c_calls (h_container h') = c_calls c1 @ calls"
    by blast
  have data: "raw_data (c_calls c1 @ calls) = raw_data (c_calls (h_container h)) @ map (\<lambda>(n, ts, d, m). (n, ts, d)) seen"
    "value_data (c_calls c1 @ calls) = value_data (c_calls (h_container h)) @ seen"
    using calls(3,4) reported_data [OF calls(1)] by (simp_all add: raw_data_def value_data_def map_filter_append)
  have "\<forall>V t0. Value V \<in> set sgs \<and> starts_of (bs_number (time_signal sgs V)) ps = [t0] \<longrightarrow>
       filter (\<lambda>e. fst e = bs_number V) seen = map (\<lambda>(ts, d, m). (bs_number V, ts, d, m))
         (timed (word_of_nat (dataType_size (vs_dataType V))) (getTimeDelta (time_signal sgs V)) t0 (index (bs_number V))
            (packets_of (bs_number V) ps))"
    unfolding seen_def using observed_signal [OF sgs(1) _ ps(1)] by blast
  moreover have "raw_data (c_calls (h_container h')) = raw_data (c_calls (h_container h)) @ map (\<lambda>(n, ts, d, m). (n, ts, d)) seen \<and>
      value_data (c_calls (h_container h')) = value_data (c_calls (h_container h)) @ seen"
    if "runs J I bytes h h' \<and> (\<nexists>h''. completes J I h' h'')" for h'
    using last [OF that] data by (simp only: conj_absorb)
  ultimately show ?thesis using calls(2) by blast
qed

text \<open>Two tables, subscribed in one order and used in another.\<close>

definition other_time_signal :: "jtree domain_signal" where
  "other_time_signal = fst (LinearTimeSignal_init tree_lib ''clock'' ''other'' 1000000 2000000 0 7)"

definition other_value :: "jtree value_signal" where
  "other_value = setRelatedSignals [(META_TIME, ''clock'')] (fst (SynchronousSignal_init tree_lib ''signal'' ''other'' Dt_uint8 0 8))"

definition two_tables :: "jtree producer_signal list" where
  "two_tables = [Value other_value, Domain example_time_signal, Domain other_time_signal, Value example_value]"

definition two_tables_packets :: "jtree packet list" where
  "two_tables_packets = [Start example_time_signal 100, Samples example_value example_packet, Start other_time_signal 1000,
     Samples other_value [1, 2, 3], Samples example_value example_packet, Samples other_value [4]]"

lemma other_signals:
  "domain_ok other_time_signal" "ds_rule other_time_signal = Linear_time 2000" "bs_number other_time_signal = 8"
  "describable other_value" "vs_rule other_value = Synchronous 0" "quantity (vs_unit other_value) \<noteq> META_TIME"
  "bs_number other_value = 9" "bs_tableId other_value = ''other''" "bs_tableId other_time_signal = ''other''"
  "vs_dataType other_value = Dt_uint8" "start_ok tree_lib other_value"
  by (simp_all add: other_time_signal_def domain_ok_def LinearTimeSignal_init_def BaseDomainSignal_init_def ticks_of_rate_def
      nextSignalNumber_def SIGNAL_NUMBER_MASK_def Let_def Resolution_valid_def Resolution_init_def
      other_value_def describable_def start_ok_def SynchronousSignal_init_def BaseValueSignal_init_def
      setRelatedSignals_def Unit_representable_def Unit_clear_def)

lemma two_tables_fits: "\<forall>sg \<in> set two_tables. \<forall>m \<in> set (subscribe_messages tree_lib sg). sendable tree_lib m"
proof -
  have "length (enc (subscribe_doc tree_lib (bs_id other_time_signal))) < 2000"
    "length (enc (signal_meta tree_lib (Domain other_time_signal))) < 2000"
    "length (enc (subscribe_doc tree_lib (bs_id other_value))) < 2000"
    "length (enc (signal_meta tree_lib (Value other_value))) < 2000"
    by code_simp+
  moreover have "valid_number 8" "valid_number 9" by (simp_all add: valid_number_def SIGNAL_NUMBER_MASK_def)
  ultimately show ?thesis
    using example_fits by (auto simp: two_tables_def subscribe_messages_def sendable_tree other_signals)
qed

definition two_tables_index :: "u32 \<Rightarrow> u64" where
  "two_tables_index n = (if n = 7 then 5 else 0)"

definition two_tables_store :: "u32 \<Rightarrow> jtree value_signal" where
  "two_tables_store n = (if n = 7 then example_value else other_value)"

lemma two_tables_time:
  "time_signal two_tables example_value = example_time_signal" "time_signal two_tables other_value = other_time_signal"
  by (simp_all add: two_tables_def example_signals other_signals)

lemma two_tables_facts:
  "tabled two_tables two_tables_index" "\<forall>sg \<in> set two_tables. signal_ready tree_lib sg"
  "\<forall>V. Value V \<in> set two_tables \<longrightarrow> two_tables_store (bs_number V) = V" "in_time two_tables {} two_tables_packets"
  "\<forall>V d. Samples V d \<in> set two_tables_packets \<longrightarrow> whole_packet (vs_dataType V) d"
proof -
  note s = example_signals other_signals
  have packet: "length example_packet = 8" "example_packet \<noteq> []" by (simp_all add: example_packet_def)
  show "tabled two_tables two_tables_index"
    unfolding tabled_def one_time_def by (auto simp: two_tables_def two_tables_index_def streamable_def s)
  show "\<forall>sg \<in> set two_tables. signal_ready tree_lib sg" by (simp add: two_tables_def s)
  show "\<forall>V. Value V \<in> set two_tables \<longrightarrow> two_tables_store (bs_number V) = V"
    by (auto simp: two_tables_def two_tables_store_def s)
  show "in_time two_tables {} two_tables_packets"
    by (simp add: two_tables_packets_def two_tables_time) (simp add: two_tables_def)
  show "\<forall>V d. Samples V d \<in> set two_tables_packets \<longrightarrow> whole_packet (vs_dataType V) d"
    by (auto simp: two_tables_packets_def whole_packet_def s packet)
qed

theorem signals_do_not_interfere_witness:
  "\<exists>h'. runs tree_lib buffer_stream
      (let W = StreamWriter tree_lib memory_stream
       in snd (produce W two_tables_packets two_tables_store (fold (signal_subscribe tree_lib W) two_tables [])))
      example_session h' \<and>
    value_data (c_calls (h_container h')) = [(7, 5000100, example_packet, 1), (9, 1000, [1, 2, 3], 3),
      (7, 6000100, example_packet, 1), (9, 7000, [4], 1)]"
proof -
  note s = example_signals other_signals
  have delta: "getTimeDelta example_time_signal = 1000000" "getTimeDelta other_time_signal = 2000"
    by (simp_all add: getTimeDelta_def s)
  have h: "at_header buffer_stream [] example_session" "c_signals (h_container example_session) = Map.empty"
    "c_tables (h_container example_session) = Map.empty" "value_data (c_calls (h_container example_session)) = []"
    by (simp_all add: example_session_def at_header_def buffer_stream_def ProtocolHandler_init_def SignalContainer_init_def data_simps)
  have counts: "size_of example_packet div 8 = 1" "size_of [1, 2, 3 :: byte] = 3" "size_of [4 :: byte] = 1"
    by (simp_all add: size_of_def example_packet_def)
  have seen: "observed two_tables Map.empty two_tables_index two_tables_packets = [(7, 5000100, example_packet, 1),
      (9, 1000, [1, 2, 3], 3), (7, 6000100, example_packet, 1), (9, 7000, [4], 1)]"
    by (simp add: two_tables_packets_def two_tables_index_def two_tables_time Let_def s delta counts)
  from signals_do_not_interfere [OF tree_json_laws memory_stream_delivers buffer_stream_reads refl two_tables_facts(1-3)
      two_tables_fits two_tables_facts(4,5) h(1)]
  show ?thesis by (auto simp: h seen Let_def)
qed

end
