(* ===== verification/Signal_Generator.thy ===== *)
theory Signal_Generator
  imports Complex_Main Producer_Session
begin

text \<open>
  The signal generator (\<open>tool/SignalGenerator\<close>): the functions it samples (\<open>function.h\<close>), the
  generated time, synchronous and asynchronous signals, and \<open>SignalGenerator\<close>, which opens a
  producer session, announces and subscribes its signals and then produces data cycle by cycle.
  Points in time and durations are counts of nanoseconds. Floating point numbers and the
  arithmetic of the template parameter \<open>DataType\<close> are a parameter of the model. Shown: the
  samples do not depend on how often the generator is woken, when the generator ends, and what
  it writes.
\<close>

section \<open>Arithmetic\<close>

text \<open>
  \<open>'f\<close> stands for \<open>double\<close>, \<open>'v\<close> for the values of a \<open>DataType\<close>. \<open>f_lit\<close> is a literal of the
  source, \<open>f_modf\<close> gives fraction and whole part, \<open>v_bytes\<close> is the object representation.
\<close>

record ('f, 'v) arith =
  f_lit :: "rat \<Rightarrow> 'f"
  f_of_int :: "int \<Rightarrow> 'f"
  f_add :: "'f \<Rightarrow> 'f \<Rightarrow> 'f"
  f_sub :: "'f \<Rightarrow> 'f \<Rightarrow> 'f"
  f_mul :: "'f \<Rightarrow> 'f \<Rightarrow> 'f"
  f_div :: "'f \<Rightarrow> 'f \<Rightarrow> 'f"
  f_less :: "'f \<Rightarrow> 'f \<Rightarrow> bool"
  f_le :: "'f \<Rightarrow> 'f \<Rightarrow> bool"
  f_eq :: "'f \<Rightarrow> 'f \<Rightarrow> bool"
  f_sin :: "'f \<Rightarrow> 'f"
  f_modf :: "'f \<Rightarrow> 'f \<times> 'f"
  f_lround :: "'f \<Rightarrow> int"
  f_to_uint64 :: "'f \<Rightarrow> u64"
  v_add :: "data_type \<Rightarrow> 'v \<Rightarrow> 'v \<Rightarrow> 'v"
  v_sub :: "data_type \<Rightarrow> 'v \<Rightarrow> 'v \<Rightarrow> 'v"
  v_mul :: "data_type \<Rightarrow> 'v \<Rightarrow> 'v \<Rightarrow> 'v"
  v_of_int :: "data_type \<Rightarrow> int \<Rightarrow> 'v"
  v_of_double :: "data_type \<Rightarrow> 'f \<Rightarrow> 'v"
  v_to_double :: "data_type \<Rightarrow> 'v \<Rightarrow> 'f"
  v_bytes :: "data_type \<Rightarrow> 'v \<Rightarrow> byte list"

text \<open>What the model relies on: a value has the size of its type.\<close>

definition sized_values :: "('f, 'v) arith \<Rightarrow> bool" where
  "sized_values A \<longleftrightarrow> (\<forall>t v. length (v_bytes A t v) = dataType_size t)"

section \<open>Points in time\<close>

text \<open>
  With the build option for nanoseconds the sum is exact; the default casts the duration
  to microseconds first.
\<close>

definition addNanosecondsToTimePoint :: "bool \<Rightarrow> int \<Rightarrow> int \<Rightarrow> int" where
  "addNanosecondsToTimePoint nanosecondResolution systemTime nanoSeconds =
     (if nanosecondResolution then systemTime + nanoSeconds
      else systemTime + duration_div nanoSeconds 1000 * 1000)"

text \<open>\<open>std::chrono::duration<double>(ns).count()\<close>: seconds.\<close>

definition seconds_double :: "('f, 'v) arith \<Rightarrow> int \<Rightarrow> 'f" where
  "seconds_double A ns = f_div A (f_of_int A ns) (f_lit A 1000000000)"

definition timeTicksFromNanoseconds :: "('f, 'v) arith \<Rightarrow> int \<Rightarrow> u64 \<Rightarrow> u64" where
  "timeTicksFromNanoseconds A ns timeTicksPerSecond =
     f_to_uint64 A (f_mul A (f_of_int A (uint timeTicksPerSecond)) (seconds_double A ns))"

definition timeTicksFromTime :: "('f, 'v) arith \<Rightarrow> int \<Rightarrow> u64 \<Rightarrow> u64" where
  "timeTicksFromTime A time timeTicksPerSecond =
     f_to_uint64 A (f_mul A (seconds_double A time) (f_of_int A (uint timeTicksPerSecond)))"

section \<open>Functions\<close>

datatype function_type =
    FUNCTION_TYPE_CONSTANT
  | FUNCTION_TYPE_SINE
  | FUNCTION_TYPE_RECTANGLE
  | FUNCTION_TYPE_SAWTOOTH
  | FUNCTION_TYPE_IMPULSE

record ('f, 'v) function_parameters =
  functionType :: function_type
  amplitude :: 'v
  offset_level :: 'v
  frequency :: 'f
  dutyCycle :: 'f
  fn_range :: range
  fn_postScaling :: postScaling

record ('f, 'v) sampled_function =
  fn_type :: data_type
  fn_parameters :: "('f, 'v) function_parameters"
  fn_rampSlope :: 'f

definition Function_init :: "('f, 'v) arith \<Rightarrow> data_type \<Rightarrow> ('f, 'v) function_parameters \<Rightarrow> ('f, 'v) sampled_function" where
  "Function_init A t functionParameters =
     \<lparr>fn_type = t, fn_parameters = functionParameters,
      fn_rampSlope = f_mul A (v_to_double A t (amplitude functionParameters)) (frequency functionParameters)\<rparr>"

text \<open>The template and its specialisations for the integers.\<close>

definition calculateSawTooth :: "('f, 'v) arith \<Rightarrow> ('f, 'v) sampled_function \<Rightarrow> 'f \<Rightarrow> 'v" where
  "calculateSawTooth A fn periodTime =
     (let t = fn_type fn; offs = offset_level (fn_parameters fn); rampValue = f_mul A periodTime (fn_rampSlope fn)
      in if t = Dt_int32 \<or> t = Dt_int64 then v_add A t (v_of_int A t (f_lround A rampValue)) offs
         else v_of_double A t (f_add A rampValue (v_to_double A t offs)))"

definition calculate :: "('f, 'v) arith \<Rightarrow> ('f, 'v) sampled_function \<Rightarrow> 'f \<Rightarrow> 'v" where
  "calculate A fn periodTime =
     (let t = fn_type fn; p = fn_parameters fn
      in case functionType p of
        FUNCTION_TYPE_CONSTANT \<Rightarrow> offset_level p
      | FUNCTION_TYPE_SINE \<Rightarrow>
          (let PI = f_lit A (3141592653589793 / 1000000000000000);
               phase = f_mul A (f_mul A (f_mul A (f_lit A 2) PI) (frequency p)) periodTime
           in v_add A t (v_mul A t (v_of_double A t (f_sin A phase)) (amplitude p)) (offset_level p))
      | FUNCTION_TYPE_RECTANGLE \<Rightarrow>
          (let periodCycle = fst (f_modf A (f_mul A periodTime (frequency p)))
           in if f_less A periodCycle (dutyCycle p) then v_add A t (offset_level p) (amplitude p)
              else v_sub A t (offset_level p) (amplitude p))
      | FUNCTION_TYPE_SAWTOOTH \<Rightarrow> calculateSawTooth A fn periodTime
      | FUNCTION_TYPE_IMPULSE \<Rightarrow>
          (if f_eq A periodTime (f_lit A 0) then v_add A t (amplitude p) (offset_level p) else offset_level p))"

section \<open>Generated signals\<close>

text \<open>
  The current time is a reference to the generator's: an argument of the operations. The two
  kinds of value signals share the sampling of their function.
\<close>

record ('j, 'f, 'v) generated_value =
  gv_signal :: "'j value_signal"
  gv_function :: "('f, 'v) sampled_function"
  gv_period :: 'f
  gv_samplePeriod :: int
  gv_samplePeriodDouble :: 'f
  gv_lastProcessTime :: int
  gv_periodTime :: 'f

record ('j, 'f, 'v) generated_asynchronous = "('j, 'f, 'v) generated_value" +
  ga_timestamp :: u64
  ga_deltaTime :: u64

datatype ('j, 'f, 'v) generated_signal =
    Generated_time "'j domain_signal"
  | Generated_synchronous "('j, 'f, 'v) generated_value"
  | Generated_asynchronous "('j, 'f, 'v) generated_asynchronous"

definition timeTicksPerSecond_siggen :: u64 where
  "timeTicksPerSecond_siggen = 1000000000"

text \<open>Range, post scaling and the related time signal, as both constructors set them.\<close>

definition describe_generated ::
  "('f, 'v) function_parameters \<Rightarrow> string \<Rightarrow> 'j value_signal \<Rightarrow> 'j value_signal" where
  "describe_generated p timeSignalId s =
     setRelatedSignals [(META_TIME, timeSignalId)] (setPostScaling (fn_postScaling p) (setRange (fn_range p) s))"

definition GeneratedSynchronousSignal_init ::
  "'j json_lib \<Rightarrow> ('f, 'v) arith \<Rightarrow> data_type \<Rightarrow> string \<Rightarrow> string \<Rightarrow> string \<Rightarrow> ('f, 'v) function_parameters \<Rightarrow>
   int \<Rightarrow> int \<Rightarrow> u64 \<Rightarrow> u32 \<Rightarrow> ('j, 'f, 'v) generated_value \<times> u32" where
  "GeneratedSynchronousSignal_init J A t signalId tableId timeSignalId p samplePeriod currentTime valueIndex counter =
     (case SynchronousSignal_init J signalId tableId t valueIndex counter of
        (s, counter') \<Rightarrow>
          (\<lparr>gv_signal = describe_generated p timeSignalId s, gv_function = Function_init A t p,
            gv_period = f_div A (f_lit A 1) (frequency p), gv_samplePeriod = samplePeriod,
            gv_samplePeriodDouble = seconds_double A samplePeriod, gv_lastProcessTime = currentTime,
            gv_periodTime = f_lit A 0\<rparr>, counter'))"

definition GeneratedAsynchronousSignal_init ::
  "'j json_lib \<Rightarrow> ('f, 'v) arith \<Rightarrow> data_type \<Rightarrow> string \<Rightarrow> string \<Rightarrow> string \<Rightarrow> ('f, 'v) function_parameters \<Rightarrow>
   int \<Rightarrow> int \<Rightarrow> u32 \<Rightarrow> ('j, 'f, 'v) generated_asynchronous \<times> u32" where
  "GeneratedAsynchronousSignal_init J A t signalId tableId timeSignalId p samplePeriod currentTime counter =
     (case AsynchronousSignal_init J signalId tableId t counter of
        (s, counter') \<Rightarrow>
          (\<lparr>gv_signal = describe_generated p timeSignalId s, gv_function = Function_init A t p,
            gv_period = f_div A (f_lit A 1) (frequency p), gv_samplePeriod = samplePeriod,
            gv_samplePeriodDouble = seconds_double A samplePeriod, gv_lastProcessTime = currentTime,
            gv_periodTime = f_lit A 0,
            ga_timestamp = f_to_uint64 A (f_mul A (f_of_int A (uint timeTicksPerSecond_siggen)) (seconds_double A currentTime)),
            ga_deltaTime = f_to_uint64 A (f_div A (f_lit A 1) (seconds_double A samplePeriod))\<rparr>, counter'))"

text \<open>\<open>GeneratedTimeSignal\<close> for both kinds of time signals; the explicit one does not use the sample period.\<close>

definition GeneratedTimeSignal_explicit ::
  "'j json_lib \<Rightarrow> string \<Rightarrow> string \<Rightarrow> int \<Rightarrow> u64 \<Rightarrow> u64 \<Rightarrow> u32 \<Rightarrow> ('j, 'f, 'v) generated_signal \<times> u32" where
  "GeneratedTimeSignal_explicit J signalId tableId samplePeriod timeTicksPerSecond start counter =
     map_prod Generated_time id (ExplicitTimeSignal_init J signalId tableId timeTicksPerSecond start counter)"

definition GeneratedTimeSignal_linear ::
  "'j json_lib \<Rightarrow> string \<Rightarrow> string \<Rightarrow> int \<Rightarrow> u64 \<Rightarrow> u64 \<Rightarrow> u32 \<Rightarrow> ('j, 'f, 'v) generated_signal \<times> u32" where
  "GeneratedTimeSignal_linear J signalId tableId samplePeriod timeTicksPerSecond start counter =
     map_prod Generated_time id
       (LinearTimeSignal_init J signalId tableId timeTicksPerSecond (word_of_int samplePeriod) start counter)"

definition getSignal :: "('j, 'f, 'v) generated_signal \<Rightarrow> 'j producer_signal" where
  "getSignal g = (case g of
     Generated_time s \<Rightarrow> Domain s
   | Generated_synchronous v \<Rightarrow> Value (gv_signal v)
   | Generated_asynchronous v \<Rightarrow> Value (gv_signal v))"

text \<open>Only time signals write something: the time of the first value to follow.\<close>

definition initAfterSubscribeAck ::
  "('f, 'v) arith \<Rightarrow> ('j, 'w) iwriter \<Rightarrow> int \<Rightarrow> ('j, 'f, 'v) generated_signal \<Rightarrow> 'w \<Rightarrow> ('j, 'f, 'v) generated_signal \<times> 'w" where
  "initAfterSubscribeAck A W currentTime g w = (case g of
     Generated_time s \<Rightarrow>
       (case setTimeStart W (timeTicksFromTime A currentTime (getTimeTicksPerSecond s)) s w of
          (s', w') \<Rightarrow> (Generated_time s', w'))
   | _ \<Rightarrow> (g, w))"

text \<open>The point of time within a period after one more sample.\<close>

definition next_periodTime :: "('f, 'v) arith \<Rightarrow> 'f \<Rightarrow> 'f \<Rightarrow> 'f \<Rightarrow> 'f" where
  "next_periodTime A period samplePeriodDouble periodTime =
     (let t = f_add A periodTime samplePeriodDouble
      in if f_le A (f_sub A period samplePeriodDouble) t then f_lit A 0 else t)"

text \<open>
  The loop over the samples of one call; \<open>advance\<close> moves \<open>m_lastProcessTime\<close> by a sample
  period: exactly for synchronous signals on Linux, through \<open>addNanosecondsToTimePoint\<close> for
  asynchronous ones.
\<close>

definition advance_sample ::
  "('f, 'v) arith \<Rightarrow> (int \<Rightarrow> int \<Rightarrow> int) \<Rightarrow> ('j, 'f, 'v, 'm) generated_value_scheme \<Rightarrow> ('j, 'f, 'v, 'm) generated_value_scheme" where
  "advance_sample A advance g =
     g\<lparr>gv_periodTime := next_periodTime A (gv_period g) (gv_samplePeriodDouble g) (gv_periodTime g),
       gv_lastProcessTime := advance (gv_lastProcessTime g) (gv_samplePeriod g)\<rparr>"

fun synchronous_samples ::
  "('f, 'v) arith \<Rightarrow> nat \<Rightarrow> ('j, 'f, 'v) generated_value \<Rightarrow> 'v list \<times> ('j, 'f, 'v) generated_value" where
  "synchronous_samples A 0 g = ([], g)"
| "synchronous_samples A (Suc n) g =
     (case synchronous_samples A n (advance_sample A (+) g) of
        (vs, g') \<Rightarrow> (calculate A (gv_function g) (gv_periodTime g) # vs, g'))"

fun asynchronous_samples ::
  "('f, 'v) arith \<Rightarrow> bool \<Rightarrow> nat \<Rightarrow> ('j, 'f, 'v) generated_asynchronous \<Rightarrow>
   (u64 \<times> 'v) list \<times> ('j, 'f, 'v) generated_asynchronous" where
  "asynchronous_samples A ns 0 g = ([], g)"
| "asynchronous_samples A ns (Suc n) g =
     (case asynchronous_samples A ns n
        (advance_sample A (addNanosecondsToTimePoint ns) (g\<lparr>ga_timestamp := ga_timestamp g + ga_deltaTime g\<rparr>)) of
        (vs, g') \<Rightarrow> ((ga_timestamp g, calculate A (gv_function g) (gv_periodTime g)) # vs, g'))"

text \<open>
  The number of samples that are due: a division by a sample period of 0 is undefined, the
  quotient is cast to \<open>unsigned int\<close>.
\<close>

definition samplesToProcess :: "int \<Rightarrow> ('j, 'f, 'v, 'm) generated_value_scheme \<Rightarrow> nat option" where
  "samplesToProcess currentTime g =
     (if currentTime < gv_lastProcessTime g then Some 0
      else if gv_samplePeriod g = 0 then None
      else Some (unat (word_of_int (duration_div (currentTime - gv_lastProcessTime g) (gv_samplePeriod g)) :: u32)))"

definition synchronous_process ::
  "('f, 'v) arith \<Rightarrow> ('j, 'w) iwriter \<Rightarrow> int \<Rightarrow> ('j, 'f, 'v) generated_value \<Rightarrow> 'w \<Rightarrow>
   (exn + int) \<times> ('j, 'f, 'v) generated_value \<times> 'w" where
  "synchronous_process A W currentTime g w =
     (case samplesToProcess currentTime g of
        None \<Rightarrow> (Inl Undefined, g, w)
      | Some n \<Rightarrow>
          if n = 0 then (Inr 0, g, w)
          else
            (case synchronous_samples A n g of (vs, g') \<Rightarrow>
              (case synchronous_addData W (concat (map (v_bytes A (fn_type (gv_function g))) vs)) (word_of_nat n)
                      (gv_signal g') w of
                 (result, s', w') \<Rightarrow> (Inr result, g'\<lparr>gv_signal := s'\<rparr>, w'))))"

definition asynchronous_process ::
  "('f, 'v) arith \<Rightarrow> bool \<Rightarrow> ('j, 'w) iwriter \<Rightarrow> int \<Rightarrow> ('j, 'f, 'v) generated_asynchronous \<Rightarrow> 'w \<Rightarrow>
   (exn + int) \<times> ('j, 'f, 'v) generated_asynchronous \<times> 'w" where
  "asynchronous_process A ns W currentTime g w =
     (case samplesToProcess currentTime g of
        None \<Rightarrow> (Inl Undefined, g, w)
      | Some n \<Rightarrow>
          if n = 0 then (Inr 0, g, w)
          else
            (case asynchronous_samples A ns n g of (tuples, g') \<Rightarrow>
              (case asynchronous_addData W (map (\<lambda>(t, v). (t, v_bytes A (fn_type (gv_function g)) v)) tuples)
                      (gv_signal g') w of
                 (result, w') \<Rightarrow> (Inr result, g', w'))))"

text \<open>\<open>iGeneratedSignal::process\<close>; that of a time signal does nothing.\<close>

definition generated_process ::
  "('f, 'v) arith \<Rightarrow> bool \<Rightarrow> ('j, 'w) iwriter \<Rightarrow> int \<Rightarrow> ('j, 'f, 'v) generated_signal \<Rightarrow> 'w \<Rightarrow>
   (exn + int) \<times> ('j, 'f, 'v) generated_signal \<times> 'w" where
  "generated_process A ns W currentTime g w = (case g of
     Generated_time s \<Rightarrow> (Inr 0, g, w)
   | Generated_synchronous v \<Rightarrow>
       (case synchronous_process A W currentTime v w of (r, v', w') \<Rightarrow> (r, Generated_synchronous v', w'))
   | Generated_asynchronous v \<Rightarrow>
       (case asynchronous_process A ns W currentTime v w of (r, v', w') \<Rightarrow> (r, Generated_asynchronous v', w')))"

section \<open>SignalGenerator\<close>

text \<open>
  \<open>m_generatedSignals\<close> is a \<open>std::map\<close>, a list of entries sorted by key. The counter of signal
  numbers is static in \<open>BaseSignal\<close>. \<open>m_endTime\<close> and the periods are not initialised by the
  constructor: their values are arguments, as is the start time of a new time signal.
\<close>

record ('j, 'f, 'v, 'w) generator =
  sg_stream :: 'w
  sg_signals :: "(string \<times> ('j, 'f, 'v) generated_signal) list"
  sg_time :: int
  sg_endTime :: int
  sg_processPeriod :: int
  sg_executionTime :: int
  sg_counter :: u32

definition SignalGenerator_init :: "int \<Rightarrow> 'w \<Rightarrow> int \<Rightarrow> int \<Rightarrow> int \<Rightarrow> u32 \<Rightarrow> ('j, 'f, 'v, 'w) generator" where
  "SignalGenerator_init startTime stream endTime processPeriod executionTime counter =
     \<lparr>sg_stream = stream, sg_signals = [], sg_time = startTime, sg_endTime = endTime,
      sg_processPeriod = processPeriod, sg_executionTime = executionTime, sg_counter = counter\<rparr>"

text \<open>The common part of the four functions that add a signal: the id must not be in use.\<close>

definition insert_generated ::
  "string \<Rightarrow> (u32 \<Rightarrow> ('j, 'f, 'v) generated_signal \<times> u32) \<Rightarrow> ('j, 'f, 'v, 'w) generator \<Rightarrow> int \<times> ('j, 'f, 'v, 'w) generator" where
  "insert_generated signalId create sg =
     (if signalId \<in> fst ` set (sg_signals sg) then (-1, sg)
      else
        (case create (sg_counter sg) of
           (g, counter') \<Rightarrow>
             (0, sg\<lparr>sg_signals := insort_key fst (signalId, g) (sg_signals sg), sg_counter := counter'\<rparr>)))"

definition addSynchronousSignal ::
  "'j json_lib \<Rightarrow> ('f, 'v) arith \<Rightarrow> data_type \<Rightarrow> string \<Rightarrow> string \<Rightarrow> string \<Rightarrow> ('f, 'v) function_parameters \<Rightarrow> int \<Rightarrow> u64 \<Rightarrow>
   ('j, 'f, 'v, 'w) generator \<Rightarrow> int \<times> ('j, 'f, 'v, 'w) generator" where
  "addSynchronousSignal J A t signalId tableId timeSignalId p samplePeriod valueIndex sg =
     insert_generated signalId (\<lambda>c. map_prod Generated_synchronous id
       (GeneratedSynchronousSignal_init J A t signalId tableId timeSignalId p samplePeriod (sg_time sg) valueIndex c)) sg"

definition addAsynchronousSignal ::
  "'j json_lib \<Rightarrow> ('f, 'v) arith \<Rightarrow> data_type \<Rightarrow> string \<Rightarrow> string \<Rightarrow> string \<Rightarrow> ('f, 'v) function_parameters \<Rightarrow> int \<Rightarrow>
   ('j, 'f, 'v, 'w) generator \<Rightarrow> int \<times> ('j, 'f, 'v, 'w) generator" where
  "addAsynchronousSignal J A t signalId tableId timeSignalId p samplePeriod sg =
     insert_generated signalId (\<lambda>c. map_prod Generated_asynchronous id
       (GeneratedAsynchronousSignal_init J A t signalId tableId timeSignalId p samplePeriod (sg_time sg) c)) sg"

definition addLinearTimeSignal ::
  "'j json_lib \<Rightarrow> string \<Rightarrow> string \<Rightarrow> int \<Rightarrow> u64 \<Rightarrow> ('j, 'f, 'v, 'w) generator \<Rightarrow> int \<times> ('j, 'f, 'v, 'w) generator" where
  "addLinearTimeSignal J signalId tableId samplePeriod start sg =
     insert_generated signalId (GeneratedTimeSignal_linear J signalId tableId samplePeriod 1000000000 start) sg"

definition addExplicitTimeSignal ::
  "'j json_lib \<Rightarrow> string \<Rightarrow> string \<Rightarrow> int \<Rightarrow> u64 \<Rightarrow> ('j, 'f, 'v, 'w) generator \<Rightarrow> int \<times> ('j, 'f, 'v, 'w) generator" where
  "addExplicitTimeSignal J signalId tableId samplePeriod start sg =
     insert_generated signalId (GeneratedTimeSignal_explicit J signalId tableId samplePeriod 1000000000 start) sg"

definition generator_removeSignal :: "string \<Rightarrow> ('j, 'f, 'v, 'w) generator \<Rightarrow> nat \<times> ('j, 'f, 'v, 'w) generator" where
  "generator_removeSignal signalId sg =
     (length (filter (\<lambda>e. fst e = signalId) (sg_signals sg)),
      sg\<lparr>sg_signals := filter (\<lambda>e. fst e \<noteq> signalId) (sg_signals sg)\<rparr>)"

definition configureTimes :: "int \<Rightarrow> int \<Rightarrow> ('j, 'f, 'v, 'w) generator \<Rightarrow> ('j, 'f, 'v, 'w) generator" where
  "configureTimes processPeriod executionTime sg =
     sg\<lparr>sg_processPeriod := processPeriod, sg_executionTime := executionTime\<rparr>"

definition signalCount :: "('j, 'f, 'v, 'w) generator \<Rightarrow> nat" where
  "signalCount sg = length (sg_signals sg)"

definition generator_clear :: "('j, 'f, 'v, 'w) generator \<Rightarrow> ('j, 'f, 'v, 'w) generator" where
  "generator_clear sg = sg\<lparr>sg_signals := []\<rparr>"

definition generator_stop :: "('j, 'f, 'v, 'w) generator \<Rightarrow> ('j, 'f, 'v, 'w) generator" where
  "generator_stop sg = sg\<lparr>sg_endTime := sg_time sg\<rparr>"

text \<open>
  \<open>time_point::max()\<close> for an execution time of 0. The sum stays in range for durations of
  \<open>durationFromString\<close> and start times before the year 2126.
\<close>

definition set_endTime :: "bool \<Rightarrow> ('j, 'f, 'v, 'w) generator \<Rightarrow> ('j, 'f, 'v, 'w) generator" where
  "set_endTime ns sg =
     sg\<lparr>sg_endTime := (if sg_executionTime sg = 0 then 2 ^ 63 - 1
                       else addNanosecondsToTimePoint ns (sg_time sg) (sg_executionTime sg))\<rparr>"

text \<open>The generator's signals as the session's map of signals, with their positions as references.\<close>

definition all_signals :: "(string \<times> ('j, 'f, 'v) generated_signal) list \<Rightarrow> (string \<times> nat) list" where
  "all_signals gs = zip (map fst gs) [0..<length gs]"

definition generated_store :: "(string \<times> ('j, 'f, 'v) generated_signal) list \<Rightarrow> 'j signal_store" where
  "generated_store gs r = getSignal (snd (gs ! r))"

fun init_generated ::
  "('f, 'v) arith \<Rightarrow> ('j, 'w) iwriter \<Rightarrow> int \<Rightarrow> (string \<times> ('j, 'f, 'v) generated_signal) list \<Rightarrow> 'w \<Rightarrow>
   (string \<times> ('j, 'f, 'v) generated_signal) list \<times> 'w" where
  "init_generated A W currentTime [] w = ([], w)"
| "init_generated A W currentTime ((i, g) # gs) w =
     (case initAfterSubscribeAck A W currentTime g w of (g', w1) \<Rightarrow>
       (case init_generated A W currentTime gs w1 of (gs', w2) \<Rightarrow> ((i, g') # gs', w2)))"

text \<open>One cycle: every signal in turn, until one reports an error.\<close>

fun process_generated ::
  "('f, 'v) arith \<Rightarrow> bool \<Rightarrow> ('j, 'w) iwriter \<Rightarrow> int \<Rightarrow> (string \<times> ('j, 'f, 'v) generated_signal) list \<Rightarrow> 'w \<Rightarrow>
   flow \<times> (string \<times> ('j, 'f, 'v) generated_signal) list \<times> 'w" where
  "process_generated A ns W currentTime [] w = (Next, [], w)"
| "process_generated A ns W currentTime ((i, g) # gs) w =
     (case generated_process A ns W currentTime g w of
        (Inl e, g', w1) \<Rightarrow> (Raise e, (i, g') # gs, w1)
      | (Inr result, g', w1) \<Rightarrow>
          if result < 0 then (Ret 0, (i, g') # gs, w1)
          else (case process_generated A ns W currentTime gs w1 of
                  (fl, gs', w2) \<Rightarrow> (fl, (i, g') # gs', w2)))"

text \<open>
  One round of the loop of \<open>start\<close>. A point in time is a signed 64 bit count: moving it out of
  its range is undefined.
\<close>

definition loop_cycle ::
  "('f, 'v) arith \<Rightarrow> bool \<Rightarrow> ('j, 'w) iwriter \<Rightarrow> ('j, 'f, 'v, 'w) generator block" where
  "loop_cycle A ns W sg =
     (case process_generated A ns W (sg_time sg) (sg_signals sg) (sg_stream sg) of
        (fl, gs', w') \<Rightarrow>
          let sg' = sg\<lparr>sg_signals := gs', sg_stream := w'\<rparr>; t = addNanosecondsToTimePoint ns (sg_time sg) (sg_processPeriod sg)
          in if fl \<noteq> Next then (fl, sg')
             else if t < 2 ^ 63 then (Next, sg'\<lparr>sg_time := t\<rparr>) else (Raise Undefined, sg'))"

text \<open>
  The session's error callback calls \<open>stop\<close>, at most once, at any time, from the thread of the
  io context: before the condition of the loop is evaluated for the \<open>n\<close>-th time (counted from 0),
  or during the \<open>n\<close>-th round, before the time advances. Nothing in a round but the session
  reads the end time, so it is no matter where in the round that is (\<open>loop_cycle_endTime\<close>).
\<close>

datatype hangup_point = Before_check nat | During_cycle nat

partial_function (option) generate_loop ::
  "('f, 'v) arith \<Rightarrow> bool \<Rightarrow> ('j, 'w) iwriter \<Rightarrow> hangup_point option \<Rightarrow> nat \<Rightarrow> ('j, 'f, 'v, 'w) generator \<Rightarrow>
   (flow \<times> ('j, 'f, 'v, 'w) generator) option" where
  "generate_loop A ns W hangup n sg =
     (let sg1 = (if hangup = Some (Before_check n) then generator_stop sg else sg)
      in if sg_time sg1 \<le> sg_endTime sg1 then
           (case loop_cycle A ns W (if hangup = Some (During_cycle n) then generator_stop sg1 else sg1) of
              (fl, sg2) \<Rightarrow> if fl = Next then generate_loop A ns W hangup (Suc n) sg2 else Some (fl, sg2))
         else Some (Next, sg1))"

text \<open>
  \<open>SignalGenerator::start\<close>. The session and the generator's own writer \<open>W\<close> write to the same
  stream; the result has the session, which lives on while its operations are outstanding.
\<close>

definition start_session ::
  "'j json_lib \<Rightarrow> 'w stream_io \<Rightarrow> ('f, 'v) arith \<Rightarrow> ('j, 'f, 'v, 'w) generator \<Rightarrow> 'w producer_session \<times> ('j, 'f, 'v, 'w) generator" where
  "start_session J S A sg =
     (let W = StreamWriter J S; gs = sg_signals sg; store = generated_store gs;
          s1 = session_start True (ProducerSession_init J S (sg_stream sg) (j_null J));
          s2 = addSignals J S store (all_signals gs) s1;
          s3 = snd (subscribeSignals J W store (map fst gs) s2);
          (gs', w) = init_generated A W (sg_time sg) gs (ps_stream s3)
      in (s3, sg\<lparr>sg_signals := gs', sg_stream := w\<rparr>))"

definition end_session ::
  "'j json_lib \<Rightarrow> 'w stream_io \<Rightarrow> ('j, 'f, 'v, 'w) generator \<Rightarrow> 'w producer_session \<Rightarrow> 'w producer_session" where
  "end_session J S sg s =
     (let W = StreamWriter J S; gs = sg_signals sg; store = generated_store gs;
          s1 = snd (unsubscribeSignals J W store (map fst gs) (s\<lparr>ps_stream := sg_stream sg\<rparr>));
          s2 = snd (removeSignals J S store (map fst gs) s1)
      in session_stop s2)"

definition generator_start ::
  "'j json_lib \<Rightarrow> 'w stream_io \<Rightarrow> ('f, 'v) arith \<Rightarrow> bool \<Rightarrow> hangup_point option \<Rightarrow> ('j, 'f, 'v, 'w) generator \<Rightarrow>
   (flow \<times> ('j, 'f, 'v, 'w) generator \<times> 'w producer_session) option" where
  "generator_start J S A ns hangup sg =
     (case start_session J S A (set_endTime ns sg) of
        (s, sg1) \<Rightarrow>
          (case generate_loop A ns (StreamWriter J S) hangup 0 sg1 of
             None \<Rightarrow> None
           | Some (fl, sg2) \<Rightarrow>
               if fl = Next then
                 let s' = end_session J S sg2 s in Some (Next, sg2\<lparr>sg_stream := ps_stream s'\<rparr>, s')
               else Some (fl, sg2, s\<lparr>ps_stream := sg_stream sg2\<rparr>)))"

section \<open>The samples of a synchronous signal\<close>

text \<open>The \<open>k\<close>-th sample from a state on, and the state after \<open>k\<close> samples have been written.\<close>

definition periodTime_after :: "('f, 'v) arith \<Rightarrow> ('j, 'f, 'v) generated_value \<Rightarrow> nat \<Rightarrow> 'f" where
  "periodTime_after A g k = (next_periodTime A (gv_period g) (gv_samplePeriodDouble g) ^^ k) (gv_periodTime g)"

definition sample :: "('f, 'v) arith \<Rightarrow> ('j, 'f, 'v) generated_value \<Rightarrow> nat \<Rightarrow> 'v" where
  "sample A g k = calculate A (gv_function g) (periodTime_after A g k)"

definition sample_bytes :: "('f, 'v) arith \<Rightarrow> ('j, 'f, 'v) generated_value \<Rightarrow> nat \<Rightarrow> nat \<Rightarrow> byte list" where
  "sample_bytes A g i j = concat (map (\<lambda>k. v_bytes A (fn_type (gv_function g)) (sample A g k)) [i..<j])"

definition at_sample :: "('f, 'v) arith \<Rightarrow> ('j, 'f, 'v) generated_value \<Rightarrow> nat \<Rightarrow> ('j, 'f, 'v) generated_value" where
  "at_sample A g k = g\<lparr>gv_periodTime := periodTime_after A g k,
     gv_lastProcessTime := gv_lastProcessTime g + int k * gv_samplePeriod g,
     gv_signal := (gv_signal g)\<lparr>vs_rule := (case vs_rule (gv_signal g) of
        Synchronous i \<Rightarrow> Synchronous (i + word_of_nat k) | r \<Rightarrow> r)\<rparr>\<rparr>"

lemma at_sample_0 [simp]: "at_sample A g 0 = g"
  by (simp add: at_sample_def periodTime_after_def split: value_rule.split)

lemma sample_bytes_empty [simp]: "sample_bytes A g i i = []"
  by (simp add: sample_bytes_def)

lemma sample_bytes_append: "i \<le> j \<Longrightarrow> j \<le> k \<Longrightarrow> sample_bytes A g i j @ sample_bytes A g j k = sample_bytes A g i k"
  using upt_add_eq_append [of i j "k - j"] by (simp add: sample_bytes_def)

lemma sample_bytes_length:
  assumes "sized_values A"
  shows "length (sample_bytes A g i j) = (j - i) * dataType_size (fn_type (gv_function g))"
  using assms by (induction j) (auto simp: sample_bytes_def sized_values_def Suc_diff_le not_le)

lemma synchronous_samples_eq:
  "synchronous_samples A n (g\<lparr>gv_periodTime := periodTime_after A g k, gv_lastProcessTime := l\<rparr>) =
     (map (sample A g) [k..<k + n],
      g\<lparr>gv_periodTime := periodTime_after A g (k + n), gv_lastProcessTime := l + int n * gv_samplePeriod g\<rparr>)"
proof (induction n arbitrary: k l)
  case (Suc n)
  have "advance_sample A (+) (g\<lparr>gv_periodTime := periodTime_after A g k, gv_lastProcessTime := l\<rparr>) =
      g\<lparr>gv_periodTime := periodTime_after A g (Suc k), gv_lastProcessTime := l + gv_samplePeriod g\<rparr>"
    by (simp add: advance_sample_def periodTime_after_def)
  with Suc [where k = "Suc k" and l = "l + gv_samplePeriod g"] show ?case
    by (simp add: sample_def upt_conv_Cons [of k "Suc (k + n)"] algebra_simps del: upt_Suc)
qed simp


text \<open>The number of samples due at a point in time, counted from a state on.\<close>

definition due :: "('j, 'f, 'v) generated_value \<Rightarrow> int \<Rightarrow> nat" where
  "due g t = nat ((t - gv_lastProcessTime g) div gv_samplePeriod g)"

text \<open>
  A signal the properties are about: it samples with the type of its signal, and sample
  period and size of a value are such that what is due fits a block of the transport layer.
\<close>

definition generates :: "('f, 'v) arith \<Rightarrow> ('j, 'f, 'v) generated_value \<Rightarrow> u64 \<Rightarrow> bool" where
  "generates A g i \<longleftrightarrow> sized_values A \<and> 0 < gv_samplePeriod g \<and> vs_rule (gv_signal g) = Synchronous i \<and>
     vs_dataType (gv_signal g) = fn_type (gv_function g)"

lemma due_mono: "0 < gv_samplePeriod g \<Longrightarrow> t \<le> t' \<Longrightarrow> due g t \<le> due g t'"
  by (simp add: due_def nat_mono zdiv_mono1)

lemma samplesToProcess_at:
  assumes "0 < gv_samplePeriod g" and "k \<le> due g t" and "gv_lastProcessTime g \<le> t" and "due g t - k < 2 ^ 32"
  shows "samplesToProcess t (at_sample A g k) = Some (due g t - k)"
proof -
  let ?p = "gv_samplePeriod g" and ?l = "gv_lastProcessTime g"
  have "int k \<le> (t - ?l) div ?p"
    using assms(1-3) by (simp add: due_def nat_le_iff le_nat_iff pos_imp_zdiv_nonneg_iff)
  then have "int k * ?p \<le> (t - ?l) div ?p * ?p" using assms(1) by simp
  also have "\<dots> \<le> t - ?l" using assms(1) by (simp flip: minus_mod_eq_div_mult)
  finally have l: "?l + int k * ?p \<le> t" by simp
  have "(t - ?l - int k * ?p) div ?p = (t - ?l) div ?p - int k"
    using div_mult_self1 [of ?p "t - ?l" "- int k"] assms(1) by simp
  moreover have "0 \<le> (t - ?l) div ?p" using assms(1,3) by (simp add: pos_imp_zdiv_nonneg_iff)
  then have "int (due g t) = (t - ?l) div ?p" by (simp add: due_def)
  ultimately have "(t - (?l + int k * ?p)) div ?p = int (due g t - k)"
    using assms(2) by (simp only: diff_diff_eq of_nat_diff)
  moreover have "duration_div (t - (?l + int k * ?p)) ?p = (t - (?l + int k * ?p)) div ?p"
    using l assms(1) by (intro duration_div_nonneg) simp_all
  moreover have "unat (word_of_int (int (due g t - k)) :: u32) = due g t - k"
    unfolding of_int_of_nat_eq unat_of_nat using assms(4) by simp
  ultimately show ?thesis using assms(1) l by (simp only: samplesToProcess_def at_sample_def) simp
qed

text \<open>One call, from the state after \<open>k\<close> samples: the samples \<open>k\<close> up to those due go out in one packet.\<close>

lemma synchronous_process_at:
  fixes A :: "('f, 'v) arith" and g :: "('j, 'f, 'v) generated_value" and J :: "'j json_lib" and S :: "'w stream_io" and w :: 'w
  assumes g: "generates A g i" and k: "k \<le> due g t" "gv_lastProcessTime g \<le> t"
    and size: "(due g t - k) * dataType_size (fn_type (gv_function g)) < 2 ^ 32"
  defines "W \<equiv> StreamWriter J S" and "n \<equiv> bs_number (gv_signal g)" and "d \<equiv> sample_bytes A g k (due g t)"
  shows "synchronous_process A W t (at_sample A g k) w =
    (if k = due g t then (Inr 0, at_sample A g k, w)
     else (Inr (fst (iw_data W n d w)), at_sample A g (due g t), stream_writer.send J S [Data n d] w))"
proof -
  let ?m = "due g t - k" and ?s = "dataType_size (fn_type (gv_function g))"
  have "0 < ?s" by (cases "fn_type (gv_function g)") simp_all
  then have "?m \<le> ?m * ?s" by simp
  with size have m: "?m < 2 ^ 32" by linarith
  have count: "samplesToProcess t (at_sample A g k) = Some ?m"
    using samplesToProcess_at [OF _ k m, of A] g by (simp add: generates_def)
  show ?thesis
  proof (cases "k = due g t")
    case False
    have v: "vs_rule (gv_signal g) = Synchronous i" "vs_dataType (gv_signal g) = fn_type (gv_function g)" "sized_values A"
      using g by (simp_all add: generates_def)
    let ?v = "(gv_signal g)\<lparr>vs_rule := Synchronous (i + word_of_nat k)\<rparr>"
    have state: "at_sample A g k = (g\<lparr>gv_signal := ?v\<rparr>)\<lparr>gv_periodTime := periodTime_after A (g\<lparr>gv_signal := ?v\<rparr>) k,
        gv_lastProcessTime := gv_lastProcessTime g + int k * gv_samplePeriod g\<rparr>"
      using v(1) by (simp add: at_sample_def periodTime_after_def)
    define g' where "g' = g\<lparr>gv_signal := ?v, gv_periodTime := periodTime_after A g (due g t),
       gv_lastProcessTime := gv_lastProcessTime g + int (due g t) * gv_samplePeriod g\<rparr>"
    have samples: "synchronous_samples A ?m (at_sample A g k) = (map (sample A g) [k..<due g t], g')"
      unfolding state synchronous_samples_eq g'_def
      using k(1) by (simp add: sample_def [abs_def] periodTime_after_def of_nat_diff algebra_simps)
    have "unat (word_of_nat ?m * word_of_nat ?s :: u64) = ?m * ?s"
      using size by (simp add: unat_of_nat flip: of_nat_mult)
    moreover have "length d = ?m * ?s" using sample_bytes_length [OF v(3)] by (simp add: d_def)
    ultimately have add: "synchronous_addData W d (word_of_nat ?m) (gv_signal g') w =
        (fst (iw_data W n d w), ?v\<lparr>vs_rule := Synchronous (i + word_of_nat k + word_of_nat ?m)\<rparr>, stream_writer.send J S [Data n d] w)"
      using v(2) by (simp add: synchronous_addData_def case_prod_beta Let_def W_def n_def g'_def)
    have "i + word_of_nat k + word_of_nat ?m = i + (word_of_nat (due g t) :: u64)" using k(1) by (simp add: of_nat_diff)
    then have last: "g'\<lparr>gv_signal := ?v\<lparr>vs_rule := Synchronous (i + word_of_nat k + word_of_nat ?m)\<rparr>\<rparr> = at_sample A g (due g t)"
      using v(1) by (simp add: at_sample_def g'_def)
    have "concat (map (v_bytes A (fn_type (gv_function (at_sample A g k)))) (map (sample A g) [k..<due g t])) = d"
      by (simp add: d_def sample_bytes_def at_sample_def comp_def)
    moreover have "?m \<noteq> 0" using False k(1) by simp
    ultimately show ?thesis
      using False unfolding synchronous_process_def count samples option.case prod.case
      by (simp only: if_False add prod.case last)
  qed (use count in \<open>simp add: synchronous_process_def\<close>)
qed


text \<open>
  Any number of calls, one after the other: the packets they write, when sample \<open>k\<close> is next, and
  when these packets are small enough for the transport layer.
\<close>

fun packets :: "('f, 'v) arith \<Rightarrow> ('j, 'f, 'v) generated_value \<Rightarrow> nat \<Rightarrow> int list \<Rightarrow> byte list list" where
  "packets A g k [] = []"
| "packets A g k (t # ts) = (if k = due g t then [] else [sample_bytes A g k (due g t)]) @ packets A g (due g t) ts"

fun steady :: "('j, 'f, 'v) generated_value \<Rightarrow> nat \<Rightarrow> nat \<Rightarrow> int list \<Rightarrow> bool" where
  "steady g bound k [] \<longleftrightarrow> True"
| "steady g bound k (t # ts) \<longleftrightarrow> gv_lastProcessTime g \<le> t \<and> k \<le> due g t \<and>
     (due g t - k) * dataType_size (fn_type (gv_function g)) < bound \<and> steady g bound (due g t) ts"

fun process_times ::
  "('f, 'v) arith \<Rightarrow> ('j, 'w) iwriter \<Rightarrow> int list \<Rightarrow> ('j, 'f, 'v) generated_value \<Rightarrow> 'w \<Rightarrow> ('j, 'f, 'v) generated_value \<times> 'w" where
  "process_times A W [] g w = (g, w)"
| "process_times A W (t # ts) g w =
     (case synchronous_process A W t g w of (r, g', w') \<Rightarrow> process_times A W ts g' w')"

lemma process_times_at:
  assumes "generates A g i" and "steady g (2 ^ 32) k ts"
  shows "process_times A (StreamWriter J S) ts (at_sample A g k) w =
    (at_sample A g (if ts = [] then k else due g (last ts)),
     stream_writer.send J S (map (Data (bs_number (gv_signal g))) (packets A g k ts)) w)"
  using assms(2)
proof (induction ts arbitrary: k w)
  case (Cons t ts)
  then have "synchronous_process A (StreamWriter J S) t (at_sample A g k) w =
    (if k = due g t then (Inr 0, at_sample A g k, w)
     else (Inr (fst (iw_data (StreamWriter J S) (bs_number (gv_signal g)) (sample_bytes A g k (due g t)) w)),
       at_sample A g (due g t), stream_writer.send J S [Data (bs_number (gv_signal g)) (sample_bytes A g k (due g t))] w))"
    by (intro synchronous_process_at [OF assms(1)]) simp_all
  with Cons show ?case by simp
qed simp

lemma concat_packets:
  assumes "steady g bound k ts"
  shows "concat (packets A g k ts) = sample_bytes A g k (if ts = [] then k else due g (last ts))"
    and "ts \<noteq> [] \<Longrightarrow> k \<le> due g (last ts)"
proof -
  have "concat (packets A g k ts) = sample_bytes A g k (if ts = [] then k else due g (last ts)) \<and>
      (ts \<noteq> [] \<longrightarrow> k \<le> due g (last ts))"
    using assms
  proof (induction ts arbitrary: k)
    case (Cons t ts)
    from Cons.prems have k: "k \<le> due g t" "steady g bound (due g t) ts" by simp_all
    with Cons.IH [OF k(2)] show ?case by (cases "ts = []") (auto simp: sample_bytes_append)
  qed simp
  then show "concat (packets A g k ts) = sample_bytes A g k (if ts = [] then k else due g (last ts))"
    and "ts \<noteq> [] \<Longrightarrow> k \<le> due g (last ts)" by simp_all
qed

lemma steady_packets:
  assumes "sized_values A" and "steady g bound k ts" and "d \<in> set (packets A g k ts)"
  shows "d \<noteq> [] \<and> length d < bound \<and> dataType_size (fn_type (gv_function g)) dvd length d"
  using assms(2,3)
proof (induction ts arbitrary: k)
  case (Cons t ts)
  let ?s = "dataType_size (fn_type (gv_function g))" and ?d = "sample_bytes A g k (due g t)"
  have "0 < ?s" by (cases "fn_type (gv_function g)") simp_all
  moreover have "length ?d = (due g t - k) * ?s" by (rule sample_bytes_length [OF assms(1)])
  moreover have "k \<le> due g t" "(due g t - k) * ?s < bound" using Cons.prems(1) by simp_all
  ultimately have "k \<noteq> due g t \<Longrightarrow> ?d \<noteq> [] \<and> length ?d < bound \<and> ?s dvd length ?d" by fastforce
  then show ?case using Cons by (auto split: if_splits)
qed simp

text \<open>Gaps between the calls that are not too long are enough.\<close>

lemma due_gap:
  assumes "0 < gv_samplePeriod g" and "gv_lastProcessTime g \<le> t" and "t \<le> t'"
  shows "int (due g t' - due g t) \<le> (t' - t) div gv_samplePeriod g + 1"
proof -
  let ?p = "gv_samplePeriod g" and ?l = "gv_lastProcessTime g"
  let ?a = "(t' - t) mod ?p + (t - ?l) mod ?p"
  have "?a div ?p * ?p \<le> ?a" using assms(1) by (simp flip: minus_mod_eq_div_mult)
  moreover have "?a < 2 * ?p" using pos_mod_bound [OF assms(1), of "t' - t"] pos_mod_bound [OF assms(1), of "t - ?l"] by linarith
  ultimately have "?a div ?p * ?p < 2 * ?p" by linarith
  then have "?a div ?p \<le> 1" using assms(1) by simp
  then have "(t' - ?l) div ?p \<le> (t' - t) div ?p + (t - ?l) div ?p + 1"
    using div_add1_eq [of "t' - t" "t - ?l" ?p] by simp
  moreover have "int (due g u) = (u - ?l) div ?p" if "?l \<le> u" for u
    using that assms(1) by (simp add: due_def pos_imp_zdiv_nonneg_iff)
  ultimately show ?thesis using assms due_mono [OF assms(1,3)] by (simp add: of_nat_diff)
qed

lemma steady_gaps:
  assumes "0 < gv_samplePeriod g" and "gv_lastProcessTime g \<le> t0" and "sorted (t0 # ts)"
    and "successively (\<lambda>t t'. ((t' - t) div gv_samplePeriod g + 1) * int (dataType_size (fn_type (gv_function g))) < int bound) (t0 # ts)"
  shows "steady g bound (due g t0) ts"
  using assms(2-4)
proof (induction ts arbitrary: t0)
  case (Cons t ts)
  let ?s = "dataType_size (fn_type (gv_function g))"
  have t: "t0 \<le> t" "((t - t0) div gv_samplePeriod g + 1) * int ?s < int bound" using Cons.prems by simp_all
  have "int (due g t - due g t0) * int ?s \<le> ((t - t0) div gv_samplePeriod g + 1) * int ?s"
    using due_gap [OF assms(1) Cons.prems(1) t(1)] by (rule mult_right_mono) simp
  then have "int ((due g t - due g t0) * ?s) < int bound" unfolding of_nat_mult using t(2) by (rule le_less_trans)
  then have "(due g t - due g t0) * ?s < bound" unfolding of_nat_less_iff .
  moreover have "steady g bound (due g t) ts" using Cons.prems t(1) by (intro Cons.IH) simp_all
  ultimately show ?case using due_mono [OF assms(1) t(1)] Cons.prems(1) t(1) by simp
qed simp


section \<open>The loop\<close>

text \<open>What a call of \<open>addNanosecondsToTimePoint\<close> adds.\<close>

definition time_step :: "bool \<Rightarrow> int \<Rightarrow> int" where
  "time_step ns d = (if ns then d else duration_div d 1000 * 1000)"

lemma addNanoseconds_step: "addNanosecondsToTimePoint ns t d = t + time_step ns d"
  by (simp add: addNanosecondsToTimePoint_def time_step_def)

lemma process_generated_ids:
  "process_generated A ns W t gs w = (fl, gs', w') \<Longrightarrow> map fst gs' = map fst gs"
  by (induction A ns W t gs w arbitrary: fl gs' w' rule: process_generated.induct)
    (auto split: sum.splits prod.splits if_splits)

lemma init_generated_ids: "init_generated A W t gs w = (gs', w') \<Longrightarrow> map fst gs' = map fst gs"
  by (induction A W t gs w arbitrary: gs' w' rule: init_generated.induct) (auto split: prod.splits)

lemma loop_cycle_keeps:
  assumes "loop_cycle A ns W sg = (fl, sg')"
  shows "sg_endTime sg' = sg_endTime sg" "sg_processPeriod sg' = sg_processPeriod sg"
    "sg_time sg' = (if fl = Next then sg_time sg + time_step ns (sg_processPeriod sg) else sg_time sg)"
    "map fst (sg_signals sg') = map fst (sg_signals sg)"
  using assms process_generated_ids
  by (auto simp: loop_cycle_def addNanoseconds_step Let_def split: prod.splits if_splits)

lemma loop_cycle_endTime:
  "loop_cycle A ns W (sg\<lparr>sg_endTime := x\<rparr>) = (case loop_cycle A ns W sg of (fl, sg') \<Rightarrow> (fl, sg'\<lparr>sg_endTime := x\<rparr>))"
  by (simp add: loop_cycle_def Let_def split: prod.split)

text \<open>A round that does not go on: a signal failed, or the time would leave its range.\<close>

lemma loop_cycle_fails:
  assumes "loop_cycle A ns W sg = (fl, sg')" and "fl \<noteq> Next" and "sg_time sg + time_step ns (sg_processPeriod sg) < 2 ^ 63"
  shows "\<exists>gs w. map fst gs = map fst (sg_signals sg) \<and>
    process_generated A ns W (sg_time sg) gs w = (fl, sg_signals sg', sg_stream sg')"
  using assms
  by (intro exI [of _ "sg_signals sg"] exI [of _ "sg_stream sg"])
    (auto simp: loop_cycle_def addNanoseconds_step Let_def split: prod.splits if_splits)

text \<open>
  The rounds still to come before the \<open>n\<close>-th check, when \<open>k\<close> rounds would start up to the end
  time: a stop in time leaves the round it falls in, or the one after the check it comes before.
\<close>

definition rounds_due :: "int \<Rightarrow> ('j, 'f, 'v, 'w) generator \<Rightarrow> nat" where
  "rounds_due step sg = nat ((sg_endTime sg - sg_time sg) div step + 1)"

fun rounds_left :: "hangup_point option \<Rightarrow> nat \<Rightarrow> nat \<Rightarrow> nat" where
  "rounds_left None n k = k"
| "rounds_left (Some (Before_check m)) n k = (if n \<le> m \<and> m \<le> n + k then m - n + 1 else k)"
| "rounds_left (Some (During_cycle m)) n k = (if n \<le> m \<and> m < n + k then m - n + 1 else k)"

lemma rounds_due_0: "0 < step \<Longrightarrow> rounds_due step sg = 0 \<longleftrightarrow> sg_endTime sg < sg_time sg"
proof -
  assume "0 < step"
  then have "(sg_endTime sg - sg_time sg) div step + 1 \<le> 0 \<longleftrightarrow> sg_endTime sg < sg_time sg"
    using pos_imp_zdiv_neg_iff [of step "sg_endTime sg - sg_time sg"] by linarith
  then show ?thesis by (simp add: rounds_due_def)
qed

lemma rounds_due_Suc:
  assumes "0 < step" and "sg_time sg' = sg_time sg + step" and "sg_endTime sg' = sg_endTime sg"
  shows "rounds_due step sg' = rounds_due step sg - 1"
proof -
  have "(sg_endTime sg - (sg_time sg + step)) div step = (sg_endTime sg - sg_time sg) div step - 1"
    using assms(1) div_mult_self1 [of step "sg_endTime sg - sg_time sg" "-1"] by (simp add: algebra_simps)
  then show ?thesis using assms(2,3) by (simp add: rounds_due_def nat_diff_distrib')
qed

lemma rounds_due_now: "0 < step \<Longrightarrow> rounds_due step (generator_stop sg) = 1"
  by (simp add: rounds_due_def generator_stop_def)

text \<open>The loop makes exactly these rounds, unless a signal fails in one of them.\<close>

lemma generate_loop_ends:
  assumes "0 < time_step ns (sg_processPeriod sg)"
  shows "\<exists>fl sg'. generate_loop A ns W hangup n sg = Some (fl, sg') \<and>
    (sg_time sg + int (rounds_left hangup n (rounds_due (time_step ns (sg_processPeriod sg)) sg)) *
       time_step ns (sg_processPeriod sg) < 2 ^ 63 \<longrightarrow>
     (fl = Next \<longrightarrow> sg_time sg' = sg_time sg + int (rounds_left hangup n (rounds_due (time_step ns (sg_processPeriod sg)) sg)) *
        time_step ns (sg_processPeriod sg)) \<and>
     (fl \<noteq> Next \<longrightarrow> (\<exists>gs w. map fst gs = map fst (sg_signals sg) \<and>
        process_generated A ns W (sg_time sg') gs w = (fl, sg_signals sg', sg_stream sg'))))"
  using assms
proof (induction "rounds_left hangup n (rounds_due (time_step ns (sg_processPeriod sg)) sg)" arbitrary: n sg)
  case 0
  let ?step = "time_step ns (sg_processPeriod sg)"
  have "hangup \<noteq> Some (Before_check n)" "rounds_due ?step sg = 0"
    using 0(1) by (cases "(hangup, n, rounds_due ?step sg)" rule: rounds_left.cases; auto split: if_splits)+
  then have "generate_loop A ns W hangup n sg = Some (Next, sg)"
    using rounds_due_0 [OF 0(2), of sg] by (subst generate_loop.simps) simp
  then show ?case using 0(1) by simp
next
  case (Suc c)
  let ?step = "time_step ns (sg_processPeriod sg)"
  define sg1 where "sg1 = (if hangup = Some (Before_check n) then generator_stop sg else sg)"
  define sg2 where "sg2 = (if hangup = Some (During_cycle n) then generator_stop sg1 else sg1)"
  have sg2: "sg_time sg2 = sg_time sg" "sg_processPeriod sg2 = sg_processPeriod sg" "sg_time sg1 = sg_time sg"
    "sg_signals sg2 = sg_signals sg"
    by (simp_all add: sg1_def sg2_def generator_stop_def)
  have sg1: "sg_time sg1 \<le> sg_endTime sg1"
    using Suc(2) rounds_due_0 [OF Suc(3), of sg]
    by (cases "(hangup, n, rounds_due ?step sg)" rule: rounds_left.cases)
      (auto simp: sg1_def generator_stop_def split: if_splits)
  have next_rounds: "rounds_left hangup (Suc n) (rounds_due ?step sg2 - 1) = c"
    using Suc(2) rounds_due_now [OF Suc(3), of sg]
    by (cases "(hangup, n, rounds_due ?step sg)" rule: rounds_left.cases)
      (auto simp: sg1_def sg2_def split: if_splits)
  obtain fl sg3 where cycle: "loop_cycle A ns W sg2 = (fl, sg3)" by fastforce
  note c3 = loop_cycle_keeps [OF cycle]
  have loop: "generate_loop A ns W hangup n sg =
      (if fl = Next then generate_loop A ns W hangup (Suc n) sg3 else Some (fl, sg3))"
    using sg1 cycle by (subst generate_loop.simps) (simp add: sg1_def [symmetric] sg2_def [symmetric] del: generate_loop.simps)
  show ?case
  proof (cases "fl = Next")
    case True
    have "rounds_due ?step sg3 = rounds_due ?step sg2 - 1"
      using c3 True sg2 Suc(3) by (intro rounds_due_Suc) simp_all
    then have c: "c = rounds_left hangup (Suc n) (rounds_due (time_step ns (sg_processPeriod sg3)) sg3)"
      using next_rounds c3(2) sg2(2) by simp
    have "sg_time sg3 + int c * ?step = sg_time sg + int (Suc c) * ?step"
      using c3(3) True sg2 by (simp add: algebra_simps)
    then show ?thesis
      using Suc(1) [OF c] Suc(2,3) c [symmetric] c3(2,4) sg2(2,4) loop True by simp
  next
    case False
    have "?step \<le> int (Suc c) * ?step" using Suc(3) by (simp add: algebra_simps)
    then have "sg_time sg2 + time_step ns (sg_processPeriod sg2) < 2 ^ 63" if "sg_time sg + int (Suc c) * ?step < 2 ^ 63"
      using that sg2 by simp
    from loop_cycle_fails [OF cycle False this] show ?thesis
      using loop False c3(3) sg2(1,4) Suc(2) by simp
  qed
qed

lemma generate_loop_total: "0 < time_step ns (sg_processPeriod sg) \<Longrightarrow> \<exists>r. generate_loop A ns W hangup n sg = Some r"
  using generate_loop_ends [of ns sg A W hangup n] by blast

text \<open>With or without a stop, the loop is left by its condition only when the time has passed the end.\<close>

lemma generate_loop_regular:
  fixes A :: "('f, 'v) arith" and W :: "('j, 'w) iwriter" and sg :: "('j, 'f, 'v, 'w) generator"
  assumes "generate_loop A ns W hangup n sg = Some r" and "fst r = Next"
  shows "(sg_time sg < 2 ^ 63 \<longrightarrow> sg_time (snd r) < 2 ^ 63) \<and> (hangup = None \<longrightarrow> sg_endTime sg < sg_time (snd r)) \<and>
    (time_step ns (sg_processPeriod sg) = 0 \<longrightarrow> sg_endTime sg < sg_time sg \<and> hangup \<noteq> Some (Before_check n))"
proof -
  have "fst r = Next \<longrightarrow> (sg_time sg < 2 ^ 63 \<longrightarrow> sg_time (snd r) < 2 ^ 63) \<and> (hangup = None \<longrightarrow> sg_endTime sg < sg_time (snd r)) \<and>
    (time_step ns (sg_processPeriod sg) = 0 \<longrightarrow> sg_endTime sg < sg_time sg \<and> hangup \<noteq> Some (Before_check n))"
  proof (rule generate_loop.raw_induct [where P = "\<lambda>A ns W hangup n sg r. fst r = Next \<longrightarrow>
      (sg_time sg < 2 ^ 63 \<longrightarrow> sg_time (snd r) < 2 ^ 63) \<and> (hangup = None \<longrightarrow> sg_endTime sg < sg_time (snd r)) \<and>
      (time_step ns (sg_processPeriod sg) = 0 \<longrightarrow> sg_endTime sg < sg_time sg \<and> hangup \<noteq> Some (Before_check n))",
      OF _ assms(1)], rule impI)
    fix loop and A :: "('f, 'v) arith" and ns and W :: "('j, 'w) iwriter" and hangup and n :: nat
      and sg :: "('j, 'f, 'v, 'w) generator" and r
    assume IH: "\<And>A ns W hangup n (sg :: ('j, 'f, 'v, 'w) generator) r. loop A ns W hangup n sg = Some r \<Longrightarrow> fst r = Next \<longrightarrow>
        (sg_time sg < 2 ^ 63 \<longrightarrow> sg_time (snd r) < 2 ^ 63) \<and> (hangup = None \<longrightarrow> sg_endTime sg < sg_time (snd r)) \<and>
        (time_step ns (sg_processPeriod sg) = 0 \<longrightarrow> sg_endTime sg < sg_time sg \<and> hangup \<noteq> Some (Before_check n))"
      and step: "(let sg1 = if hangup = Some (Before_check n) then generator_stop sg else sg
         in if sg_time sg1 \<le> sg_endTime sg1 then
              case loop_cycle A ns W (if hangup = Some (During_cycle n) then generator_stop sg1 else sg1) of
                (fl, sg2) \<Rightarrow> if fl = Next then loop A ns W hangup (Suc n) sg2 else Some (fl, sg2)
            else Some (Next, sg1)) = Some r"
      and r: "fst r = Next"
    define sg1 where "sg1 = (if hangup = Some (Before_check n) then generator_stop sg else sg)"
    define sg2 where "sg2 = (if hangup = Some (During_cycle n) then generator_stop sg1 else sg1)"
    obtain fl sg3 where c: "loop_cycle A ns W sg2 = (fl, sg3)" by fastforce
    note c3 = loop_cycle_keeps [OF c]
    have in_range: "sg_time sg3 < 2 ^ 63" if "fl = Next"
      using c that by (auto simp: loop_cycle_def addNanoseconds_step Let_def split: prod.splits if_splits)
    from step have cases: "if sg_time sg1 \<le> sg_endTime sg1 then
        (if fl = Next then loop A ns W hangup (Suc n) sg3 = Some r else (fl, sg3) = r) else (Next, sg1) = r"
      by (simp add: Let_def sg1_def [symmetric] sg2_def [symmetric] c split: if_splits)
    show "(sg_time sg < 2 ^ 63 \<longrightarrow> sg_time (snd r) < 2 ^ 63) \<and> (hangup = None \<longrightarrow> sg_endTime sg < sg_time (snd r)) \<and>
        (time_step ns (sg_processPeriod sg) = 0 \<longrightarrow> sg_endTime sg < sg_time sg \<and> hangup \<noteq> Some (Before_check n))"
    proof (cases "sg_time sg1 \<le> sg_endTime sg1")
      case True
      with cases r have "fl = Next" "loop A ns W hangup (Suc n) sg3 = Some r" by (auto split: if_splits)
      with IH [OF this(2)] r c3 in_range True show ?thesis
        by (auto simp: sg1_def sg2_def generator_stop_def split: if_splits)
    next
      case False
      with cases show ?thesis by (auto simp: sg1_def generator_stop_def split: if_splits)
    qed
  qed
  with assms(2) show ?thesis by blast
qed

text \<open>What \<open>start\<close> makes of the outcome of the loop: an early return is passed on as it is.\<close>

lemma generator_start_loop:
  assumes "start_session J S A (set_endTime ns sg) = (s, sg1)"
  shows "generate_loop A ns (StreamWriter J S) hangup 0 sg1 = Some (fl, sg2) \<Longrightarrow>
      \<exists>sg' s'. generator_start J S A ns hangup sg = Some (fl, sg', s') \<and> sg_time sg' = sg_time sg2 \<and>
        (fl \<noteq> Next \<longrightarrow> sg' = sg2)"
    and "generator_start J S A ns hangup sg = Some r \<Longrightarrow>
      \<exists>r'. generate_loop A ns (StreamWriter J S) hangup 0 sg1 = Some r' \<and> fst r' = fst r"
  using assms by (auto simp: generator_start_def Let_def split: option.splits if_splits prod.splits)

lemma start_session_fields:
  assumes "start_session J S A (set_endTime ns sg) = (s, sg1)"
  shows "sg_processPeriod sg1 = sg_processPeriod sg" "sg_time sg1 = sg_time sg" "map fst (sg_signals sg1) = map fst (sg_signals sg)"
    and "sg_endTime sg1 = (if sg_executionTime sg = 0 then 2 ^ 63 - 1 else sg_time sg + time_step ns (sg_executionTime sg))"
  using assms init_generated_ids
  by (auto simp: start_session_def Let_def set_endTime_def addNanoseconds_step split: prod.splits)

section \<open>Exact arithmetic\<close>

text \<open>
  One instance of the arithmetic: the real numbers, with conversions that truncate. It shows
  that the parameter can be given, and what the generator does where rounding plays no role.
\<close>

definition trunc_real :: "real \<Rightarrow> int" where
  "trunc_real x = (if 0 \<le> x then \<lfloor>x\<rfloor> else \<lceil>x\<rceil>)"

definition real_arith :: "(real, real) arith" where
  "real_arith = \<lparr>
     f_lit = of_rat, f_of_int = of_int, f_add = (+), f_sub = (-), f_mul = (*), f_div = (/),
     f_less = (<), f_le = (\<le>), f_eq = (=), f_sin = sin,
     f_modf = (\<lambda>x. (x - of_int (trunc_real x), of_int (trunc_real x))),
     f_lround = (\<lambda>x. if 0 \<le> x then \<lfloor>x + 1 / 2\<rfloor> else \<lceil>x - 1 / 2\<rceil>),
     f_to_uint64 = (\<lambda>x. word_of_int (trunc_real x)),
     v_add = (\<lambda>t. (+)), v_sub = (\<lambda>t. (-)), v_mul = (\<lambda>t. (*)), v_of_int = (\<lambda>t. of_int),
     v_of_double = (\<lambda>t x. if t = Dt_float \<or> t = Dt_double then x else of_int (trunc_real x)),
     v_to_double = (\<lambda>t x. x),
     v_bytes = (\<lambda>t x. le_bytes (dataType_size t) (word_of_int (trunc_real x) :: u64))\<rparr>"

lemma real_arith_sized: "sized_values real_arith"
  by (simp add: sized_values_def real_arith_def)

lemma real_next_periodTime:
  "next_periodTime real_arith period sp t = (if period - sp \<le> t + sp then 0 else t + sp)"
  by (simp add: next_periodTime_def real_arith_def)

definition example_parameters :: "(real, real) function_parameters" where
  "example_parameters = \<lparr>functionType = FUNCTION_TYPE_IMPULSE, amplitude = 1, offset_level = 0, frequency = 100, dutyCycle = 0,
     fn_range = Range_clear, fn_postScaling = PostScaling_clear\<rparr>"

text \<open>An impulse every 10 ms, sampled every millisecond, from time 0 on.\<close>

definition example_impulse :: "(jtree, real, real) generated_value" where
  "example_impulse = fst (GeneratedSynchronousSignal_init tree_lib real_arith Dt_double ''sig'' ''tab'' ''time''
     example_parameters 1000000 0 5 6)"

lemma example_impulse_fields:
  "gv_samplePeriod example_impulse = 1000000" "gv_lastProcessTime example_impulse = 0" "gv_periodTime example_impulse = 0"
  "gv_period example_impulse = 1 / 100" "gv_samplePeriodDouble example_impulse = 1 / 1000"
  "fn_type (gv_function example_impulse) = Dt_double" "bs_number (gv_signal example_impulse) = 7"
  "vs_rule (gv_signal example_impulse) = Synchronous 5" "vs_dataType (gv_signal example_impulse) = Dt_double"
  by (simp_all add: example_impulse_def GeneratedSynchronousSignal_init_def SynchronousSignal_init_def BaseValueSignal_init_def
      nextSignalNumber_def SIGNAL_NUMBER_MASK_def Let_def describe_generated_def setRelatedSignals_def setPostScaling_def
      setRange_def Function_init_def real_arith_def seconds_double_def example_parameters_def of_rat_divide)

lemma example_impulse_generates: "generates real_arith example_impulse 5"
  by (simp add: generates_def example_impulse_fields real_arith_sized)

section \<open>Properties\<close>

text \<open>
  C16: the samples do not depend on the cycle. However often and at whatever points in time
  \<open>process\<close> of a synchronous signal is called, if the calls are in order and the gaps between
  them not too long for one block: the packets written, put together, are the samples of the
  function from the first up to the number of sample periods that have passed, each once and
  in order, and each packet has whole values.
\<close>

theorem generated_samples:
  assumes g: "generates A g i" and "sorted (gv_lastProcessTime g # ts)"
    and "successively (\<lambda>t t'. ((t' - t) div gv_samplePeriod g + 1) * int (dataType_size (fn_type (gv_function g))) < 2 ^ 32)
      (gv_lastProcessTime g # ts)"
  shows "\<exists>ds. process_times A (StreamWriter J S) ts g w =
      (at_sample A g (due g (last (gv_lastProcessTime g # ts))),
       stream_writer.send J S (map (Data (bs_number (gv_signal g))) ds) w) \<and>
    concat ds = concat (map (\<lambda>k. v_bytes A (fn_type (gv_function g)) (sample A g k)) [0..<due g (last (gv_lastProcessTime g # ts))]) \<and>
    (\<forall>d \<in> set ds. d \<noteq> [] \<and> dataType_size (fn_type (gv_function g)) dvd length d)"
proof -
  let ?l = "gv_lastProcessTime g"
  have p: "0 < gv_samplePeriod g" "sized_values A" using g by (simp_all add: generates_def)
  have l: "due g ?l = 0" by (simp add: due_def)
  have "steady g (2 ^ 32) 0 ts" using steady_gaps [OF p(1) order_refl assms(2), of "2 ^ 32"] assms(3) l by simp
  from process_times_at [OF g this, of J S w] concat_packets(1) [OF this, of A] steady_packets [OF p(2) this] show ?thesis
    by (intro exI [of _ "packets A g 0 ts"]) (auto simp: l sample_bytes_def)
qed

theorem generated_samples_witness:
  "\<exists>ds w. process_times real_arith (StreamWriter tree_lib memory_stream) [500000, 2500000, 3000000] example_impulse [] =
      (at_sample real_arith example_impulse 3, w) \<and> w = stream_writer.send tree_lib memory_stream (map (Data 7) ds) [] \<and>
    concat ds = concat (map (\<lambda>k. v_bytes real_arith Dt_double (sample real_arith example_impulse k)) [0..<3])"
proof -
  have "due example_impulse 3000000 = 3" by (simp add: due_def example_impulse_fields)
  with generated_samples [OF example_impulse_generates, of "[500000, 2500000, 3000000]" tree_lib memory_stream "[]"]
  show ?thesis by (fastforce simp: example_impulse_fields)
qed

text \<open>
  C22: the end of the generator. If the process period is at least one unit of the resolution,
  \<open>start\<close> returns after exactly the rounds that begin up to the end time, or, when the session's
  error callback stops it, with the round the stop falls in or the one that follows the check
  the stop comes before; it returns earlier only when processing the signals fails in a round, and
  then with that failure. The end must be in the range of points in time. With an execution time of 0 and no stop there is no such
  end: no run ends regularly. A shorter period, which the default resolution of microseconds
  rounds to 0, has no regular end either, whether the session is stopped or not.
\<close>

theorem generator_terminates:
  fixes sg :: "('j, 'f, 'v, 'w) generator" and hangup :: "hangup_point option" and ns :: bool
  defines "step \<equiv> time_step ns (sg_processPeriod sg)"
    and "end_time \<equiv> (if sg_executionTime sg = 0 then 2 ^ 63 - 1 else sg_time sg + time_step ns (sg_executionTime sg))"
  defines "n \<equiv> rounds_left hangup 0 (nat ((end_time - sg_time sg) div step + 1))"
  shows "(0 < step \<and> sg_time sg + int n * step < 2 ^ 63 \<longrightarrow>
      (\<exists>fl sg' s. generator_start J S A ns hangup sg = Some (fl, sg', s) \<and>
        (fl = Next \<longrightarrow> sg_time sg' = sg_time sg + int n * step) \<and>
        (fl \<noteq> Next \<longrightarrow> (\<exists>gs w. map fst gs = map fst (sg_signals sg) \<and>
           process_generated A ns (StreamWriter J S) (sg_time sg') gs w = (fl, sg_signals sg', sg_stream sg'))))) \<and>
   (sg_executionTime sg = 0 \<and> sg_time sg < 2 ^ 63 \<longrightarrow>
      map_option fst (generator_start J S A ns None sg) \<noteq> Some Next) \<and>
   (step = 0 \<and> sg_time sg \<le> end_time \<longrightarrow>
      map_option fst (generator_start J S A ns hangup sg) \<noteq> Some Next)"
proof -
  obtain s sg1 where s: "start_session J S A (set_endTime ns sg) = (s, sg1)" by fastforce
  note sg1 = start_session_fields [OF s, folded end_time_def] and start = generator_start_loop [OF s, of hangup]
    and unstopped = generator_start_loop(2) [OF s, of None]
  have n: "n = rounds_left hangup 0 (rounds_due step sg1)" by (simp add: n_def rounds_due_def sg1)
  have "\<exists>fl sg' s. generator_start J S A ns hangup sg = Some (fl, sg', s) \<and>
        (fl = Next \<longrightarrow> sg_time sg' = sg_time sg + int n * step) \<and>
        (fl \<noteq> Next \<longrightarrow> (\<exists>gs w. map fst gs = map fst (sg_signals sg) \<and>
           process_generated A ns (StreamWriter J S) (sg_time sg') gs w = (fl, sg_signals sg', sg_stream sg')))"
    if pos: "0 < step" and range: "sg_time sg + int n * step < 2 ^ 63"
  proof -
    obtain fl sg2 where loop: "generate_loop A ns (StreamWriter J S) hangup 0 sg1 = Some (fl, sg2)"
      and ends: "fl = Next \<longrightarrow> sg_time sg2 = sg_time sg + int n * step"
        "fl \<noteq> Next \<longrightarrow> (\<exists>gs w. map fst gs = map fst (sg_signals sg) \<and>
           process_generated A ns (StreamWriter J S) (sg_time sg2) gs w = (fl, sg_signals sg2, sg_stream sg2))"
      using generate_loop_ends [of ns sg1 A "StreamWriter J S" hangup 0, unfolded sg1(1-3), folded step_def, folded n] pos range
      by blast
    from start(1) [OF loop] obtain sg' s' where "generator_start J S A ns hangup sg = Some (fl, sg', s')"
      "sg_time sg' = sg_time sg2" "fl \<noteq> Next \<longrightarrow> sg' = sg2" by blast
    with ends show ?thesis by (intro exI [of _ fl] exI [of _ sg'] exI [of _ s']) simp
  qed
  moreover have "map_option fst (generator_start J S A ns None sg) \<noteq> Some Next" if "sg_executionTime sg = 0" "sg_time sg < 2 ^ 63"
    using unstopped that sg1(2,4) generate_loop_regular [of A ns "StreamWriter J S" None 0 sg1]
    by (auto simp: end_time_def)
  moreover have "map_option fst (generator_start J S A ns hangup sg) \<noteq> Some Next" if "step = 0" "sg_time sg \<le> end_time"
    using start(2) that sg1(1,2,4) generate_loop_regular [of A ns "StreamWriter J S" hangup 0 sg1]
    by (auto simp: step_def)
  ultimately show ?thesis by blast
qed

text \<open>
  A period of 1 ms: five rounds in an execution time of 4 ms, four when the session hangs up
  during the round of number 3; and with an execution time of 0 there is no regular end.
\<close>

theorem generator_terminates_witness:
  "(\<exists>sg' s. generator_start tree_lib memory_stream real_arith False None
      (configureTimes 1000000 4000000 (SignalGenerator_init 0 [] 0 0 0 0)) = Some (Next, sg', s) \<and> sg_time sg' = 5000000) \<and>
   (\<exists>sg' s. generator_start tree_lib memory_stream real_arith False (Some (During_cycle 3))
      (configureTimes 1000000 4000000 (SignalGenerator_init 0 [] 0 0 0 0)) = Some (Next, sg', s) \<and> sg_time sg' = 4000000) \<and>
   map_option fst (generator_start tree_lib memory_stream real_arith False None
      (configureTimes 1000000 0 (SignalGenerator_init 0 [] 0 0 0 0))) \<noteq> Some Next"
proof -
  let ?sg = "\<lambda>x. configureTimes 1000000 x (SignalGenerator_init 0 [] 0 0 0 0) :: (jtree, real, real, byte list) generator"
  have sg: "sg_processPeriod (?sg x) = 1000000" "sg_executionTime (?sg x) = x" "sg_signals (?sg x) = []" "sg_time (?sg x) = 0"
    for x by (simp_all add: configureTimes_def SignalGenerator_init_def)
  note times = set_endTime_def addNanoseconds_step time_step_def duration_div_def
  show ?thesis
    using generator_terminates [of False "?sg 4000000" None tree_lib memory_stream real_arith]
      generator_terminates [of False "?sg 4000000" "Some (During_cycle 3)" tree_lib memory_stream real_arith]
      generator_terminates [of False "?sg 0" None tree_lib memory_stream real_arith]
    by (auto simp: sg times)
qed

text \<open>
  C34: the period of the generated function. In exact arithmetic, a function whose period is
  \<open>n\<close> sample periods is sampled at the first \<open>n - 1\<close> of its \<open>n\<close> points in time only and then
  starts again: what is generated repeats after \<open>n - 1\<close> samples instead of \<open>n\<close>, because the
  point in time is reset one sample too early.
\<close>

theorem generated_period:
  assumes "gv_periodTime g = 0" and "gv_period g = real n * gv_samplePeriodDouble g" and "0 < gv_samplePeriodDouble g" and "2 \<le> n"
  shows "periodTime_after real_arith g k = real (k mod (n - 1)) * gv_samplePeriodDouble g \<and>
    sample real_arith g (k + (n - 1)) = sample real_arith g k"
proof -
  let ?sp = "gv_samplePeriodDouble g"
  have "periodTime_after real_arith g k = real (k mod (n - 1)) * ?sp" for k
  proof (induction k)
    case 0
    then show ?case by (simp add: periodTime_after_def assms(1))
  next
    case (Suc k)
    have "real n * ?sp - ?sp = real (n - 1) * ?sp" using assms(4) by (simp add: of_nat_diff algebra_simps)
    moreover have "real (k mod (n - 1)) * ?sp + ?sp = real (Suc (k mod (n - 1))) * ?sp" by (simp add: algebra_simps)
    moreover have "periodTime_after real_arith g (Suc k) = next_periodTime real_arith (gv_period g) ?sp (periodTime_after real_arith g k)"
      by (simp add: periodTime_after_def)
    ultimately have "periodTime_after real_arith g (Suc k) =
        (if real (n - 1) * ?sp \<le> real (Suc (k mod (n - 1))) * ?sp then 0 else real (Suc (k mod (n - 1))) * ?sp)"
      by (simp add: Suc assms(2) real_next_periodTime)
    also have "real (n - 1) * ?sp \<le> real (Suc (k mod (n - 1))) * ?sp \<longleftrightarrow> Suc (k mod (n - 1)) = n - 1"
    proof -
      have "k mod (n - 1) < n - 1" using assms(4) by simp
      then have "n - 1 \<le> Suc (k mod (n - 1)) \<longleftrightarrow> Suc (k mod (n - 1)) = n - 1" by linarith
      then show ?thesis by (simp only: mult_le_cancel_right_pos [OF assms(3)] of_nat_le_iff)
    qed
    finally show ?case by (simp add: mod_Suc)
  qed
  then show ?thesis by (simp add: sample_def)
qed

theorem generated_period_witness:
  "sample real_arith example_impulse 9 = sample real_arith example_impulse 0"
  using generated_period [of example_impulse 10 0] by (simp add: example_impulse_fields)

end
