(* ===== verification/Generator_Run.thy ===== *)
theory Generator_Run
  imports Table_Connection Signal_Generator
begin

text \<open>
  Everything \<open>SignalGenerator::start\<close> writes for any number of linear time signals and
  synchronous signals: the opening of the session, the start times, the packets of each cycle of
  the loop and the end of the session. Shown: with enough time between the cycles, \<open>start\<close>
  returns, and what it has written is this list of messages.
\<close>

section \<open>What the generator writes\<close>

text \<open>The points in time at which the loop processes its signals.\<close>

primrec cycle_times :: "int \<Rightarrow> int \<Rightarrow> nat \<Rightarrow> int list" where
  "cycle_times t step 0 = []"
| "cycle_times t step (Suc n) = t # cycle_times (t + step) step n"

lemma cycle_times_map: "cycle_times t step n = map (\<lambda>m. t + int m * step) [0..<n]"
proof (induction n arbitrary: t)
  case (Suc n)
  show ?case by (simp add: Suc upt_conv_Cons map_Suc_upt [symmetric] algebra_simps del: upt_Suc)
qed simp

lemma last_cycle_times: "last (cycle_times t step (Suc n)) = t + int n * step"
  by (simp add: cycle_times_map)

lemma cycle_times_sorted: "0 \<le> step \<Longrightarrow> sorted (cycle_times t step n)"
  by (auto simp: cycle_times_map sorted_iff_nth_mono mult_right_mono)

lemma cycle_times_successively: "(\<And>u. P u (u + step)) \<Longrightarrow> successively P (cycle_times t step n)"
proof (induction n arbitrary: t)
  case (Suc n)
  show ?case using Suc.IH [OF Suc.prems, of "t + step"] Suc.prems [of t] by (cases n) (simp_all add: successively_Cons)
qed simp

lemma steady_cycles:
  assumes "0 < gv_samplePeriod g" and "0 \<le> step"
    and "(step div gv_samplePeriod g + 1) * int (dataType_size (fn_type (gv_function g))) < int bound"
  shows "steady g bound 0 (cycle_times (gv_lastProcessTime g) step n)"
proof -
  let ?l = "gv_lastProcessTime g" and ?s = "int (dataType_size (fn_type (gv_function g)))"
  let ?P = "\<lambda>t t'. ((t' - t) div gv_samplePeriod g + 1) * ?s < int bound"
  have "?s \<le> (step div gv_samplePeriod g + 1) * ?s" using assms(1,2) by (simp add: algebra_simps pos_imp_zdiv_nonneg_iff)
  with assms(3) have "?s < int bound" by linarith
  then have "successively ?P (?l # cycle_times ?l step n)"
    using cycle_times_successively [of ?P step ?l n] assms(3) by (cases n) (simp_all add: successively_Cons)
  moreover have "sorted (?l # cycle_times ?l step n)"
    using cycle_times_sorted [OF assms(2), of ?l "Suc n"] cycle_times_sorted [OF assms(2), of ?l n] assms(2)
    by (auto simp: cycle_times_map)
  ultimately have "steady g bound (due g ?l) (cycle_times ?l step n)" by (intro steady_gaps [OF assms(1) order_refl])
  then show ?thesis by (simp add: due_def)
qed


section \<open>The signals of a generator from cycle to cycle\<close>

text \<open>A signal that has been processed at the time \<open>t\<close>, and after the start time has been told.\<close>

fun current :: "('f, 'v) arith \<Rightarrow> int \<Rightarrow> ('j, 'f, 'v) generated_signal \<Rightarrow> ('j, 'f, 'v) generated_signal" where
  "current A t (Generated_synchronous g) = Generated_synchronous (at_sample A g (due g t))"
| "current A t g = g"

fun told :: "('f, 'v) arith \<Rightarrow> int \<Rightarrow> ('j, 'f, 'v) generated_signal \<Rightarrow> ('j, 'f, 'v) generated_signal" where
  "told A t (Generated_time T) = Generated_time (T\<lparr>ds_startInTicks := timeTicksFromTime A t (getTimeTicksPerSecond T)\<rparr>)"
| "told A t g = g"

text \<open>What is written at the start, and in the cycle at \<open>t\<close> when the one before was at \<open>t'\<close>.\<close>

fun start_packets :: "('f, 'v) arith \<Rightarrow> int \<Rightarrow> ('j, 'f, 'v) generated_signal \<Rightarrow> 'j packet list" where
  "start_packets A t (Generated_time T) = [Start T (timeTicksFromTime A t (getTimeTicksPerSecond T))]"
| "start_packets A t _ = []"

fun cycle_packets :: "('f, 'v) arith \<Rightarrow> int \<Rightarrow> int \<Rightarrow> ('j, 'f, 'v) generated_signal \<Rightarrow> 'j packet list" where
  "cycle_packets A t' t (Generated_synchronous g) =
     map (Samples (gv_signal g)) (packets A g (due g t') [t])"
| "cycle_packets A t' t _ = []"

fun round_packets :: "('f, 'v) arith \<Rightarrow> int \<Rightarrow> int list \<Rightarrow> ('j, 'f, 'v) generated_signal list \<Rightarrow> 'j packet list" where
  "round_packets A t' [] gs = []"
| "round_packets A t' (t # ts) gs = concat (map (cycle_packets A t' t) gs) @ round_packets A t ts gs"

text \<open>Signals that keep up with cycles of this length from the time \<open>t0\<close> on.\<close>

fun paced :: "('f, 'v) arith \<Rightarrow> int \<Rightarrow> int \<Rightarrow> (u32 \<Rightarrow> u64) \<Rightarrow> ('j, 'f, 'v) generated_signal \<Rightarrow> bool" where
  "paced A t0 step index (Generated_synchronous g) \<longleftrightarrow>
     generates A g (index (bs_number (gv_signal g))) \<and> gv_lastProcessTime g = t0 \<and>
     (step div gv_samplePeriod g + 1) * int (dataType_size (fn_type (gv_function g))) < 2 ^ 31 - 8"
| "paced A t0 step index (Generated_time T) \<longleftrightarrow> True"
| "paced A t0 step index (Generated_asynchronous _) \<longleftrightarrow> False"

lemma current_start: "paced A t0 step index g \<Longrightarrow> current A t0 g = g"
  by (cases g) (simp_all add: due_def)

lemma told_keeps:
  "paced A t0 step index (told A t g) = paced A t0 step index g" "cycle_packets A t' u (told A t g) = cycle_packets A t' u g"
  by (cases g; simp)+

lemma round_packets_told: "round_packets A t' ts (map (told A t) gs) = round_packets A t' ts gs"
  by (induction ts arbitrary: t') (simp_all add: told_keeps comp_def)

lemma same_messages:
  "unsubscribe_messages J (getSignal (current A t g)) = unsubscribe_messages J (getSignal g)"
  "unsubscribe_messages J (getSignal (told A t g)) = unsubscribe_messages J (getSignal g)"
  "isDataSignal (getSignal (current A t g)) = isDataSignal (getSignal g)"
  "isDataSignal (getSignal (told A t g)) = isDataSignal (getSignal g)"
  by (cases g; simp add: getSignal_def unsubscribe_messages_def at_sample_def)+

lemma paced_steady:
  assumes "paced A t0 step index (Generated_synchronous g)" and "0 \<le> step" and "t0 \<le> t'" and "t = t' \<or> t = t' + step"
  shows "steady g (2 ^ 31 - 8) (due g t') [t]"
proof -
  let ?p = "gv_samplePeriod g" and ?s = "int (dataType_size (fn_type (gv_function g)))"
  have p: "0 < ?p" "gv_lastProcessTime g = t0" "(step div ?p + 1) * ?s < int (2 ^ 31 - 8)"
    using assms(1) by (simp_all add: generates_def)
  have "(t - t') div ?p \<le> step div ?p" using assms(2,4) p(1) by (auto simp: pos_imp_zdiv_nonneg_iff)
  then have "((t - t') div ?p + 1) * ?s \<le> (step div ?p + 1) * ?s" by (intro mult_right_mono) simp_all
  with p(3) have "((t - t') div ?p + 1) * ?s < int (2 ^ 31 - 8)" by linarith
  then show ?thesis using assms(2-4) p by (intro steady_gaps) auto
qed

text \<open>One cycle, and the whole loop.\<close>

lemma process_generated_all:
  fixes A :: "('f, 'v) arith" and J :: "'j json_lib" and S :: "'w stream_io" and gs :: "(string \<times> ('j, 'f, 'v) generated_signal) list"
  assumes S: "counts S" and "\<forall>(i, g) \<in> set gs. paced A t0 step index g" and "0 \<le> step" and "t0 \<le> t'"
    and "t = t' \<or> t = t' + step"
  shows "process_generated A ns (StreamWriter J S) t (map (apsnd (current A t')) gs) w =
    (Next, map (apsnd (current A t)) gs,
     stream_writer.send J S (map packet_message (concat (map (cycle_packets A t' t) (map snd gs)))) w)"
  using assms(2)
proof (induction gs arbitrary: w)
  case (Cons e gs)
  obtain i g where e: "e = (i, g)" by fastforce
  have rest: "process_generated A ns (StreamWriter J S) t (map (apsnd (current A t')) gs) w = (Next, map (apsnd (current A t)) gs,
     stream_writer.send J S (map packet_message (concat (map (cycle_packets A t' t) (map snd gs)))) w)" for w
    using Cons by simp
  show ?case
  proof (cases g)
    case (Generated_synchronous v)
    then have v: "paced A t0 step index (Generated_synchronous v)" using Cons.prems e by simp
    then have gen: "generates A v (index (bs_number (gv_signal v)))" "sized_values A" by (simp_all add: generates_def)
    let ?d = "sample_bytes A v (due v t') (due v t)" and ?s = "dataType_size (fn_type (gv_function v))"
    have k: "gv_lastProcessTime v \<le> t" "due v t' \<le> due v t" "(due v t - due v t') * ?s < 2 ^ 31 - 8"
      using paced_steady [OF v assms(3-5)] by simp_all
    then have "(due v t - due v t') * ?s < 2 ^ 32" by simp
    note p = synchronous_process_at [OF gen(1) k(2,1) this, of J S w]
    have "length ?d < 2 ^ 31 - 8" using k(3) sample_bytes_length [OF gen(2), of v "due v t'" "due v t"] by simp
    from writeSignalData_accepted [OF S this, of J "bs_number (gv_signal v)" w] show ?thesis
      using Generated_synchronous e rest by (simp add: generated_process_def p stream_writer.send_append)
  next
    case (Generated_time T)
    then show ?thesis using e rest by (simp add: generated_process_def)
  qed (use Cons.prems e in simp)
qed simp

lemma generate_loop_unfold:
  "sg_endTime sg < sg_time sg \<Longrightarrow> generate_loop A ns W None n sg = Some (Next, sg)"
  "sg_time sg \<le> sg_endTime sg \<Longrightarrow> loop_cycle A ns W sg = (Next, sg2) \<Longrightarrow>
     generate_loop A ns W None n sg = generate_loop A ns W None (Suc n) sg2"
  by (subst generate_loop.simps, simp)+

lemma generate_loop_all:
  fixes A :: "('f, 'v) arith" and J :: "'j json_lib" and S :: "'w stream_io" and gs :: "(string \<times> ('j, 'f, 'v) generated_signal) list"
    and sg :: "('j, 'f, 'v, 'w) generator"
  assumes S: "counts S" and gs: "\<forall>(i, g) \<in> set gs. paced A t0 step index g" and "0 < step"
    and "sg_signals sg = map (apsnd (current A t')) gs" and "t0 \<le> t'" and "sg_time sg = t' \<or> sg_time sg = t' + step"
    and "time_step ns (sg_processPeriod sg) = step"
    and "sg_time sg + int j * step \<le> sg_endTime sg" and "sg_endTime sg < sg_time sg + int (Suc j) * step"
    and "sg_time sg + int (Suc j) * step < 2 ^ 63"
  shows "generate_loop A ns (StreamWriter J S) None n sg = Some (Next, sg\<lparr>
    sg_signals := map (apsnd (current A (sg_time sg + int j * step))) gs,
    sg_time := sg_time sg + int (Suc j) * step,
    sg_stream := stream_writer.send J S
      (map packet_message (round_packets A t' (cycle_times (sg_time sg) step (Suc j)) (map snd gs))) (sg_stream sg)\<rparr>)"
  using assms(4-)
proof (induction j arbitrary: sg t' n)
  case (0 sg t' n)
  have cycle: "loop_cycle A ns (StreamWriter J S) sg = (Next, sg\<lparr>
      sg_signals := map (apsnd (current A (sg_time sg))) gs,
      sg_stream := stream_writer.send J S (map packet_message (concat (map (cycle_packets A t' (sg_time sg)) (map snd gs)))) (sg_stream sg),
      sg_time := sg_time sg + step\<rparr>)"
    using process_generated_all [OF S gs _ 0(2,3)] assms(3) 0 by (simp add: loop_cycle_def addNanoseconds_step Let_def)
  have "sg_time sg \<le> sg_endTime sg" using 0 by simp
  from generate_loop_unfold(2) [OF this cycle, of n] show ?case
    using 0 by (simp add: generate_loop_unfold(1))
next
  case (Suc j sg t' n)
  let ?t = "sg_time sg"
  define sg2 where "sg2 = sg\<lparr>
      sg_signals := map (apsnd (current A ?t)) gs,
      sg_stream := stream_writer.send J S (map packet_message (concat (map (cycle_packets A t' ?t) (map snd gs)))) (sg_stream sg),
      sg_time := ?t + step\<rparr>"
  have "0 \<le> int (Suc j) * step" "step \<le> int (Suc (Suc j)) * step" using assms(3) by (simp_all add: algebra_simps)
  then have in_range: "?t + step < 2 ^ 63" "?t \<le> sg_endTime sg" using Suc.prems(5,7) by linarith+
  have cycle: "loop_cycle A ns (StreamWriter J S) sg = (Next, sg2)"
    using process_generated_all [OF S gs _ Suc.prems(2,3)] assms(3) Suc.prems in_range
    by (simp add: loop_cycle_def addNanoseconds_step Let_def sg2_def)
  have rest: "generate_loop A ns (StreamWriter J S) None (Suc n) sg2 = Some (Next, sg2\<lparr>
    sg_signals := map (apsnd (current A (sg_time sg2 + int j * step))) gs,
    sg_time := sg_time sg2 + int (Suc j) * step,
    sg_stream := stream_writer.send J S
      (map packet_message (round_packets A ?t (cycle_times (sg_time sg2) step (Suc j)) (map snd gs))) (sg_stream sg2)\<rparr>)"
  proof (rule Suc.IH)
    show "sg_signals sg2 = map (apsnd (current A ?t)) gs" by (simp add: sg2_def)
    show "t0 \<le> ?t" using Suc.prems(2,3) assms(3) by auto
  qed (use Suc.prems in \<open>simp_all add: sg2_def algebra_simps\<close>)
  show ?case unfolding generate_loop_unfold(2) [OF in_range(2) cycle] rest by (simp add: sg2_def stream_writer.send_append algebra_simps)
qed

section \<open>The session before and after the loop\<close>

text \<open>The session's map of signals finds the signals of the generator.\<close>

lemma generated_lookup:
  assumes "distinct (map fst gs)" and "e \<in> set gs"
  shows "\<exists>r. map_of (all_signals gs) (fst e) = Some r \<and> generated_store gs r = getSignal (snd e)"
proof -
  from assms(2) obtain k where k: "k < length gs" "e = gs ! k" by (auto simp: in_set_conv_nth)
  then have "(fst e, k) \<in> set (all_signals gs)" by (force simp: all_signals_def in_set_zip)
  moreover have "distinct (map fst (all_signals gs))" using assms(1) by (simp add: all_signals_def)
  ultimately have "map_of (all_signals gs) (fst e) = Some k" by simp
  then show ?thesis using k by (simp add: generated_store_def)
qed

lemma named_generated:
  assumes "distinct (map fst gs)"
  shows "named_signals (generated_store gs) (map_of (all_signals gs)) (map fst gs) = map (getSignal \<circ> snd) gs"
proof -
  let ?m = "map_of (all_signals gs)"
  have "filter (\<lambda>i. ?m i \<noteq> None) (map fst gs) = map fst gs"
    by (rule filter_True) (use generated_lookup [OF assms] in force)
  then have "List.map_filter ?m (map fst gs) = map (the \<circ> ?m \<circ> fst) gs" unfolding List.map_filter_def by simp
  then show ?thesis using generated_lookup [OF assms] by (fastforce simp: named_signals_def)
qed

definition data_ids :: "(string \<times> ('j, 'f, 'v) generated_signal) list \<Rightarrow> string list" where
  "data_ids gs = map fst (filter (\<lambda>e. isDataSignal (getSignal (snd e))) gs)"

lemma data_ids_store:
  assumes "distinct (map fst gs)"
  shows "map fst (filter (\<lambda>(i, r). isDataSignal (generated_store gs r)) (all_signals gs)) = data_ids gs"
    and "filter (\<lambda>i. isDataSignal (generated_store gs (the (map_of (all_signals gs) i)))) (map fst gs) = data_ids gs"
proof -
  have "all_signals gs = map (\<lambda>k. (fst (gs ! k), k)) [0..<length gs]"
    by (rule nth_equalityI) (simp_all add: all_signals_def)
  then have "map fst (filter (\<lambda>(i, r). isDataSignal (generated_store gs r)) (all_signals gs)) =
      map fst (map ((!) gs) (filter (\<lambda>k. isDataSignal (getSignal (snd (gs ! k)))) [0..<length gs]))"
    by (simp add: filter_map comp_def generated_store_def)
  also have "\<dots> = map fst (filter (\<lambda>e. isDataSignal (getSignal (snd e))) (map ((!) gs) [0..<length gs]))"
    by (simp add: filter_map comp_def)
  finally show "map fst (filter (\<lambda>(i, r). isDataSignal (generated_store gs r)) (all_signals gs)) = data_ids gs"
    by (simp add: data_ids_def map_nth)
  have "isDataSignal (generated_store gs (the (map_of (all_signals gs) (fst e)))) = isDataSignal (getSignal (snd e))" if "e \<in> set gs" for e
    using generated_lookup [OF assms that] by auto
  then show "filter (\<lambda>i. isDataSignal (generated_store gs (the (map_of (all_signals gs) i)))) (map fst gs) = data_ids gs"
    by (simp add: data_ids_def filter_map comp_def cong: filter_cong)
qed

lemma remove_loop_data:
  assumes "distinct ids" and "\<forall>i \<in> set ids. m i \<noteq> None"
  shows "fst (snd (remove_loop store ids m)) = filter (\<lambda>i. isDataSignal (store (the (m i)))) ids"
  using assms
proof (induction ids arbitrary: m)
  case (Cons i ids)
  then obtain r where r: "m i = Some r" by auto
  have "fst (snd (remove_loop store ids (m(i := None)))) = filter (\<lambda>j. isDataSignal (store (the ((m(i := None)) j)))) ids"
    using Cons.prems by (intro Cons.IH) auto
  also have "\<dots> = filter (\<lambda>j. isDataSignal (store (the (m j)))) ids" using Cons.prems(1) by (auto intro: filter_cong)
  finally show ?case using r by (auto simp: case_prod_beta)
qed simp

text \<open>The announcement of signals; there is none if there are no data signals.\<close>

definition announcement :: "'j json_lib \<Rightarrow> string \<Rightarrow> string list \<Rightarrow> 'j message list" where
  "announcement J m ids = (if ids = [] then [] else [Meta 0 (signalIds_doc J m ids)])"

definition opening_messages ::
  "'j json_lib \<Rightarrow> string \<Rightarrow> (string \<times> ('j, 'f, 'v) generated_signal) list \<Rightarrow> 'j message list" where
  "opening_messages J url gs = initial_messages J url (j_null J) @ announcement J META_METHOD_AVAILABLE (data_ids gs)"

definition closing_messages :: "'j json_lib \<Rightarrow> (string \<times> ('j, 'f, 'v) generated_signal) list \<Rightarrow> 'j message list" where
  "closing_messages J gs = concat (map (unsubscribe_messages J) (map (getSignal \<circ> snd) gs)) @
     announcement J META_METHOD_UNAVAILABLE (data_ids gs)"

lemma init_generated_all:
  "init_generated A (StreamWriter J S) t gs w = (map (apsnd (told A t)) gs,
     stream_writer.send J S (map packet_message (concat (map (start_packets A t) (map snd gs)))) w)"
proof (induction gs arbitrary: w)
  case (Cons e gs)
  obtain i g where "e = (i, g)" by fastforce
  with Cons show ?case by (cases g) (simp_all add: initAfterSubscribeAck_def setTimeStart_sends stream_writer.send_append)
qed simp

lemma start_session_all:
  fixes A :: "('f, 'v) arith" and J :: "'j json_lib" and S :: "'w stream_io" and sg :: "('j, 'f, 'v, 'w) generator"
  assumes S: "delivers S wire" and gs: "distinct (map fst (sg_signals sg))"
  defines "gs \<equiv> sg_signals sg"
  shows "\<exists>s. start_session J S A sg = (s, sg\<lparr>sg_signals := map (apsnd (told A (sg_time sg))) gs,
      sg_stream := stream_writer.send J S (opening_messages J (st_url S (sg_stream sg)) gs @
        concat (map (subscribe_messages J) (map (getSignal \<circ> snd) gs)) @
        map packet_message (concat (map (start_packets A (sg_time sg)) (map snd gs)))) (sg_stream sg)\<rparr>) \<and>
    ps_allSignals s = map_of (all_signals gs)"
proof -
  define store where "store = generated_store gs"
  let ?W = "StreamWriter J S"
  let ?s1 = "session_start True (ProducerSession_init J S (sg_stream sg) (j_null J))"
  have s1: "ps_stream ?s1 = stream_writer.send J S (initial_messages J (st_url S (sg_stream sg)) (j_null J)) (sg_stream sg)"
    "ps_allSignals ?s1 = Map.empty"
    using ProducerSession_init_sends [OF S] by (simp_all add: session_start_def session_doRead_def ProducerSession_init_def)
  let ?s2 = "addSignals J S store (all_signals gs) ?s1"
  have s2: "ps_stream ?s2 = stream_writer.send J S (announcement J META_METHOD_AVAILABLE (data_ids gs)) (ps_stream ?s1)"
    "ps_allSignals ?s2 = map_of (all_signals gs)"
    unfolding addSignals_sends s1(2) store_def data_ids_store(1) [OF gs [folded gs_def]]
    by (simp_all add: announcement_def insert_missing_def split: list.split)
  let ?s3 = "snd (subscribeSignals J ?W store (map fst gs) ?s2)"
  have s3: "ps_stream ?s3 = stream_writer.send J S (concat (map (subscribe_messages J) (map (getSignal \<circ> snd) gs))) (ps_stream ?s2)"
    "ps_allSignals ?s3 = map_of (all_signals gs)"
    unfolding subscribeSignals_sends s2(2) unfolding store_def named_generated [OF gs [folded gs_def]]
    by (simp_all add: s2(2) [unfolded store_def])
  have "start_session J S A sg = (?s3, sg\<lparr>sg_signals := map (apsnd (told A (sg_time sg))) gs,
      sg_stream := stream_writer.send J S (map packet_message (concat (map (start_packets A (sg_time sg)) (map snd gs)))) (ps_stream ?s3)\<rparr>)"
    unfolding start_session_def Let_def gs_def [symmetric] store_def [symmetric] init_generated_all by simp
  then show ?thesis using s3(2) unfolding s3(1) s2(1) s1(1) opening_messages_def
    by (intro exI [of _ ?s3]) (simp add: stream_writer.send_append)
qed

lemma end_session_all:
  assumes gs: "distinct (map fst (sg_signals sg))" and s: "ps_allSignals s = map_of (all_signals (sg_signals sg))"
  shows "ps_stream (end_session J S sg s) = stream_writer.send J S (closing_messages J (sg_signals sg)) (sg_stream sg)"
proof -
  define gs where "gs = sg_signals sg"
  note gs = gs [folded gs_def] and s = s [folded gs_def]
  have u: "snd (unsubscribeSignals J (StreamWriter J S) (generated_store gs) (map fst gs) (s\<lparr>ps_stream := sg_stream sg\<rparr>)) =
      s\<lparr>ps_stream := stream_writer.send J S (concat (map (unsubscribe_messages J) (map (getSignal \<circ> snd) gs))) (sg_stream sg)\<rparr>"
    using named_generated [OF gs] by (simp add: unsubscribeSignals_sends s)
  have "\<forall>i \<in> set (map fst gs). map_of (all_signals gs) i \<noteq> None" using generated_lookup [OF gs] by force
  from remove_loop_data [OF gs this, of "generated_store gs"] obtain n m
    where "remove_loop (generated_store gs) (map fst gs) (map_of (all_signals gs)) = (n, data_ids gs, m)"
    unfolding data_ids_store(2) [OF gs] by (metis prod.collapse)
  then have r: "ps_stream (snd (removeSignals J S (generated_store gs) (map fst gs) (s\<lparr>ps_stream := w\<rparr>))) =
      stream_writer.send J S (announcement J META_METHOD_UNAVAILABLE (data_ids gs)) w" for w
    by (simp add: removeSignals_def s announce_sends announcement_def)
  have stop: "ps_stream (session_stop s') = ps_stream s'" for s' :: "'w producer_session"
    by (simp add: session_stop_def session_doClose_def)
  show ?thesis
    unfolding end_session_def Let_def gs_def [symmetric] u r stop closing_messages_def stream_writer.send_append ..
qed


text \<open>All of \<open>start\<close>, with the number of rounds after the first.\<close>

definition run_packets ::
  "('f, 'v) arith \<Rightarrow> int \<Rightarrow> int \<Rightarrow> nat \<Rightarrow> ('j, 'f, 'v) generated_signal list \<Rightarrow> 'j packet list" where
  "run_packets A t0 step rounds gs =
     concat (map (start_packets A t0) gs) @ round_packets A t0 (cycle_times t0 step (Suc rounds)) gs"

lemma closing_messages_apsnd:
  assumes "\<And>g. unsubscribe_messages J (getSignal (f g)) = unsubscribe_messages J (getSignal g)"
    and "\<And>g. isDataSignal (getSignal (f g)) = isDataSignal (getSignal g)"
  shows "closing_messages J (map (apsnd f) gs) = closing_messages J gs"
  by (simp add: closing_messages_def data_ids_def filter_map comp_def assms)

lemma map_fst_apsnd [simp]: "map fst (map (apsnd f) gs) = map fst gs"
  by simp

lemma all_signals_apsnd [simp]: "all_signals (map (apsnd f) gs) = all_signals gs"
  by (simp add: all_signals_def del: map_map)

lemma generator_start_all:
  fixes A :: "('f, 'v) arith" and J :: "'j json_lib" and S :: "'w stream_io" and sg :: "('j, 'f, 'v, 'w) generator"
  assumes S: "delivers S wire" "counts S" and gs: "distinct (map fst (sg_signals sg))"
    and step: "0 < step" and exec: "sg_executionTime sg \<noteq> 0" "0 \<le> time_step ns (sg_executionTime sg)"
    and in_range: "sg_time sg + time_step ns (sg_executionTime sg) + step < 2 ^ 63"
    and paced: "\<forall>(i, g) \<in> set (sg_signals sg). paced A (sg_time sg) step index g"
    and st: "step = time_step ns (sg_processPeriod sg)"
  defines "gs \<equiv> sg_signals sg" and "rounds \<equiv> nat (time_step ns (sg_executionTime sg) div step)"
  shows "\<exists>sg' s'. generator_start J S A ns None sg = Some (Next, sg', s') \<and>
    sg_stream sg' = stream_writer.send J S (opening_messages J (st_url S (sg_stream sg)) gs @
      concat (map (subscribe_messages J) (map (getSignal \<circ> snd) gs)) @
      map packet_message (run_packets A (sg_time sg) step rounds (map snd gs)) @ closing_messages J gs) (sg_stream sg)"
proof -
  let ?exec = "time_step ns (sg_executionTime sg)" and ?t = "sg_time sg" and ?sg0 = "set_endTime ns sg"
  let ?gs1 = "map (apsnd (told A ?t)) gs" let ?gs2 = "map (apsnd (current A (?t + int rounds * step))) ?gs1"
  have sg0: "sg_signals ?sg0 = gs" "sg_time ?sg0 = ?t" "sg_stream ?sg0 = sg_stream sg"
    "sg_processPeriod ?sg0 = sg_processPeriod sg" "sg_endTime ?sg0 = ?t + ?exec"
    using exec(1) by (simp_all add: set_endTime_def addNanoseconds_step gs_def)
  obtain s sg1 where s: "start_session J S A ?sg0 = (s, sg1)" "ps_allSignals s = map_of (all_signals gs)"
    and sg1: "sg1 = ?sg0\<lparr>sg_signals := ?gs1,
      sg_stream := stream_writer.send J S (opening_messages J (st_url S (sg_stream sg)) gs @
        concat (map (subscribe_messages J) (map (getSignal \<circ> snd) gs)) @
        map packet_message (concat (map (start_packets A ?t) (map snd gs)))) (sg_stream sg)\<rparr>"
    using start_session_all [OF S(1), of ?sg0 J A] gs unfolding sg0 gs_def [symmetric] by blast
  have keep: "\<forall>(i, g) \<in> set ?gs1. paced A ?t step index g" using paced by (force simp: gs_def told_keeps)
  have "map (apsnd (current A ?t)) ?gs1 = ?gs1"
    by (rule map_idI) (use keep in \<open>force simp: current_start\<close>)
  then have sigs: "sg_signals sg1 = map (apsnd (current A ?t)) ?gs1" by (simp add: sg1)
  have r: "int rounds = ?exec div step" using exec(2) step by (simp add: rounds_def pos_imp_zdiv_nonneg_iff)
  have "int rounds * step \<le> ?exec" "?exec < int rounds * step + step"
    unfolding r using step pos_mod_bound [OF step, of ?exec] pos_mod_sign [OF step, of ?exec] minus_mod_eq_div_mult [of ?exec step] by linarith+
  then have ends: "sg_time sg1 + int rounds * step \<le> sg_endTime sg1" "sg_endTime sg1 < sg_time sg1 + int (Suc rounds) * step"
    "sg_time sg1 + int (Suc rounds) * step < 2 ^ 63"
    using in_range sg0 by (simp_all add: sg1 algebra_simps)
  have times: "sg_time sg1 = ?t \<or> sg_time sg1 = ?t + step" "time_step ns (sg_processPeriod sg1) = step" "sg_time sg1 = ?t"
    using sg0 st by (simp_all add: sg1)
  define sg2 where "sg2 = sg1\<lparr>sg_signals := ?gs2, sg_time := ?t + int (Suc rounds) * step,
    sg_stream := stream_writer.send J S
      (map packet_message (round_packets A ?t (cycle_times ?t step (Suc rounds)) (map snd ?gs1))) (sg_stream sg1)\<rparr>"
  have loop: "generate_loop A ns (StreamWriter J S) None 0 sg1 = Some (Next, sg2)"
    unfolding sg2_def using generate_loop_all [OF S(2) keep step sigs order_refl times(1,2) ends, of J 0] unfolding times(3) .
  have "ps_stream (end_session J S sg2 s) = stream_writer.send J S (closing_messages J (sg_signals sg2)) (sg_stream sg2)"
    by (rule end_session_all) (use gs s(2) in \<open>simp_all add: sg2_def gs_def del: map_map\<close>)
  moreover have "closing_messages J (sg_signals sg2) = closing_messages J gs"
    by (simp add: sg2_def closing_messages_apsnd same_messages del: map_map)
  moreover have "map snd ?gs1 = map (told A ?t) (map snd gs)" by simp
  then have "sg_stream sg2 = stream_writer.send J S
      (map packet_message (round_packets A ?t (cycle_times ?t step (Suc rounds)) (map snd gs))) (sg_stream sg1)"
    unfolding sg2_def by (simp add: round_packets_told del: map_map)
  ultimately have "ps_stream (end_session J S sg2 s) = stream_writer.send J S (opening_messages J (st_url S (sg_stream sg)) gs @
      concat (map (subscribe_messages J) (map (getSignal \<circ> snd) gs)) @
      map packet_message (run_packets A ?t step rounds (map snd gs)) @ closing_messages J gs) (sg_stream sg)"
    by (simp add: sg1 run_packets_def stream_writer.send_append)
  then show ?thesis
    unfolding generator_start_def s(1) prod.case loop option.case Let_def by simp
qed

end
