(* ===== verification/Generator_Connection.thy ===== *)
theory Generator_Connection
  imports Generator_Run
begin

text \<open>
  The signal generator connected to a consumer: what \<open>SignalGenerator::start\<close> writes for any
  number of linear time signals and synchronous signals, as the consumer sees it. Shown: for
  each signal the consumer's callbacks get exactly the samples of its function, with their time
  stamps.
\<close>

section \<open>The packets of one signal\<close>

lemma getSignal_simps [simp]:
  "getSignal (Generated_time T) = Domain T" "getSignal (Generated_synchronous v) = Value (gv_signal v)"
  "getSignal (Generated_asynchronous a) = Value (gv_signal a)"
  by (simp_all add: getSignal_def)

lemma packets_of_append: "packets_of n (ps @ qs) = packets_of n ps @ packets_of n qs"
  by (induction n ps rule: packets_of.induct) simp_all

lemma starts_of_append: "starts_of n (ps @ qs) = starts_of n ps @ starts_of n qs"
  by (induction n ps rule: starts_of.induct) simp_all

lemma packets_of_samples: "packets_of n (map (Samples V) ds) = (if bs_number V = n then ds else [])"
  by (induction ds) simp_all

lemma starts_of_samples: "starts_of n (map (Samples V) ds) = []"
  by (induction ds) simp_all

lemma packets_of_member: "Samples V d \<in> set ps \<Longrightarrow> d \<in> set (packets_of (bs_number V) ps)"
proof (induction ps)
  case (Cons p ps)
  then show ?case by (cases p) auto
qed simp

text \<open>The signals as the session sees them; their numbers are different.\<close>

abbreviation numbers :: "('j, 'f, 'v) generated_signal list \<Rightarrow> u32 list" where
  "numbers gs \<equiv> map (\<lambda>g. getNumber (getSignal g)) gs"

lemma number_member: "g \<in> set gs \<Longrightarrow> getNumber (getSignal g) \<in> set (numbers gs)"
  by simp

lemma cycle_packets_other:
  "n \<notin> set (numbers gs) \<Longrightarrow> packets_of n (concat (map (cycle_packets A t' t) gs)) = []"
proof (induction gs)
  case (Cons g gs)
  then show ?case by (cases g) (auto simp: packets_of_append packets_of_samples)
qed simp

lemma cycle_packets_of:
  assumes "distinct (numbers gs)" and "Generated_synchronous v \<in> set gs"
  shows "packets_of (bs_number (gv_signal v)) (concat (map (cycle_packets A t' t) gs)) = packets A v (due v t') [t]"
  using assms
proof (induction gs)
  case (Cons g gs)
  show ?case
  proof (cases "g = Generated_synchronous v")
    case True
    then have "bs_number (gv_signal v) \<notin> set (numbers gs)" using Cons.prems(1) by simp
    with True show ?thesis by (simp add: packets_of_append packets_of_samples cycle_packets_other)
  next
    case False
    then have v: "Generated_synchronous v \<in> set gs" using Cons.prems(2) by simp
    from number_member [OF this] have "bs_number (gv_signal v) \<noteq> getNumber (getSignal g)" using Cons.prems(1) by auto
    then have "packets_of (bs_number (gv_signal v)) (cycle_packets A t' t g) = []"
      using cycle_packets_other [of "bs_number (gv_signal v)" "[g]" A t' t] by simp
    with Cons v show ?thesis by (simp add: packets_of_append)
  qed
qed simp

lemma round_packets_of:
  assumes "distinct (numbers gs)" and "Generated_synchronous v \<in> set gs"
  shows "packets_of (bs_number (gv_signal v)) (round_packets A t' ts gs) = packets A v (due v t') ts"
  by (induction ts arbitrary: t') (simp_all add: packets_of_append cycle_packets_of [OF assms])

lemma round_starts_of: "starts_of n (round_packets A t' ts gs) = []"
proof (induction ts arbitrary: t')
  case (Cons t ts)
  have "starts_of n (concat (map (cycle_packets A t' t) gs)) = []"
  proof (induction gs)
    case (Cons g gs)
    then show ?case by (cases g) (simp_all add: starts_of_append starts_of_samples)
  qed simp
  then show ?case by (simp add: starts_of_append Cons)
qed simp

lemma start_packets_none: "packets_of n (concat (map (start_packets A t) gs)) = []"
proof (induction gs)
  case (Cons g gs)
  then show ?case by (cases g) simp_all
qed simp

lemma start_packets_other:
  "n \<notin> set (numbers gs) \<Longrightarrow> starts_of n (concat (map (start_packets A t) gs)) = []"
proof (induction gs)
  case (Cons g gs)
  then show ?case by (cases g) auto
qed simp

lemma start_packets_of:
  assumes "distinct (numbers gs)" and "Generated_time T \<in> set gs"
  shows "starts_of (bs_number T) (concat (map (start_packets A t) gs)) = [timeTicksFromTime A t (getTimeTicksPerSecond T)]"
  using assms
proof (induction gs)
  case (Cons g gs)
  show ?case
  proof (cases "g = Generated_time T")
    case True
    then have "bs_number T \<notin> set (numbers gs)" using Cons.prems(1) by simp
    with True show ?thesis by (simp add: start_packets_other)
  next
    case False
    then have T: "Generated_time T \<in> set gs" using Cons.prems(2) by simp
    from number_member [OF this] have "bs_number T \<noteq> getNumber (getSignal g)" using Cons.prems(1) by auto
    then have "starts_of (bs_number T) (start_packets A t g) = []"
      using start_packets_other [of "bs_number T" "[g]" A t] by simp
    with Cons T show ?thesis by (simp add: starts_of_append)
  qed
qed simp

text \<open>The start times come first, so every packet has its time.\<close>

lemma in_time_starts:
  assumes "\<forall>p \<in> set ps. \<exists>T t. p = Start T t \<and> Domain T \<in> set sgs"
  shows "in_time sgs st (ps @ qs) \<longleftrightarrow> in_time sgs (st \<union> {bs_number T |T t. Start T t \<in> set ps}) qs"
  using assms
proof (induction ps arbitrary: st)
  case (Cons p ps)
  then obtain T t where p: "p = Start T t" "Domain T \<in> set sgs" by auto
  have "insert (bs_number T) st \<union> {bs_number T' |T' t'. Start T' t' \<in> set ps} =
      st \<union> {bs_number T' |T' t'. Start T' t' \<in> set (p # ps)}"
    using p(1) by auto
  with Cons.IH [of "insert (bs_number T) st"] Cons.prems p show ?case by simp
qed simp

lemma in_time_samples:
  "\<forall>p \<in> set ps. \<exists>V d. p = Samples V d \<and> Value V \<in> set sgs \<and> bs_number (time_signal sgs V) \<in> st \<Longrightarrow> in_time sgs st ps"
  by (induction ps) auto

lemma round_packets_member:
  assumes "p \<in> set (round_packets A t' ts gs)"
  shows "\<exists>v d. p = Samples (gv_signal v) d \<and> Generated_synchronous v \<in> set gs"
  using assms
proof (induction ts arbitrary: t')
  case (Cons t ts)
  have "\<exists>v d. p = Samples (gv_signal v) d \<and> Generated_synchronous v \<in> set gs"
    if "g \<in> set gs" "p \<in> set (cycle_packets A t' t g)" for g
    using that by - (cases g, force+)
  with Cons show ?case by auto
qed simp

lemma start_packets_member:
  "p \<in> set (concat (map (start_packets A t) gs)) \<longleftrightarrow>
    (\<exists>T. p = Start T (timeTicksFromTime A t (getTimeTicksPerSecond T)) \<and> Generated_time T \<in> set gs)"
proof (induction gs)
  case (Cons g gs)
  then show ?case by (cases g) auto
qed simp

lemma getSignal_time:
  fixes gs :: "('j, 'f, 'v) generated_signal list"
  shows "Domain T \<in> getSignal ` set gs \<longleftrightarrow> Generated_time T \<in> set gs"
proof
  assume "Domain T \<in> getSignal ` set gs"
  then obtain g where g: "g \<in> set gs" "Domain T = getSignal g" by blast
  from g(2) have "g = Generated_time T" by (cases g) simp_all
  with g(1) show "Generated_time T \<in> set gs" by simp
next
  assume "Generated_time T \<in> set gs"
  from imageI [OF this, of getSignal] show "Domain T \<in> getSignal ` set gs" by simp
qed

lemma run_in_time:
  assumes "tabled (map getSignal gs) index"
  shows "in_time (map getSignal gs) {} (run_packets A t0 step rounds gs)"
proof -
  let ?sgs = "map getSignal gs" and ?starts = "concat (map (start_packets A t0) gs)"
  have "\<forall>p \<in> set ?starts. \<exists>T t. p = Start T t \<and> Domain T \<in> set ?sgs"
    unfolding set_map getSignal_time using start_packets_member [where gs = gs] by blast
  note starts = in_time_starts [OF this, of "{}"]
  have "\<exists>V d. p = Samples V d \<and> Value V \<in> set ?sgs \<and>
      bs_number (time_signal ?sgs V) \<in> {bs_number T |T t. Start T t \<in> set ?starts}"
    if p: "p \<in> set (round_packets A t0 (cycle_times t0 step (Suc rounds)) gs)" for p
  proof -
    from round_packets_member [OF p] obtain v d where v: "p = Samples (gv_signal v) d" "Generated_synchronous v \<in> set gs" by blast
    then have V: "Value (gv_signal v) \<in> set ?sgs" by (force simp: getSignal_def)
    from tabled_time(1) [OF assms this] have "Generated_time (time_signal ?sgs (gv_signal v)) \<in> set gs"
      unfolding set_map getSignal_time .
    then have "\<exists>t. Start (time_signal ?sgs (gv_signal v)) t \<in> set ?starts" unfolding start_packets_member by blast
    with v(1) V show ?thesis by auto
  qed
  then show ?thesis unfolding run_packets_def starts by (intro in_time_samples) auto
qed


lemma run_packets_of:
  assumes "distinct (numbers gs)"
  shows "Generated_synchronous v \<in> set gs \<Longrightarrow> gv_lastProcessTime v = t0 \<Longrightarrow>
      packets_of (bs_number (gv_signal v)) (run_packets A t0 step rounds gs) = packets A v 0 (cycle_times t0 step (Suc rounds))"
    and "Generated_time T \<in> set gs \<Longrightarrow>
      starts_of (bs_number T) (run_packets A t0 step rounds gs) = [timeTicksFromTime A t0 (getTimeTicksPerSecond T)]"
proof -
  assume v: "Generated_synchronous v \<in> set gs" "gv_lastProcessTime v = t0"
  have "due v t0 = 0" using v(2) by (simp add: due_def)
  then show "packets_of (bs_number (gv_signal v)) (run_packets A t0 step rounds gs) = packets A v 0 (cycle_times t0 step (Suc rounds))"
    using round_packets_of [OF assms v(1), of A t0 "cycle_times t0 step (Suc rounds)"]
    by (simp add: run_packets_def packets_of_append start_packets_none del: round_packets.simps cycle_times.simps packets.simps)
next
  assume "Generated_time T \<in> set gs"
  then show "starts_of (bs_number T) (run_packets A t0 step rounds gs) = [timeTicksFromTime A t0 (getTimeTicksPerSecond T)]"
    using start_packets_of [OF assms, of T] unfolding run_packets_def starts_of_append round_starts_of by simp
qed

lemma paced_cycles:
  assumes "paced A t0 step index (Generated_synchronous v)" and "0 \<le> step"
  shows "sized_values A" and "gv_lastProcessTime v = t0" and "steady v (2 ^ 31 - 8) 0 (cycle_times t0 step n)"
  using assms steady_cycles [of v step "2 ^ 31 - 8" n] by (auto simp: generates_def)

lemma run_packets_size:
  assumes "distinct (numbers gs)" and "\<forall>g \<in> set gs. paced A t0 step index g" and "0 \<le> step"
    and "Samples V d \<in> set (run_packets A t0 step rounds gs)"
  shows "d \<noteq> [] \<and> length d < 2 ^ 32"
proof -
  let ?ps = "run_packets A t0 step rounds gs"
  have "Samples V d \<in> set (round_packets A t0 (cycle_times t0 step (Suc rounds)) gs)"
    using assms(4) start_packets_member [of "Samples V d"] unfolding run_packets_def set_append by blast
  from round_packets_member [OF this] obtain v where v: "Generated_synchronous v \<in> set gs" "V = gv_signal v" by auto
  with assms(2) have p: "paced A t0 step index (Generated_synchronous v)" by blast
  note c = paced_cycles [OF p assms(3)]
  have "d \<in> set (packets A v 0 (cycle_times t0 step (Suc rounds)))"
    using packets_of_member [OF assms(4)] run_packets_of(1) [OF assms(1) v(1) c(2), of A step rounds] v(2) by simp
  from steady_packets [OF c(1) c(3) this] have "length d < 2 ^ 31 - 8" "d \<noteq> []" by simp_all
  then show ?thesis by simp
qed

lemma observed_numbers:
  assumes "in_time sgs st ps" and "e \<in> set (observed sgs started index ps)"
  shows "\<exists>V. Value V \<in> set sgs \<and> fst e = bs_number V"
  using assms
proof (induction ps arbitrary: st started index)
  case (Cons p ps)
  then show ?case by (cases p) (auto simp: Let_def)
qed simp

section \<open>What the consumer sees\<close>

lemma unsubscribe_delivered:
  assumes J: "json_laws J" and "getNumber sg \<noteq> 0" and "c_signals (k_container k) (getNumber sg) = Some (Some r)"
  shows "\<exists>c'. deliver_all J (unsubscribe_messages J sg) k = Some (k\<lparr>k_container := c'\<rparr>) \<and>
    c_signals c' = (c_signals (k_container k))(getNumber sg := None) \<and>
    raw_data (c_calls c') = raw_data (c_calls (k_container k)) \<and> value_data (c_calls c') = value_data (c_calls (k_container k))"
proof -
  have "meta_method J (packed (unsubscribe_doc J)) = Inr META_METHOD_UNSUBSCRIBE"
    using J by (simp add: meta_method_def unsubscribe_doc_def json_simps)
  note c' = container_meta_unsubscribe [OF this assms(3)]
  then have "deliver_all J (unsubscribe_messages J sg) k =
      Some (k\<lparr>k_container := snd (container_processMetaInformation J (getNumber sg) (packed (unsubscribe_doc J)) (k_container k))\<rparr>)"
    using assms(2) by (simp add: unsubscribe_messages_def deliver_meta_def Let_def)
  moreover have "c_signals (snd (container_processMetaInformation J (getNumber sg) (packed (unsubscribe_doc J)) (k_container k))) =
      (c_signals (k_container k))(getNumber sg := None)"
    "raw_data (c_calls (snd (container_processMetaInformation J (getNumber sg) (packed (unsubscribe_doc J)) (k_container k)))) =
      raw_data (c_calls (k_container k))"
    "value_data (c_calls (snd (container_processMetaInformation J (getNumber sg) (packed (unsubscribe_doc J)) (k_container k)))) =
      value_data (c_calls (k_container k))"
    by (simp_all add: c' data_simps)
  ultimately show ?thesis by blast
qed

lemma unsubscriptions_delivered:
  assumes J: "json_laws J" and "distinct (map getNumber sgs)"
    and "\<forall>sg \<in> set sgs. getNumber sg \<noteq> 0 \<and> (\<exists>r. c_signals (k_container k) (getNumber sg) = Some (Some r))"
  shows "\<exists>c'. deliver_all J (concat (map (unsubscribe_messages J) sgs)) k = Some (k\<lparr>k_container := c'\<rparr>) \<and>
    c_signals c' = (\<lambda>n. if n \<in> getNumber ` set sgs then None else c_signals (k_container k) n) \<and>
    raw_data (c_calls c') = raw_data (c_calls (k_container k)) \<and> value_data (c_calls c') = value_data (c_calls (k_container k))"
  using assms(2,3)
proof (induction sgs arbitrary: k)
  case (Cons sg sgs)
  obtain r where "getNumber sg \<noteq> 0" "c_signals (k_container k) (getNumber sg) = Some (Some r)" using Cons.prems(2) by auto
  from unsubscribe_delivered [OF J this] obtain c1
    where c1: "deliver_all J (unsubscribe_messages J sg) k = Some (k\<lparr>k_container := c1\<rparr>)"
      "c_signals c1 = (c_signals (k_container k))(getNumber sg := None)"
      "raw_data (c_calls c1) = raw_data (c_calls (k_container k))" "value_data (c_calls c1) = value_data (c_calls (k_container k))"
    by auto
  have rest: "\<forall>sg' \<in> set sgs. getNumber sg' \<noteq> 0 \<and> (\<exists>r. c_signals (k_container (k\<lparr>k_container := c1\<rparr>)) (getNumber sg') = Some (Some r))"
  proof
    fix sg' assume sg': "sg' \<in> set sgs"
    then have "getNumber sg' \<noteq> getNumber sg" using Cons.prems(1) by (metis distinct.simps(2) imageI list.set_map list.simps(9))
    with sg' Cons.prems(2) show "getNumber sg' \<noteq> 0 \<and> (\<exists>r. c_signals (k_container (k\<lparr>k_container := c1\<rparr>)) (getNumber sg') = Some (Some r))"
      by (simp add: c1(2))
  qed
  have "distinct (map getNumber sgs)" using Cons.prems(1) by simp
  note IH = Cons.IH [OF this rest]
  have k1: "k_container (k\<lparr>k_container := c1\<rparr>) = c1" "k\<lparr>k_container := c1, k_container := c2\<rparr> = k\<lparr>k_container := c2\<rparr>" for c2
    by simp_all
  from IH obtain c2 where c2: "deliver_all J (concat (map (unsubscribe_messages J) sgs)) (k\<lparr>k_container := c1\<rparr>) = Some (k\<lparr>k_container := c2\<rparr>)"
    "c_signals c2 = (\<lambda>n. if n \<in> getNumber ` set sgs then None else c_signals c1 n)"
    "raw_data (c_calls c2) = raw_data (c_calls c1)" "value_data (c_calls c2) = value_data (c_calls c1)"
    unfolding k1 by blast
  have "deliver_all J (concat (map (unsubscribe_messages J) (sg # sgs))) k = Some (k\<lparr>k_container := c2\<rparr>)"
    using c1(1) c2(1) by (simp add: deliver_all_append)
  moreover have "c_signals c2 = (\<lambda>n. if n \<in> getNumber ` set (sg # sgs) then None else c_signals (k_container k) n)"
    by (simp add: c2(2) c1(2) fun_eq_iff)
  ultimately show ?case using c1(3,4) c2(3,4) by auto
next
  case Nil
  show ?case by (intro exI [of _ "k_container k"]) simp
qed

text \<open>The frame of a session, without its data, leaves the container alone.\<close>

lemma announced:
  assumes J: "json_laws J" and "m \<in> {META_METHOD_AVAILABLE, META_METHOD_UNAVAILABLE}"
  shows "\<exists>calls. deliver_all J (announcement J m ids) k = Some (k\<lparr>k_calls := calls\<rparr>)"
proof (cases "ids = []")
  case True
  then show ?thesis by (intro exI [of _ "k_calls k"]) (simp add: announcement_def)
next
  case False
  from announcement_delivered [OF J this assms(2), of k] obtain p
    where "deliver_message J (Meta 0 (signalIds_doc J m ids)) k = Some (k\<lparr>k_calls := k_calls k @ [StreamMeta_call m p]\<rparr>)" by blast
  then show ?thesis by (intro exI [of _ "k_calls k @ [StreamMeta_call m p]"]) (simp add: announcement_def False)
qed

lemma opening_delivered:
  assumes J: "json_laws J" and "sm_httpControlPort (k_streamMeta k) = []"
  shows "\<exists>sm calls. deliver_all J (opening_messages J url gs) k = Some (k\<lparr>k_streamMeta := sm, k_calls := calls\<rparr>)"
proof -
  obtain k1 where k1: "deliver_message J (Meta 0 (apiVersion_doc J)) k = Some k1"
    "k1 = k\<lparr>k_streamMeta := k_streamMeta k1, k_calls := k_calls k1\<rparr>" "sm_httpControlPort (k_streamMeta k1) = []"
    using apiVersion_delivered [OF J, of k] assms(2) by simp
  have "\<not> j_is_object J (j_null J)" using J by (simp add: json_simps)
  then obtain k2 where k2: "deliver_message J (Meta 0 (init_doc J url (j_null J))) k1 = Some k2"
    "k2 = k1\<lparr>k_streamMeta := k_streamMeta k2, k_calls := k_calls k2\<rparr>"
    using init_delivered [OF J _ k1(3), of "j_null J" "[]" "[]" 0 url] by fastforce
  obtain calls where k3: "deliver_all J (announcement J META_METHOD_AVAILABLE (data_ids gs)) k2 = Some (k2\<lparr>k_calls := calls\<rparr>)"
    using announced [OF J, of META_METHOD_AVAILABLE] by blast
  have "deliver_all J (opening_messages J url gs) k = Some (k2\<lparr>k_calls := calls\<rparr>)"
    unfolding opening_messages_def initial_messages_def append.simps deliver_all.simps k1(1) option.case k2(1) k3 ..
  moreover have "k2\<lparr>k_calls := calls\<rparr> = k\<lparr>k_streamMeta := k_streamMeta k2, k_calls := calls\<rparr>"
    by (subst k2(2), subst k1(2)) simp
  ultimately show ?thesis by metis
qed

lemma generator_delivered:
  fixes J :: "'j json_lib" and A :: "('f, 'v) arith" and gs :: "(string \<times> ('j, 'f, 'v) generated_signal) list" and k :: "'j consumer"
  assumes J: "json_laws J" and tabled: "tabled sgs index" and ready: "\<forall>sg \<in> set sgs. signal_ready J sg"
    and sgs: "sgs = map (getSignal \<circ> snd) gs" and ps: "in_time sgs {} ps"
    and new: "sm_httpControlPort (k_streamMeta k) = []"
      "\<forall>sg \<in> set sgs. c_signals (k_container k) (getNumber sg) = None \<and> c_tables (k_container k) (getTableId sg) = None"
  defines "c \<equiv> k_container k" and "seen \<equiv> observed sgs Map.empty index ps"
  shows "\<exists>k'. deliver_all J (opening_messages J url gs @ concat (map (subscribe_messages J) sgs) @ map packet_message ps @
        closing_messages J gs) k = Some k' \<and> c_signals (k_container k') = c_signals c \<and>
    raw_data (c_calls (k_container k')) = raw_data (c_calls c) @ map (\<lambda>(n, ts, d, m). (n, ts, d)) seen \<and>
    value_data (c_calls (k_container k')) = value_data (c_calls c) @ seen"
proof -
  have T: "distinct (map getNumber sgs)" "one_time sgs" "\<forall>sg \<in> set sgs. streamable sg index" "\<forall>sg \<in> set sgs. getNumber sg \<noteq> 0"
    using tabled by (simp_all add: tabled_def)
  obtain sm calls where o1: "deliver_all J (opening_messages J url gs) k = Some (k\<lparr>k_streamMeta := sm, k_calls := calls\<rparr>)" (is "_ = Some ?k1")
    using opening_delivered [OF J new(1)] by blast
  let ?c1 = "fold (subscribed_to J) sgs c"
  have o2: "deliver_all J (concat (map (subscribe_messages J) sgs)) ?k1 = Some (?k1\<lparr>k_container := ?c1\<rparr>)"
    using subscriptions_delivered [OF J _ T(1), of ?k1] ready T(4) new(2) by (simp add: c_def)
  have c1: "streams sgs Map.empty index ?c1" "\<forall>n. n \<notin> getNumber ` set sgs \<longrightarrow> c_signals ?c1 n = c_signals c n"
    "raw_data (c_calls ?c1) = raw_data (c_calls c)" "value_data (c_calls ?c1) = value_data (c_calls c)"
    using subscribed_streams [OF T(1-3), of c J] new(2) by (simp_all add: c_def)
  obtain c2 started' index' where o3: "deliver_all J (map packet_message ps) (?k1\<lparr>k_container := ?c1\<rparr>) = Some (?k1\<lparr>k_container := c2\<rparr>)"
    "streams sgs started' index' c2" "c_signals c2 = c_signals ?c1"
    "raw_data (c_calls c2) = raw_data (c_calls c) @ map (\<lambda>(n, ts, d, m). (n, ts, d)) seen"
    "value_data (c_calls c2) = value_data (c_calls c) @ seen"
    using packets_delivered [OF tabled, of Map.empty index "?k1\<lparr>k_container := ?c1\<rparr>" ps J] c1 ps by (auto simp: seen_def)
  let ?k3 = "?k1\<lparr>k_container := c2\<rparr>"
  have "\<forall>sg \<in> set sgs. getNumber sg \<noteq> 0 \<and> (\<exists>r. c_signals (k_container ?k3) (getNumber sg) = Some (Some r))"
    using o3(2) T(4) by (fastforce simp: streams_def)
  moreover have k3: "k_container ?k3 = c2" by simp
  ultimately obtain c3
    where o4: "deliver_all J (concat (map (unsubscribe_messages J) sgs)) ?k3 = Some (?k3\<lparr>k_container := c3\<rparr>)"
      "c_signals c3 = (\<lambda>n. if n \<in> getNumber ` set sgs then None else c_signals c2 n)"
      "raw_data (c_calls c3) = raw_data (c_calls c2)" "value_data (c_calls c3) = value_data (c_calls c2)"
    using unsubscriptions_delivered [OF J T(1), of ?k3] unfolding k3 by blast
  obtain calls' where o5: "deliver_all J (announcement J META_METHOD_UNAVAILABLE (data_ids gs)) (?k3\<lparr>k_container := c3\<rparr>) =
      Some (?k3\<lparr>k_container := c3, k_calls := calls'\<rparr>)" (is "_ = Some ?k5")
    using announced [OF J, of META_METHOD_UNAVAILABLE] by blast
  have "deliver_all J (opening_messages J url gs @ concat (map (subscribe_messages J) sgs) @ map packet_message ps @
      closing_messages J gs) k = Some ?k5"
    unfolding closing_messages_def sgs [symmetric] deliver_all_append o1 o2 o3(1) o4(1) o5 bind.bind_lunit ..
  moreover have "c_signals c3 = c_signals c"
    using o4(2) o3(3) c1(2) new(2) by (auto simp: fun_eq_iff c_def)
  moreover have "k_container ?k5 = c3" by simp
  ultimately show ?thesis using o4(3,4) o3(4,5) by (intro exI [of _ ?k5]) metis
qed


text \<open>What is observed of one synchronous signal of a run.\<close>

lemma run_observed:
  fixes A :: "('f, 'v) arith" and vs :: "('j, 'f, 'v) generated_signal list"
  assumes tabled: "tabled (map getSignal vs) index" and paced: "\<forall>g \<in> set vs. paced A t0 step index g"
    and time: "0 < step" "0 \<le> exec" and v: "Generated_synchronous g \<in> set vs"
  defines "V \<equiv> gv_signal g" and "T \<equiv> time_signal (map getSignal vs) (gv_signal g)"
  shows "\<exists>ds. concat ds = concat (map (\<lambda>k. v_bytes A (vs_dataType V) (sample A g k)) [0..<due g (t0 + exec div step * step)]) \<and>
    filter (\<lambda>e. fst e = bs_number V)
        (observed (map getSignal vs) Map.empty index (run_packets A t0 step (nat (exec div step)) vs)) =
      map (\<lambda>(ts, d, m). (bs_number V, ts, d, m))
        (timed (word_of_nat (dataType_size (vs_dataType V))) (getTimeDelta T)
           (timeTicksFromTime A t0 (getTimeTicksPerSecond T)) (index (bs_number V)) ds)"
proof (intro exI conjI)
  let ?rounds = "nat (exec div step)" let ?ts = "cycle_times t0 step (Suc ?rounds)" and ?ps = "run_packets A t0 step ?rounds vs"
  have numbers: "distinct (numbers vs)" using tabled by (simp add: tabled_def comp_def)
  have p: "paced A t0 step index (Generated_synchronous g)" using paced v by blast
  note c = paced_cycles(1,2) [OF p less_imp_le [OF time(1)]] paced_cycles(3) [OF p less_imp_le [OF time(1)], of "Suc ?rounds"]
  have "due g (last ?ts) = due g (t0 + exec div step * step)"
    using time by (simp only: last_cycle_times) (simp add: pos_imp_zdiv_nonneg_iff)
  moreover have "vs_dataType V = fn_type (gv_function g)" using p by (simp add: generates_def V_def)
  ultimately show "concat (packets A g 0 ?ts) =
      concat (map (\<lambda>k. v_bytes A (vs_dataType V) (sample A g k)) [0..<due g (t0 + exec div step * step)])"
    using concat_packets(1) [OF c(3), of A] by (simp add: sample_bytes_def)
  have V: "Value V \<in> set (map getSignal vs)" using imageI [OF v, of getSignal] unfolding V_def set_map by simp
  from tabled_time(1) [OF tabled this] have "Domain T \<in> getSignal ` set vs" unfolding set_map T_def V_def .
  then have "Generated_time T \<in> set vs" by (rule getSignal_time [THEN iffD1])
  from run_packets_of(2) [OF numbers this]
  have "starts_of (bs_number (time_signal (map getSignal vs) V)) ?ps = [timeTicksFromTime A t0 (getTimeTicksPerSecond T)]"
    by (simp add: T_def V_def)
  moreover have "packets_of (bs_number V) ?ps = packets A g 0 ?ts"
    using run_packets_of(1) [OF numbers v c(2)] by (simp add: V_def)
  ultimately show "filter (\<lambda>e. fst e = bs_number V) (observed (map getSignal vs) Map.empty index ?ps) =
      map (\<lambda>(ts, d, m). (bs_number V, ts, d, m))
        (timed (word_of_nat (dataType_size (vs_dataType V))) (getTimeDelta T)
           (timeTicksFromTime A t0 (getTimeTicksPerSecond T)) (index (bs_number V)) (packets A g 0 ?ts))"
    using observed_signal [OF tabled V run_in_time [OF tabled], where started = Map.empty and index = index]
    by (simp add: T_def V_def)
qed

section \<open>Properties\<close>

text \<open>
  C8: the signal generator from end to end. A generator with any number of linear time signals
  and synchronous signals, each table with one time signal, whose signals keep up with its
  process period, runs for its execution time: \<open>start\<close> returns, and a consumer that gets what
  it wrote, in pieces of any size, reads all of it. Then the raw and the value callback have
  been called, in the same order, for packets of these signals only, and for each synchronous
  signal the packets together are exactly the samples of its function that were due in that
  time, each packet with the time stamp start time plus delta times the index of its first
  value. No signal is subscribed any more.
\<close>

theorem generator_end_to_end:
  fixes A :: "('f, 'v) arith" and gs :: "(string \<times> ('j, 'f, 'v) generated_signal) list" and J :: "'j json_lib"
    and S :: "'w stream_io" and sg :: "('j, 'f, 'v, 'w) generator" and h :: "('j, 'u) handler" and ns :: bool
  defines "gs \<equiv> sg_signals sg" and "step \<equiv> time_step ns (sg_processPeriod sg)" and "exec \<equiv> time_step ns (sg_executionTime sg)"
    and "sgs \<equiv> map (getSignal \<circ> snd) (sg_signals sg)" and "c \<equiv> h_container h"
  assumes J: "json_laws J" and S: "delivers S wire" "counts S" and I: "reads I" and "wire (sg_stream sg) = []"
    and gs: "distinct (map fst gs)" "tabled sgs index" "\<forall>s \<in> set sgs. signal_ready J s"
      "\<forall>(i, g) \<in> set gs. paced A (sg_time sg) step index g"
    and time: "0 < step" "sg_executionTime sg \<noteq> 0" "0 \<le> exec" "sg_time sg + exec + step < 2 ^ 63"
    and fits: "\<forall>m \<in> set (opening_messages J (st_url S (sg_stream sg)) gs @ concat (map (subscribe_messages J) sgs) @
        closing_messages J gs). sendable J m"
    and h: "at_header I [] h" "sm_httpControlPort (h_streamMeta h) = []"
      "\<forall>s \<in> set sgs. c_signals c (getNumber s) = None \<and> c_tables c (getTableId s) = None"
  shows "\<exists>sg' s'. generator_start J S A ns None sg = Some (Next, sg', s') \<and>
    (\<exists>h'. runs J I (wire (sg_stream sg')) h h' \<and> (\<nexists>h''. completes J I h' h'')) \<and>
    (\<forall>h'. runs J I (wire (sg_stream sg')) h h' \<and> (\<nexists>h''. completes J I h' h'') \<longrightarrow>
       c_signals (h_container h') = c_signals c \<and>
       (\<exists>seen. raw_data (c_calls (h_container h')) = raw_data (c_calls c) @ map (\<lambda>(n, ts, d, m). (n, ts, d)) seen \<and>
          value_data (c_calls (h_container h')) = value_data (c_calls c) @ seen \<and>
          (\<forall>e \<in> set seen. \<exists>V. Value V \<in> set sgs \<and> fst e = bs_number V) \<and>
          (\<forall>i g. (i, Generated_synchronous g) \<in> set gs \<longrightarrow>
             (let V = gv_signal g; T = time_signal sgs V in \<exists>ds.
                concat ds = concat (map (\<lambda>k. v_bytes A (vs_dataType V) (sample A g k)) [0..<due g (sg_time sg + exec div step * step)]) \<and>
                filter (\<lambda>e. fst e = bs_number V) seen = map (\<lambda>(ts, d, m). (bs_number V, ts, d, m))
                  (timed (word_of_nat (dataType_size (vs_dataType V))) (getTimeDelta T)
                     (timeTicksFromTime A (sg_time sg) (getTimeTicksPerSecond T)) (index (bs_number V)) ds)))))"
proof -
  let ?url = "st_url S (sg_stream sg)" and ?t0 = "sg_time sg" and ?rounds = "nat (exec div step)" and ?vs = "map snd gs"
  define ps where "ps = run_packets A ?t0 step ?rounds ?vs"
  let ?ms = "opening_messages J ?url gs @ concat (map (subscribe_messages J) sgs) @ map packet_message ps @ closing_messages J gs"
  define seen where "seen = observed sgs Map.empty index ps"
  have sgs: "sgs = map (getSignal \<circ> snd) gs" "sgs = map getSignal ?vs" by (simp_all add: sgs_def gs_def)
  then have numbers: "distinct (numbers ?vs)" using gs(2) by (simp add: tabled_def comp_def)
  have paced: "\<forall>g \<in> set ?vs. paced A ?t0 step index g" using gs(4) by auto
  obtain sg' s' where start: "generator_start J S A ns None sg = Some (Next, sg', s')"
    "sg_stream sg' = stream_writer.send J S ?ms (sg_stream sg)"
    using generator_start_all [OF S gs(1) [unfolded gs_def] time(1,2) time(3,4) [unfolded exec_def] gs(4) [unfolded gs_def]
        meta_eq_to_obj_eq [OF step_def], where J = J] unfolding exec_def [symmetric] gs_def [symmetric] sgs(1) [symmetric] ps_def by blast
  have bytes: "wire (sg_stream sg') = concat (map (message_bytes J) ?ms)"
    unfolding start(2) stream_writer.send_wire [OF S(1)] assms(10) by simp
  have in_time: "in_time sgs {} ps" using run_in_time gs(2) unfolding ps_def sgs(2) by blast
  have size: "\<forall>V d. Samples V d \<in> set ps \<longrightarrow> d \<noteq> [] \<and> length d < 2 ^ 32"
    using run_packets_size [OF numbers paced] time(1) unfolding ps_def by simp
  have "\<forall>s \<in> set sgs. \<forall>m \<in> set (subscribe_messages J s). sendable J m" using fits by auto
  from packets_sendable [OF this in_time size] fits have ms: "\<forall>m \<in> set ?ms. sendable J m" by auto
  have view: "k_container (view h') = h_container h'" "k_streamMeta (view h') = h_streamMeta h'" for h' :: "('j, 'u) handler"
    by (simp_all add: view_def)
  obtain k where k: "deliver_all J ?ms (view h) = Some k" "c_signals (k_container k) = c_signals c"
    "raw_data (c_calls (k_container k)) = raw_data (c_calls c) @ map (\<lambda>(n, ts, d, m). (n, ts, d)) seen"
    "value_data (c_calls (k_container k)) = value_data (c_calls c) @ seen"
    using generator_delivered [OF J gs(2,3) sgs(1) in_time, where k = "view h" and url = ?url] h(2,3) unfolding view c_def seen_def by blast
  have signal: "\<exists>ds. concat ds = concat (map (\<lambda>k. v_bytes A (vs_dataType V) (sample A g k)) [0..<due g (?t0 + exec div step * step)]) \<and>
      filter (\<lambda>e. fst e = bs_number V) seen = map (\<lambda>(ts, d, m). (bs_number V, ts, d, m))
        (timed (word_of_nat (dataType_size (vs_dataType V))) (getTimeDelta T)
           (timeTicksFromTime A ?t0 (getTimeTicksPerSecond T)) (index (bs_number V)) ds)"
    if g: "(i, Generated_synchronous g) \<in> set gs" and "V = gv_signal g" and "T = time_signal sgs V" for i g V T
  proof -
    have "Generated_synchronous g \<in> set ?vs" using g by force
    from run_observed [OF gs(2) [unfolded sgs(2)] paced time(1,3) this] that(2,3) show ?thesis
      unfolding seen_def ps_def sgs(2) by blast
  qed
  have "\<forall>e \<in> set seen. \<exists>V. Value V \<in> set sgs \<and> fst e = bs_number V"
    using observed_numbers [OF in_time] unfolding seen_def by blast
  with messages_run [OF J I ms h(1) k(1)] signal k(2-4) start(1) show ?thesis
    unfolding bytes [symmetric] by (fastforce simp: Let_def view [symmetric])
qed

text \<open>The generator as its own operations set it up: signal \<open>sig\<close> with its time signal, for 3 ms.\<close>

definition example_generator :: "(jtree, real, real, byte list) generator" where
  "example_generator = snd (addSynchronousSignal tree_lib real_arith Dt_double ''sig'' ''tab'' ''A_sig_time'' example_parameters 1000000 0
     (snd (addLinearTimeSignal tree_lib ''A_sig_time'' ''tab'' 1000000 0
       (configureTimes 1000000 3000000 (SignalGenerator_init 0 [] 0 0 0 0)))))"

definition generator_time :: "jtree domain_signal" where
  "generator_time = fst (LinearTimeSignal_init tree_lib ''A_sig_time'' ''tab'' 1000000000 1000000 0 0)"

definition generator_value :: "jtree value_signal" where
  "generator_value = setRelatedSignals [(META_TIME, ''A_sig_time'')] (setPostScaling PostScaling_clear (setRange Range_clear
     (fst (SynchronousSignal_init tree_lib ''sig'' ''tab'' Dt_double 0 1))))"

definition generator_impulse :: "(jtree, real, real) generated_value" where
  "generator_impulse = fst (GeneratedSynchronousSignal_init tree_lib real_arith Dt_double ''sig'' ''tab'' ''A_sig_time''
     example_parameters 1000000 0 0 1)"

lemma generator_signal_fields:
  "bs_number generator_time = 1" "bs_id generator_time = ''A_sig_time''" "bs_tableId generator_time = ''tab''"
  "ds_rule generator_time = Linear_time 1000000" "domain_ok generator_time"
  "bs_number generator_value = 2" "bs_id generator_value = ''sig''" "bs_tableId generator_value = ''tab''"
  "vs_rule generator_value = Synchronous 0" "vs_dataType generator_value = Dt_double" "describable generator_value"
  "quantity (vs_unit generator_value) = []"
  by (simp_all add: generator_time_def domain_ok_def LinearTimeSignal_init_def BaseDomainSignal_init_def ticks_of_rate_def
      nextSignalNumber_def SIGNAL_NUMBER_MASK_def Let_def Resolution_valid_def Resolution_init_def
      generator_value_def describable_def SynchronousSignal_init_def BaseValueSignal_init_def
      setRange_def setPostScaling_def setRelatedSignals_def Unit_representable_def Unit_clear_def)

lemma generator_impulse_fields:
  "gv_signal generator_impulse = generator_value" "gv_samplePeriod generator_impulse = 1000000"
  "gv_lastProcessTime generator_impulse = 0" "fn_type (gv_function generator_impulse) = Dt_double"
  by (simp_all add: generator_impulse_def GeneratedSynchronousSignal_init_def generator_value_def describe_generated_def
      example_parameters_def Function_init_def case_prod_beta)


lemma example_generator_fields:
  "sg_signals example_generator = [(''A_sig_time'', Generated_time generator_time), (''sig'', Generated_synchronous generator_impulse)]"
  "sg_stream example_generator = []" "sg_time example_generator = 0" "sg_processPeriod example_generator = 1000000"
  "sg_executionTime example_generator = 3000000"
proof -
  have "(''A_sig_time'' :: string) \<le> ''sig''" by code_simp
  moreover have "snd (nextSignalNumber 0) = 1" by (simp add: nextSignalNumber_def SIGNAL_NUMBER_MASK_def Let_def)
  ultimately show
    "sg_signals example_generator = [(''A_sig_time'', Generated_time generator_time), (''sig'', Generated_synchronous generator_impulse)]"
    "sg_stream example_generator = []" "sg_time example_generator = 0" "sg_processPeriod example_generator = 1000000"
    "sg_executionTime example_generator = 3000000"
    by (simp_all add: example_generator_def addSynchronousSignal_def addLinearTimeSignal_def GeneratedTimeSignal_linear_def
        insert_generated_def configureTimes_def
        SignalGenerator_init_def generator_time_def generator_impulse_def LinearTimeSignal_init_def BaseDomainSignal_init_def
        case_prod_beta)
qed

abbreviation example_generated :: "(string \<times> (jtree, real, real) generated_signal) list" where
  "example_generated \<equiv> [(''A_sig_time'', Generated_time generator_time), (''sig'', Generated_synchronous generator_impulse)]"

lemma example_generator_fits:
  "\<forall>m \<in> set (opening_messages tree_lib ''memory'' example_generated @
        concat (map (subscribe_messages tree_lib) [Domain generator_time, Value generator_value]) @
        closing_messages tree_lib example_generated). sendable tree_lib m"
proof -
  have "length (enc (apiVersion_doc tree_lib)) < 2000" "length (enc (init_doc tree_lib ''memory'' (j_null tree_lib))) < 2000"
    "length (enc (signalIds_doc tree_lib META_METHOD_AVAILABLE [bs_id generator_value])) < 2000"
    "length (enc (signalIds_doc tree_lib META_METHOD_UNAVAILABLE [bs_id generator_value])) < 2000"
    "length (enc (subscribe_doc tree_lib (bs_id generator_time))) < 2000"
    "length (enc (signal_meta tree_lib (Domain generator_time))) < 2000"
    "length (enc (subscribe_doc tree_lib (bs_id generator_value))) < 2000"
    "length (enc (signal_meta tree_lib (Value generator_value))) < 2000"
    "length (enc (unsubscribe_doc tree_lib)) < 2000"
    by code_simp+
  moreover have "valid_number 0" "valid_number 1" "valid_number 2" by (simp_all add: valid_number_def SIGNAL_NUMBER_MASK_def)
  ultimately show ?thesis
    by (simp add: opening_messages_def initial_messages_def subscribe_messages_def unsubscribe_messages_def closing_messages_def
        announcement_def data_ids_def sendable_tree generator_signal_fields generator_impulse_fields)
qed

theorem generator_end_to_end_witness:
  "\<exists>sg' s' h' ds. generator_start tree_lib memory_stream real_arith True None example_generator = Some (Next, sg', s') \<and>
    runs tree_lib buffer_stream (sg_stream sg') example_session h' \<and>
    concat ds = concat (map (\<lambda>k. v_bytes real_arith Dt_double (sample real_arith generator_impulse k)) [0..<3]) \<and>
    filter (\<lambda>e. fst e = 2) (value_data (c_calls (h_container h'))) = map (\<lambda>(ts, d, m). (2, ts, d, m))
      (timed 8 1000000 (timeTicksFromTime real_arith 0 (getTimeTicksPerSecond generator_time)) 0 ds)"
proof -
  have h: "at_header buffer_stream [] example_session" "h_container example_session = SignalContainer_init"
    "sm_httpControlPort (h_streamMeta example_session) = []"
    by (simp_all add: example_session_def at_header_def buffer_stream_def ProtocolHandler_init_def StreamMeta_init_def)
  have c: "c_signals (SignalContainer_init :: jtree container) n = None" "c_tables (SignalContainer_init :: jtree container) t = None"
    "value_data (c_calls (SignalContainer_init :: jtree container)) = []" for n t
    by (simp_all add: SignalContainer_init_def data_simps)
  have due: "due generator_impulse 3000000 = 3" by (simp add: due_def generator_impulse_fields)
  have url: "st_url memory_stream [] = ''memory''" by (simp add: memory_stream_def)
  note f = generator_signal_fields generator_impulse_fields example_generator_fields
  let ?sgs = "map (getSignal \<circ> snd) (sg_signals example_generator)"
  have sgs: "?sgs = [Domain generator_time, Value generator_value]" by (simp add: f)
  have tabled: "tabled ?sgs (\<lambda>_. 0)" unfolding sgs by (auto simp: tabled_def one_time_def streamable_def f)
  have ready: "\<forall>s \<in> set ?sgs. signal_ready tree_lib s" unfolding sgs by (simp add: f start_ok_def)
  have step: "time_step True n = n" for n by (simp add: time_step_def)
  have paced: "\<forall>(i, g) \<in> set (sg_signals example_generator).
      paced real_arith (sg_time example_generator) (time_step True (sg_processPeriod example_generator)) (\<lambda>_. 0) g"
    by (simp add: f step generates_def real_arith_sized)
  have T: "time_signal ?sgs generator_value = generator_time" "getTimeDelta generator_time = 1000000"
    unfolding sgs by (simp_all add: f getTimeDelta_def)
  from generator_end_to_end [OF tree_json_laws memory_stream_delivers memory_stream_counts buffer_stream_reads _ _ tabled ready paced,
      where h = example_session]
  show ?thesis
    using example_generator_fits h(1,3) unfolding sgs f step h(2) c url
    by (simp add: f due Let_def T [unfolded sgs]) blast
qed

end
