(* ===== verification/Rule_Connection.thy ===== *)
theory Rule_Connection
  imports Connection
begin

text \<open>
  The other two kinds of value signals from the producer to the consumer: asynchronous signals
  with an explicit time signal, and constant signals with a linear one. Shown: what the
  callbacks of the consumer get for each value, and with which time stamp.
\<close>

section \<open>The consumer's side\<close>

text \<open>
  A data signal \<open>n\<close> with the rule \<open>rd\<close> and values of \<open>sz\<close> bytes, and the time signal \<open>tn\<close> of its
  table with the rule \<open>rt\<close> and the time \<open>t\<close>.
\<close>

definition paired :: "rule_type \<Rightarrow> rule_type \<Rightarrow> u32 \<Rightarrow> u32 \<Rightarrow> u64 \<Rightarrow> u64 \<Rightarrow> 'j container \<Rightarrow> bool" where
  "paired rd rt n tn sz t c \<longleftrightarrow>
     (\<exists>r q tab. c_signals c n = Some (Some r) \<and> c_signals c tn = Some (Some q) \<and>
        r \<noteq> q \<and> r < length (c_heap c) \<and> q < length (c_heap c) \<and>
        s_number (c_heap c ! r) = n \<and> \<not> s_isTime (c_heap c ! r) \<and> s_rule (c_heap c ! r) = rd \<and>
        s_valueSize (c_heap c ! r) = sz \<and> s_rule (c_heap c ! q) = rt \<and> s_time (c_heap c ! q) = t \<and>
        c_tables c (s_tableId (c_heap c ! r)) = Some tab \<and> timeSignalNumber tab = tn \<and> tn \<noteq> 0)"

lemma explicit_packet:
  assumes "paired rd RULETYPE_EXPLICIT n tn sz t c" and "sz \<noteq> 0" and "size_of d mod sz = 0"
  shows "\<exists>c'. container_processMeasuredData n d c = (Inr (ssize_of d), c') \<and>
    paired rd RULETYPE_EXPLICIT n tn sz t c' \<and> c_signals c' = c_signals c \<and>
    raw_data (c_calls c') = raw_data (c_calls c) @ [(n, t, d)] \<and>
    value_data (c_calls c') = value_data (c_calls c) @ [(n, t, d, size_of d div sz)]"
proof -
  from assms(1) obtain r q tab where h: "c_signals c n = Some (Some r)" "c_signals c tn = Some (Some q)"
    "r \<noteq> q" "r < length (c_heap c)" "q < length (c_heap c)"
    "s_number (c_heap c ! r) = n" "\<not> s_isTime (c_heap c ! r)" "s_rule (c_heap c ! r) = rd"
    "s_valueSize (c_heap c ! r) = sz" "s_rule (c_heap c ! q) = RULETYPE_EXPLICIT" "s_time (c_heap c ! q) = t"
    "c_tables c (s_tableId (c_heap c ! r)) = Some tab" "timeSignalNumber tab = tn" "tn \<noteq> 0"
    by (auto simp: paired_def)
  define s1 where "s1 = (c_heap c ! r)\<lparr>s_timeSignal := Some q\<rparr>"
  define c' where "c' = (set_object r s1 c)\<lparr>c_calls := c_calls c @
    [(c_dataAsRawCb c, RawData s1 t d), (c_dataAsValueCb c, ValueData s1 t d (size_of d div sz))]\<rparr>"
  have "container_processMeasuredData n d c = (Inr (ssize_of d), c')"
    using h assms(2,3)
    by (simp add: container_processMeasuredData_def container_valueData_def object_processMeasuredData_def
        signal_processMeasuredData_def deliver_def call_of_def set_object_def Let_def c'_def s1_def)
  moreover have "paired rd RULETYPE_EXPLICIT n tn sz t c'"
    unfolding paired_def
    by (rule exI [of _ r], rule exI [of _ q], rule exI [of _ tab]) (use h in \<open>simp add: c'_def s1_def set_object_def\<close>)
  ultimately show ?thesis using h(6) by (simp add: c'_def s1_def set_object_def data_simps)
qed

lemma constant_packet:
  assumes "paired RULETYPE_CONSTANT RULETYPE_LINEAR n tn sz t c" and "8 + sz \<noteq> 0"
  shows "\<exists>c'. container_processMeasuredData n d c = (Inr (ssize_of d), c') \<and>
    paired RULETYPE_CONSTANT RULETYPE_LINEAR n tn sz t c' \<and> c_signals c' = c_signals c \<and>
    raw_data (c_calls c') = raw_data (c_calls c) @ [(n, t, d)] \<and>
    value_data (c_calls c') = value_data (c_calls c) @ [(n, t, d, size_of d div (8 + sz))]"
proof -
  from assms(1) obtain r q tab where h: "c_signals c n = Some (Some r)" "c_signals c tn = Some (Some q)"
    "r \<noteq> q" "r < length (c_heap c)" "q < length (c_heap c)"
    "s_number (c_heap c ! r) = n" "\<not> s_isTime (c_heap c ! r)" "s_rule (c_heap c ! r) = RULETYPE_CONSTANT"
    "s_valueSize (c_heap c ! r) = sz" "s_rule (c_heap c ! q) = RULETYPE_LINEAR" "s_time (c_heap c ! q) = t"
    "c_tables c (s_tableId (c_heap c ! r)) = Some tab" "timeSignalNumber tab = tn" "tn \<noteq> 0"
    by (auto simp: paired_def)
  define s1 where "s1 = (c_heap c ! r)\<lparr>s_timeSignal := Some q, s_linearDelta := s_linearDelta (c_heap c ! q)\<rparr>"
  define c' where "c' = (set_object r s1 c)\<lparr>c_calls := c_calls c @
    [(c_dataAsRawCb c, RawData s1 t d), (c_dataAsValueCb c, ValueData s1 t d (size_of d div (8 + sz)))]\<rparr>"
  have "container_processMeasuredData n d c = (Inr (ssize_of d), c')"
    using h assms(2)
    by (simp add: container_processMeasuredData_def container_valueData_def object_processMeasuredData_def
        signal_processMeasuredData_def deliver_def call_of_def set_object_def Let_def c'_def s1_def)
  moreover have "paired RULETYPE_CONSTANT RULETYPE_LINEAR n tn sz t c'"
    unfolding paired_def
    by (rule exI [of _ r], rule exI [of _ q], rule exI [of _ tab]) (use h in \<open>simp add: c'_def s1_def set_object_def\<close>)
  ultimately show ?thesis using h(6) by (simp add: c'_def s1_def set_object_def data_simps)
qed

text \<open>Neither kind has a state that advances: the time of all packets is that of the time signal.\<close>

interpretation explicit_path: data_path n "\<lambda>(_ :: unit) c. paired rd RULETYPE_EXPLICIT n tn sz t c \<and> sz \<noteq> 0"
  "\<lambda>d. size_of d mod sz = 0" "\<lambda>_. t" "\<lambda>d s. s" "\<lambda>d. size_of d div sz" for n rd tn sz t
  by (unfold_locales, elim conjE, frule (2) explicit_packet) blast

interpretation constant_path: data_path n "\<lambda>(_ :: unit) c. paired RULETYPE_CONSTANT RULETYPE_LINEAR n tn sz t c \<and> 8 + sz \<noteq> 0"
  "\<lambda>d. True" "\<lambda>_. t" "\<lambda>d s. s" "\<lambda>d. size_of d div (8 + sz)" for n tn sz t
  by (unfold_locales, elim conjE, frule (1) constant_packet) blast

lemma seen_constant: "seen_packets (\<lambda>_. t) (\<lambda>d s. s) count s ds = map (\<lambda>d. (t, d, count d)) ds"
  by (induction ds) simp_all

text \<open>The packet with the start time, for a linear and for an explicit time signal.\<close>

lemma start_packet:
  "length (indexed_bytes 0 (le_bytes 8 (t0 :: u64))) = 16" "indexed_index (indexed_bytes 0 (le_bytes 8 t0)) = 0"
  "indexed_value (indexed_bytes 0 (le_bytes 8 t0)) = t0" "of_le (take 8 (indexed_bytes 0 (le_bytes 8 t0))) = (0 :: u64)"
  "ssize_of (indexed_bytes 0 (le_bytes 8 t0)) = 16" "size_of (indexed_bytes 0 (le_bytes 8 t0)) = 16"
  by (simp_all add: indexed_bytes_def indexed_index_def indexed_value_def ssize_of_def size_of_def)

lemma pair_starts:
  fixes J :: "'j json_lib" and T :: "'j domain_signal" and V :: "'j value_signal" and t0 :: u64
  assumes "c_tables c (bs_tableId V) = None" and "bs_tableId T = bs_tableId V" and "quantity (vs_unit V) \<noteq> META_TIME"
    and "bs_number V \<noteq> bs_number T" and "bs_number T \<noteq> 0"
  defines "c2 \<equiv> subscribed_to J (Value V) (subscribed_to J (Domain T) c)" and "d \<equiv> indexed_bytes 0 (le_bytes 8 t0)"
    and "rd \<equiv> (case vs_rule V of Constant_rule v \<Rightarrow> RULETYPE_CONSTANT | _ \<Rightarrow> RULETYPE_EXPLICIT)"
    and "explicit \<equiv> ds_rule T = Explicit_time"
  shows "\<exists>c3. container_processMeasuredData (bs_number T) d c2 = (Inr 16, c3) \<and>
    paired rd (getRuleType T) (bs_number V) (bs_number T) (word_of_nat (dataType_size (vs_dataType V)))
      (if explicit then 0 else t0) c3 \<and>
    raw_data (c_calls c3) = raw_data (c_calls c) @ (if explicit then [(bs_number T, 0, d)] else []) \<and>
    value_data (c_calls c3) = value_data (c_calls c) @ (if explicit then [(bs_number T, 0, d, 2)] else [])"
proof -
  let ?n = "bs_number V" and ?tn = "bs_number T" and ?q = "length (c_heap c)"
  let ?t = "\<lparr>timeSignalNumber = ?tn, dataSignalNumbers = [?n]\<rparr>"
  define dT where "dT = described J (Domain T)"
  define dV where "dV = described J (Value V)"
  have T: "s_isTime dT" "s_rule dT = getRuleType T" "s_tableId dT = bs_tableId V" "s_valueSize dT = 8" "s_number dT = ?tn"
    using assms(2) by (simp_all add: dT_def described_domain_def SubscribedSignal_init_def)
  have V: "\<not> s_isTime dV" "s_rule dV = rd" "s_tableId dV = bs_tableId V" "s_number dV = ?n"
    "s_valueSize dV = word_of_nat (dataType_size (vs_dataType V))"
    using assms(3) by (simp_all add: dV_def rd_def described_value_def SubscribedSignal_init_def)
  note c2 = pair_subscribed [OF assms(1-3), where J = J, folded c2_def dT_def dV_def]
  note d = start_packet [of t0, folded d_def]
  have q: "c_heap c2 ! ?q = dT" "c_heap c2 ! Suc ?q = dV" "c_signals c2 ?tn = Some (Some ?q)"
    "c_signals c2 ?n = Some (Some (Suc ?q))" "c_tables c2 (bs_tableId V) = Some ?t" "length (c_heap c2) = Suc (Suc ?q)"
    using c2 assms(4) by (simp_all add: nth_append)
  define upd :: "'j signal \<Rightarrow> 'j signal" where "upd = (if explicit then explicit_time d else implicit_time d)"
  define c3 where "c3 = (set_object ?q (upd dT) c2)\<lparr>c_calls := c_calls c2 @ (if explicit then
    [(c_dataAsRawCb c2, RawData (upd dT) 0 d), (c_dataAsValueCb c2, ValueData (upd dT) 0 d 2)] else [])\<rparr>"
  have visit: "visit_dataSignal ?q upd ?n c2 = (Next, set_object ?q (upd dT) c2)"
    using q by (simp add: visit_dataSignal_def set_object_def Let_def)
  have rule: "getRuleType T = (if explicit then RULETYPE_EXPLICIT else RULETYPE_LINEAR)"
    by (cases "ds_rule T") (simp_all add: explicit_def getRuleType_def)
  have "container_processMeasuredData ?tn d c2 = (Inr 16, c3)"
    using q T d visit rule
    by (simp add: container_processMeasuredData_def container_timeData_def explicit_time_blocks_def implicit_time_blocks_def
        after_loop_def instead_def object_processMeasuredData_def signal_processMeasuredData_def deliver_def call_of_def
        explicit_time_def set_object_def upd_def c3_def Let_def split: if_splits)
  moreover have "paired rd (getRuleType T) ?n ?tn (word_of_nat (dataType_size (vs_dataType V))) (if explicit then 0 else t0) c3"
    unfolding paired_def
    by (rule exI [of _ "Suc ?q"], rule exI [of _ ?q], rule exI [of _ ?t])
      (use T V q d assms(5) in \<open>simp add: c3_def set_object_def upd_def explicit_time_def implicit_time_def\<close>)
  moreover have "s_number (upd dT) = ?tn" using T(5) by (simp add: upd_def explicit_time_def implicit_time_def)
  ultimately show ?thesis using c2(4,5) by (simp add: c3_def set_object_def data_simps)
qed

section \<open>The producer's side\<close>

lemma asynchronous_addData_sends:
  assumes "counts S" and "\<forall>(ts, v) \<in> set tuples. length v < 2 ^ 31 - 8"
  shows "asynchronous_addData (StreamWriter J S) tuples V w =
    (0, stream_writer.send J S (map (\<lambda>(ts, v). Data (bs_number V) v) tuples) w)"
  using assms(2)
proof (induction tuples arbitrary: w)
  case (Cons e tuples)
  obtain ts v where e: "e = (ts, v)" by fastforce
  have "\<not> fst (iw_data (StreamWriter J S) (bs_number V) v w) < 0"
    using writeSignalData_accepted [OF assms(1), of v J "bs_number V" w] Cons.prems by (simp add: e)
  with Cons show ?case by (simp add: e case_prod_beta)
qed simp

text \<open>Several calls of \<open>ConstantSignal::addData\<close>, and the packet that one call writes.\<close>

fun add_entries :: "('j, 'w) iwriter \<Rightarrow> (u64 \<times> byte list) list list \<Rightarrow> 'j value_signal \<Rightarrow> 'w \<Rightarrow> 'w" where
  "add_entries W [] V w = w"
| "add_entries W (es # ess) V w = add_entries W ess V (snd (constant_addData W es V w))"

definition entry_bytes :: "(u64 \<times> byte list) list \<Rightarrow> byte list" where
  "entry_bytes es = concat (map (\<lambda>(index, val). indexed_bytes index val) es)"

lemma add_entries_sends:
  "add_entries (StreamWriter J S) ess V w = stream_writer.send J S (map (\<lambda>es. Data (bs_number V) (entry_bytes es)) ess) w"
  by (induction ess arbitrary: w) (simp_all add: constant_addData_def entry_bytes_def)

definition entries_fit :: "data_type \<Rightarrow> (u64 \<times> byte list) list \<Rightarrow> bool" where
  "entries_fit t es \<longleftrightarrow> es \<noteq> [] \<and> (\<forall>(index, val) \<in> set es. length val = dataType_size t) \<and>
     length es * (8 + dataType_size t) < 2 ^ 32"

lemma entries_fit_length: "entries_fit t es \<Longrightarrow> length (entry_bytes es) = length es * (8 + dataType_size t)"
proof -
  assume "entries_fit t es"
  then have "\<forall>(index, val) \<in> set es. length val = dataType_size t" by (simp add: entries_fit_def)
  then show ?thesis
    by (induction es) (auto simp: entry_bytes_def indexed_bytes_def)
qed

lemma entries_fit_count:
  assumes "entries_fit t es"
  shows "size_of (entry_bytes es) div (8 + word_of_nat (dataType_size t)) = (word_of_nat (length es) :: u64)"
proof -
  let ?s = "8 + dataType_size t"
  have l: "length es * ?s < 2 ^ 32" "?s < 2 ^ 64" using assms by (auto simp: entries_fit_def) (cases t; simp)
  have "length es \<le> length es * ?s" by simp
  with l(1) have "length es < 2 ^ 32" by linarith
  have s: "(8 + word_of_nat (dataType_size t) :: u64) = word_of_nat ?s" by simp
  from \<open>length es < 2 ^ 32\<close> have "unat (word_of_nat (length es) :: u64) = length es" by (simp add: unat_of_nat)
  moreover have "unat (word_of_nat (length es * ?s) div word_of_nat ?s :: u64) = length es * ?s div ?s"
    using l by (simp add: unat_div unat_of_nat del: of_nat_add of_nat_mult)
  ultimately show ?thesis
    unfolding s size_of_def entries_fit_length [OF assms] word_unat_eq_iff by simp
qed

text \<open>What all three kinds have in common: the subscriptions and the start time before the data.\<close>

lemma pair_run:
  fixes J :: "'j json_lib" and T :: "'j domain_signal" and V :: "'j value_signal" and t0 :: u64 and h :: "('j, 'u) handler"
  assumes J: "json_laws J" and I: "reads I" and ready: "signal_ready J (Domain T)" "signal_ready J (Value V)"
    and numbers: "bs_number T \<noteq> 0" "bs_number V \<noteq> 0" "bs_number V \<noteq> bs_number T"
    and table: "bs_tableId T = bs_tableId V" "quantity (vs_unit V) \<noteq> META_TIME"
    and fits: "\<forall>m \<in> set (subscribe_messages J (Domain T) @ subscribe_messages J (Value V)). sendable J m"
    and ds: "\<forall>d \<in> set ds. d \<noteq> [] \<and> length d < 2 ^ 32"
    and h: "at_header I [] h" "c_signals (h_container h) (bs_number T) = None"
      "c_signals (h_container h) (bs_number V) = None" "c_tables (h_container h) (bs_tableId V) = None"
    and data: "\<And>c3. container_processMeasuredData (bs_number T) (indexed_bytes 0 (le_bytes 8 t0))
        (subscribed_to J (Value V) (subscribed_to J (Domain T) (h_container h))) = (Inr 16, c3) \<Longrightarrow>
      \<exists>c4. deliver_all J (map (Data (bs_number V)) ds) ((view h)\<lparr>k_container := c3\<rparr>) = Some ((view h)\<lparr>k_container := c4\<rparr>) \<and> P c4"
  defines "bytes \<equiv> concat (map (message_bytes J) (streaming_messages J T V t0 ds))"
  shows "(\<exists>h'. runs J I bytes h h' \<and> (\<nexists>h''. completes J I h' h'')) \<and>
    (\<forall>h'. runs J I bytes h h' \<and> (\<nexists>h''. completes J I h' h'') \<longrightarrow> P (h_container h'))"
proof -
  let ?subs = "subscribe_messages J (Domain T) @ subscribe_messages J (Value V)" and ?start = "indexed_bytes 0 (le_bytes 8 t0)"
  let ?c2 = "subscribed_to J (Value V) (subscribed_to J (Domain T) (h_container h))"
  have k: "k_container (view h) = h_container h" by (simp add: view_def)
  have subs: "deliver_all J ?subs (view h) = Some ((view h)\<lparr>k_container := ?c2\<rparr>)"
    using pair_delivered [OF J ready numbers, of "view h"] h(2,3) by (simp add: k)
  obtain c3 where c3: "container_processMeasuredData (bs_number T) ?start ?c2 = (Inr 16, c3)"
    using pair_starts [OF h(4) table numbers(3,1), where J = J and ?t0.0 = t0] by blast
  then have start: "deliver_all J [Data (bs_number T) ?start] ((view h)\<lparr>k_container := ?c2\<rparr>) = Some ((view h)\<lparr>k_container := c3\<rparr>)"
    by (simp add: deliver_data_def)
  obtain c4 where c4: "deliver_all J (map (Data (bs_number V)) ds) ((view h)\<lparr>k_container := c3\<rparr>) = Some ((view h)\<lparr>k_container := c4\<rparr>)" "P c4"
    using data [OF c3] by blast
  from container_run [OF J I streaming_sendable [OF fits ds] h(1) streaming_steps [OF subs start c4(1)]] c4(2)
  show ?thesis unfolding bytes_def by auto
qed

section \<open>Properties\<close>

text \<open>
  C6: asynchronous data from end to end. A producer subscribes an explicit time signal and an
  asynchronous signal of one table, tells the start time and adds values with time stamps. All
  of it is written, and a consumer that reads it, in pieces of any size, has its callbacks
  called once for each value, in order. But no time stamp arrives: the values come with the time
  0, the index that \<open>setTimeStart\<close> puts before the start time, and the packet with the start
  time is reported as two values of the time signal.
\<close>

theorem asynchronous_data_end_to_end:
  fixes T :: "'j domain_signal" and V :: "'j value_signal" and w :: 'w and J :: "'j json_lib" and t0 :: u64
  assumes J: "json_laws J" and S: "delivers S wire" "counts S" and I: "reads I" and "wire w = []"
    and T: "domain_ok T" "ds_rule T = Explicit_time" "bs_number T \<noteq> 0"
    and V: "describable V" "vs_rule V = Asynchronous" "quantity (vs_unit V) \<noteq> META_TIME" "bs_number V \<noteq> 0"
    and table: "bs_tableId T = bs_tableId V" "bs_number V \<noteq> bs_number T"
    and fits: "\<forall>m \<in> set (subscribe_messages J (Domain T) @ subscribe_messages J (Value V)). sendable J m"
    and tuples: "\<forall>(ts, v) \<in> set tuples. length v = dataType_size (vs_dataType V)"
    and h: "at_header I [] h" "c_signals (h_container h) (bs_number T) = None"
      "c_signals (h_container h) (bs_number V) = None" "c_tables (h_container h) (bs_tableId V) = None"
  defines "W \<equiv> StreamWriter J S"
  defines "w2 \<equiv> signal_subscribe J W (Value V) (signal_subscribe J W (Domain T) w)"
  defines "added \<equiv> asynchronous_addData W tuples V (snd (setTimeStart W t0 T w2))"
    and "first \<equiv> indexed_bytes 0 (le_bytes 8 t0)"
  shows "fst added = 0 \<and> (\<exists>h'. runs J I (wire (snd added)) h h' \<and> (\<nexists>h''. completes J I h' h'')) \<and>
    (\<forall>h'. runs J I (wire (snd added)) h h' \<and> (\<nexists>h''. completes J I h' h'') \<longrightarrow>
       raw_data (c_calls (h_container h')) = raw_data (c_calls (h_container h)) @
         (bs_number T, 0, first) # map (\<lambda>(ts, v). (bs_number V, 0, v)) tuples \<and>
       value_data (c_calls (h_container h')) = value_data (c_calls (h_container h)) @
         (bs_number T, 0, first, 2) # map (\<lambda>(ts, v). (bs_number V, 0, v, 1)) tuples)"
proof -
  let ?sz = "word_of_nat (dataType_size (vs_dataType V)) :: u64" and ?ds = "map snd tuples"
  have small: "0 < dataType_size (vs_dataType V)" "dataType_size (vs_dataType V) \<le> 16" by (cases "vs_dataType V"; simp)+
  have lengths: "\<forall>d \<in> set ?ds. length d = dataType_size (vs_dataType V)" using tuples by auto
  have sz: "\<forall>d \<in> set ?ds. size_of d = ?sz" using lengths by (simp add: size_of_def)
  have one: "?sz div ?sz = 1" by (cases "vs_dataType V") simp_all
  have short: "\<forall>(ts, v) \<in> set tuples. length v < 2 ^ 31 - 8" using tuples small by fastforce
  have sent: "added = (0, stream_writer.send J S (streaming_messages J T V t0 ?ds) w)"
    using asynchronous_addData_sends [OF S(2) short]
    by (simp add: added_def w2_def W_def streaming_messages_def signal_subscribe_sends setTimeStart_sends
        stream_writer.send_append comp_def case_prod_unfold)
  have bytes: "wire (snd added) = concat (map (message_bytes J) (streaming_messages J T V t0 ?ds))"
    using stream_writer.send_wire [OF S(1), of J _ w] assms(5) by (simp add: sent)
  have ready: "signal_ready J (Domain T)" "signal_ready J (Value V)" using T(1) V(1,2) by (simp_all add: start_ok_def)
  have ds: "\<forall>d \<in> set ?ds. d \<noteq> [] \<and> length d < 2 ^ 32"
  proof
    fix d assume "d \<in> set ?ds"
    with lengths have "length d = dataType_size (vs_dataType V)" by blast
    with small show "d \<noteq> [] \<and> length d < 2 ^ 32" by auto
  qed
  have whole: "\<forall>d \<in> set ?ds. size_of d mod ?sz = 0" using sz by simp
  have seen: "map (\<lambda>(ts, d, m). (bs_number V, ts, d)) (map (\<lambda>d. (0, d, size_of d div ?sz)) ?ds) = map (\<lambda>(ts, v). (bs_number V, 0, v)) tuples"
    "map (\<lambda>(ts, d, m). (bs_number V, ts, d, m)) (map (\<lambda>d. (0, d, size_of d div ?sz)) ?ds) = map (\<lambda>(ts, v). (bs_number V, 0, v, 1)) tuples"
    using sz one by (auto simp: case_prod_unfold)
  have "\<exists>c4. deliver_all J (map (Data (bs_number V)) ?ds) ((view h)\<lparr>k_container := c3\<rparr>) = Some ((view h)\<lparr>k_container := c4\<rparr>) \<and>
      raw_data (c_calls c4) = raw_data (c_calls (h_container h)) @ (bs_number T, 0, first) # map (\<lambda>(ts, v). (bs_number V, 0, v)) tuples \<and>
      value_data (c_calls c4) = value_data (c_calls (h_container h)) @ (bs_number T, 0, first, 2) # map (\<lambda>(ts, v). (bs_number V, 0, v, 1)) tuples"
    if "container_processMeasuredData (bs_number T) (indexed_bytes 0 (le_bytes 8 t0))
        (subscribed_to J (Value V) (subscribed_to J (Domain T) (h_container h))) = (Inr 16, c3)" for c3
  proof -
    have c3: "paired RULETYPE_EXPLICIT RULETYPE_EXPLICIT (bs_number V) (bs_number T) ?sz 0 c3"
      "raw_data (c_calls c3) = raw_data (c_calls (h_container h)) @ [(bs_number T, 0, first)]"
      "value_data (c_calls c3) = value_data (c_calls (h_container h)) @ [(bs_number T, 0, first, 2)]"
      using pair_starts [OF h(4) table(1) V(3) table(2) T(3), where J = J and ?t0.0 = t0] that V(2) T(2)
      by (auto simp: getRuleType_def first_def)
    from explicit_path.packets [where rd = RULETYPE_EXPLICIT and n = "bs_number V" and tn = "bs_number T" and sz = ?sz and t = 0 and
        k = "(view h)\<lparr>k_container := c3\<rparr>" and ds = ?ds and J = J, unfolded seen_constant seen] c3 whole dataType_size_word [of "vs_dataType V"]
    show ?thesis by auto
  qed
  from pair_run [OF J I ready T(3) V(4) table(2,1) V(3) fits ds h, where ?t0.0 = t0, OF this]
  show ?thesis unfolding bytes by (simp add: sent)
qed

definition example_explicit_time :: "jtree domain_signal" where
  "example_explicit_time = fst (ExplicitTimeSignal_init tree_lib ''time'' ''tab'' 1000000 0 3)"

definition example_asynchronous :: "jtree value_signal" where
  "example_asynchronous = fst (AsynchronousSignal_init tree_lib ''value'' ''tab'' Dt_int16 6)"

definition example_constant :: "jtree value_signal" where
  "example_constant = fst (ConstantSignal_init tree_lib ''value'' ''tab'' Dt_int16 TNull 6)"

lemma example_rule_signals:
  "domain_ok example_explicit_time" "ds_rule example_explicit_time = Explicit_time" "bs_number example_explicit_time = 4"
  "bs_tableId example_explicit_time = ''tab''"
  "describable example_asynchronous" "vs_rule example_asynchronous = Asynchronous" "bs_number example_asynchronous = 7"
  "quantity (vs_unit example_asynchronous) \<noteq> META_TIME" "bs_tableId example_asynchronous = ''tab''"
  "vs_dataType example_asynchronous = Dt_int16"
  "describable example_constant" "vs_rule example_constant = Constant_rule TNull" "bs_number example_constant = 7"
  "quantity (vs_unit example_constant) \<noteq> META_TIME" "bs_tableId example_constant = ''tab''"
  "vs_dataType example_constant = Dt_int16" "start_ok tree_lib example_constant"
  by (simp_all add: example_explicit_time_def example_asynchronous_def example_constant_def ExplicitTimeSignal_init_def
      BaseDomainSignal_init_def domain_ok_def nextSignalNumber_def SIGNAL_NUMBER_MASK_def Let_def Resolution_valid_def Resolution_init_def
      AsynchronousSignal_init_def ConstantSignal_init_def BaseValueSignal_init_def describable_def Unit_representable_def Unit_clear_def
      start_ok_def tree_lib_def)

lemma example_rule_fits:
  "\<forall>m \<in> set (subscribe_messages tree_lib (Domain example_explicit_time) @
      subscribe_messages tree_lib (Value example_asynchronous)). sendable tree_lib m"
  "\<forall>m \<in> set (subscribe_messages tree_lib (Domain example_time_signal) @
      subscribe_messages tree_lib (Value example_constant)). sendable tree_lib m"
proof -
  have "length (enc (subscribe_doc tree_lib (bs_id example_explicit_time))) < 2000"
    "length (enc (signal_meta tree_lib (Domain example_explicit_time))) < 2000"
    "length (enc (subscribe_doc tree_lib (bs_id example_asynchronous))) < 2000"
    "length (enc (signal_meta tree_lib (Value example_asynchronous))) < 2000"
    "length (enc (subscribe_doc tree_lib (bs_id example_constant))) < 2000"
    "length (enc (signal_meta tree_lib (Value example_constant))) < 2000"
    by code_simp+
  moreover have "valid_number 4" "valid_number 7" by (simp_all add: valid_number_def SIGNAL_NUMBER_MASK_def)
  ultimately show "\<forall>m \<in> set (subscribe_messages tree_lib (Domain example_explicit_time) @
      subscribe_messages tree_lib (Value example_asynchronous)). sendable tree_lib m"
    "\<forall>m \<in> set (subscribe_messages tree_lib (Domain example_time_signal) @
      subscribe_messages tree_lib (Value example_constant)). sendable tree_lib m"
    using example_fits by (simp_all add: subscribe_messages_def sendable_tree example_rule_signals)
qed

lemma example_session_new:
  "at_header buffer_stream [] example_session" "c_signals (h_container example_session) = Map.empty"
  "c_tables (h_container example_session) = Map.empty" "raw_data (c_calls (h_container example_session)) = []"
  "value_data (c_calls (h_container example_session)) = []"
  by (simp_all add: example_session_def at_header_def buffer_stream_def ProtocolHandler_init_def SignalContainer_init_def data_simps)

theorem asynchronous_data_end_to_end_witness:
  "\<exists>h'. runs tree_lib buffer_stream
      (let W = StreamWriter tree_lib memory_stream;
           w2 = signal_subscribe tree_lib W (Value example_asynchronous) (signal_subscribe tree_lib W (Domain example_explicit_time) [])
       in snd (asynchronous_addData W [(500, [1, 0]), (700, [2, 0])] example_asynchronous
            (snd (setTimeStart W 100 example_explicit_time w2))))
      example_session h' \<and>
    value_data (c_calls (h_container h')) = [(4, 0, indexed_bytes 0 (le_bytes 8 (100 :: u64)), 2), (7, 0, [1, 0], 1), (7, 0, [2, 0], 1)]"
  using asynchronous_data_end_to_end [OF tree_json_laws memory_stream_delivers memory_stream_counts buffer_stream_reads refl
      example_rule_signals(1,2) _ example_rule_signals(5,6,8) _ _ _ example_rule_fits(1) _ example_session_new(1),
      where tuples = "[(500, [1, 0]), (700, [2, 0])]" and ?t0.0 = 100]
  by (auto simp: Let_def example_rule_signals example_session_new)

text \<open>
  C5: constant signals from end to end. A producer subscribes a linear time signal and a signal
  with constant rule of one table, tells the start time and adds values with their indices, some
  at a time. A consumer that reads it, in pieces of any size, has its callbacks called once for
  each call of \<open>addData\<close>, in order, with all indices and values of that call as they were, with
  the number of values, and with the start time as time stamp, whatever the indices are.
\<close>

theorem constant_data_end_to_end:
  fixes T :: "'j domain_signal" and V :: "'j value_signal" and w :: 'w and J :: "'j json_lib" and t0 :: u64
  assumes J: "json_laws J" and S: "delivers S wire" and I: "reads I" and "wire w = []"
    and T: "domain_ok T" "ds_rule T = Linear_time delta" "bs_number T \<noteq> 0"
    and V: "describable V" "vs_rule V = Constant_rule v" "start_ok J V" "quantity (vs_unit V) \<noteq> META_TIME" "bs_number V \<noteq> 0"
    and table: "bs_tableId T = bs_tableId V" "bs_number V \<noteq> bs_number T"
    and fits: "\<forall>m \<in> set (subscribe_messages J (Domain T) @ subscribe_messages J (Value V)). sendable J m"
    and ess: "\<forall>es \<in> set ess. entries_fit (vs_dataType V) es"
    and h: "at_header I [] h" "c_signals (h_container h) (bs_number T) = None"
      "c_signals (h_container h) (bs_number V) = None" "c_tables (h_container h) (bs_tableId V) = None"
  defines "W \<equiv> StreamWriter J S"
  defines "w2 \<equiv> signal_subscribe J W (Value V) (signal_subscribe J W (Domain T) w)"
  defines "bytes \<equiv> wire (add_entries W ess V (snd (setTimeStart W t0 T w2)))"
  shows "(\<exists>h'. runs J I bytes h h' \<and> (\<nexists>h''. completes J I h' h'')) \<and>
    (\<forall>h'. runs J I bytes h h' \<and> (\<nexists>h''. completes J I h' h'') \<longrightarrow>
       raw_data (c_calls (h_container h')) = raw_data (c_calls (h_container h)) @
         map (\<lambda>es. (bs_number V, t0, entry_bytes es)) ess \<and>
       value_data (c_calls (h_container h')) = value_data (c_calls (h_container h)) @
         map (\<lambda>es. (bs_number V, t0, entry_bytes es, word_of_nat (length es))) ess)"
proof -
  let ?sz = "word_of_nat (dataType_size (vs_dataType V)) :: u64" and ?ds = "map entry_bytes ess"
  have "add_entries W ess V (snd (setTimeStart W t0 T w2)) = stream_writer.send J S (streaming_messages J T V t0 ?ds) w"
    by (simp add: w2_def W_def streaming_messages_def signal_subscribe_sends setTimeStart_sends add_entries_sends
        stream_writer.send_append comp_def)
  then have bytes: "bytes = concat (map (message_bytes J) (streaming_messages J T V t0 ?ds))"
    using stream_writer.send_wire [OF S, of J _ w] assms(4) by (simp add: bytes_def)
  have ready: "signal_ready J (Domain T)" "signal_ready J (Value V)" using T(1) V(1,3) by simp_all
  have ds: "\<forall>d \<in> set ?ds. d \<noteq> [] \<and> length d < 2 ^ 32"
  proof
    fix d assume "d \<in> set ?ds"
    with ess obtain es where e: "d = entry_bytes es" "entries_fit (vs_dataType V) es" by auto
    from entries_fit_length [OF e(2)] e show "d \<noteq> [] \<and> length d < 2 ^ 32"
      by (auto simp: entries_fit_def)
  qed
  have sz: "8 + ?sz \<noteq> 0" by (cases "vs_dataType V") simp_all
  have seen: "map (\<lambda>(ts, d, m). (bs_number V, ts, d)) (map (\<lambda>d. (t0, d, size_of d div (8 + ?sz))) ?ds) =
      map (\<lambda>es. (bs_number V, t0, entry_bytes es)) ess"
    "map (\<lambda>(ts, d, m). (bs_number V, ts, d, m)) (map (\<lambda>d. (t0, d, size_of d div (8 + ?sz))) ?ds) =
      map (\<lambda>es. (bs_number V, t0, entry_bytes es, word_of_nat (length es))) ess"
    using ess entries_fit_count by auto
  have "\<exists>c4. deliver_all J (map (Data (bs_number V)) ?ds) ((view h)\<lparr>k_container := c3\<rparr>) = Some ((view h)\<lparr>k_container := c4\<rparr>) \<and>
      raw_data (c_calls c4) = raw_data (c_calls (h_container h)) @ map (\<lambda>es. (bs_number V, t0, entry_bytes es)) ess \<and>
      value_data (c_calls c4) = value_data (c_calls (h_container h)) @
        map (\<lambda>es. (bs_number V, t0, entry_bytes es, word_of_nat (length es))) ess"
    if "container_processMeasuredData (bs_number T) (indexed_bytes 0 (le_bytes 8 t0))
        (subscribed_to J (Value V) (subscribed_to J (Domain T) (h_container h))) = (Inr 16, c3)" for c3
  proof -
    have c3: "paired RULETYPE_CONSTANT RULETYPE_LINEAR (bs_number V) (bs_number T) ?sz t0 c3"
      "raw_data (c_calls c3) = raw_data (c_calls (h_container h))" "value_data (c_calls c3) = value_data (c_calls (h_container h))"
      using pair_starts [OF h(4) table(1) V(4) table(2) T(3), where J = J and ?t0.0 = t0] that V(2) T(2)
      by (auto simp: getRuleType_def)
    from constant_path.packets [where n = "bs_number V" and tn = "bs_number T" and sz = ?sz and t = t0 and
        k = "(view h)\<lparr>k_container := c3\<rparr>" and ds = ?ds and J = J, unfolded seen_constant seen] c3 sz
    show ?thesis by auto
  qed
  from pair_run [OF J I ready T(3) V(5) table(2,1) V(4) fits ds h, where ?t0.0 = t0, OF this]
  show ?thesis unfolding bytes by simp
qed

theorem constant_data_end_to_end_witness:
  "\<exists>h'. runs tree_lib buffer_stream
      (let W = StreamWriter tree_lib memory_stream;
           w2 = signal_subscribe tree_lib W (Value example_constant) (signal_subscribe tree_lib W (Domain example_time_signal) [])
       in add_entries W [[(0, [1, 0]), (9, [2, 0])]] example_constant (snd (setTimeStart W 100 example_time_signal w2)))
      example_session h' \<and>
    value_data (c_calls (h_container h')) = [(7, 100, entry_bytes [(0, [1, 0]), (9, [2, 0])], 2)]"
  using constant_data_end_to_end [OF tree_json_laws memory_stream_delivers buffer_stream_reads refl
      example_signals(1,2) _ example_rule_signals(11,12,17,14) _ _ _ example_rule_fits(2) _ example_session_new(1),
      where ess = "[[(0, [1, 0]), (9, [2, 0])]]" and ?t0.0 = 100]
  by (auto simp: Let_def example_rule_signals example_signals example_session_new entries_fit_def)

end
