(* ===== verification/Signal_Types.thy ===== *)
theory Signal_Types
  imports Producer_Signals
begin

text \<open>
  The types of values: \<open>getMemberInformation\<close> and \<open>getSampleType\<close> of the templates
  \<open>SynchronousSignal\<close> and \<open>ConstantSignal\<close> for each type they are instantiated with (those of
  \<open>AsynchronousSignal\<close> are \<open>dataType_name\<close> and \<open>getSampleType\<close>), and \<open>createTuples\<close>. Shown: the
  type a signal describes is the type it has, and the consumer takes it for that type and for
  values of that size.
\<close>

section \<open>Tables of types\<close>

fun synchronous_memberType :: "data_type \<Rightarrow> string" where
  "synchronous_memberType Dt_int8 = DATA_TYPE_INT8"
| "synchronous_memberType Dt_uint8 = DATA_TYPE_UINT8"
| "synchronous_memberType Dt_int16 = DATA_TYPE_INT16"
| "synchronous_memberType Dt_uint16 = DATA_TYPE_UINT16"
| "synchronous_memberType Dt_int32 = DATA_TYPE_INT32"
| "synchronous_memberType Dt_uint32 = DATA_TYPE_UINT32"
| "synchronous_memberType Dt_int64 = DATA_TYPE_INT64"
| "synchronous_memberType Dt_uint64 = DATA_TYPE_UINT64"
| "synchronous_memberType Dt_float = DATA_TYPE_REAL32"
| "synchronous_memberType Dt_double = DATA_TYPE_REAL64"
| "synchronous_memberType Dt_complex32 = DATA_TYPE_COMPLEX32"
| "synchronous_memberType Dt_complex64 = DATA_TYPE_COMPLEX64"

fun synchronous_sampleType :: "data_type \<Rightarrow> sample_type" where
  "synchronous_sampleType Dt_int8 = SAMPLETYPE_S8"
| "synchronous_sampleType Dt_int16 = SAMPLETYPE_S16"
| "synchronous_sampleType Dt_int32 = SAMPLETYPE_S32"
| "synchronous_sampleType Dt_int64 = SAMPLETYPE_S64"
| "synchronous_sampleType Dt_uint8 = SAMPLETYPE_U8"
| "synchronous_sampleType Dt_uint16 = SAMPLETYPE_U16"
| "synchronous_sampleType Dt_uint32 = SAMPLETYPE_U32"
| "synchronous_sampleType Dt_uint64 = SAMPLETYPE_U64"
| "synchronous_sampleType Dt_float = SAMPLETYPE_REAL32"
| "synchronous_sampleType Dt_double = SAMPLETYPE_REAL64"
| "synchronous_sampleType Dt_complex32 = SAMPLETYPE_COMPLEX32"
| "synchronous_sampleType Dt_complex64 = SAMPLETYPE_COMPLEX64"

text \<open>There are no specialisations of \<open>ConstantSignal\<close> for complex values.\<close>

fun constant_memberType :: "data_type \<Rightarrow> string option" where
  "constant_memberType Dt_int8 = Some DATA_TYPE_INT8"
| "constant_memberType Dt_uint8 = Some DATA_TYPE_UINT8"
| "constant_memberType Dt_int16 = Some DATA_TYPE_INT16"
| "constant_memberType Dt_uint16 = Some DATA_TYPE_UINT16"
| "constant_memberType Dt_int32 = Some DATA_TYPE_INT32"
| "constant_memberType Dt_uint32 = Some DATA_TYPE_UINT32"
| "constant_memberType Dt_int64 = Some DATA_TYPE_INT64"
| "constant_memberType Dt_uint64 = Some DATA_TYPE_UINT64"
| "constant_memberType Dt_float = Some DATA_TYPE_REAL32"
| "constant_memberType Dt_double = Some DATA_TYPE_REAL64"
| "constant_memberType _ = None"

fun constant_sampleType :: "data_type \<Rightarrow> sample_type option" where
  "constant_sampleType Dt_int8 = Some SAMPLETYPE_S8"
| "constant_sampleType Dt_int16 = Some SAMPLETYPE_S16"
| "constant_sampleType Dt_int32 = Some SAMPLETYPE_S32"
| "constant_sampleType Dt_int64 = Some SAMPLETYPE_S64"
| "constant_sampleType Dt_uint8 = Some SAMPLETYPE_U8"
| "constant_sampleType Dt_uint16 = Some SAMPLETYPE_U16"
| "constant_sampleType Dt_uint32 = Some SAMPLETYPE_U32"
| "constant_sampleType Dt_uint64 = Some SAMPLETYPE_U64"
| "constant_sampleType Dt_float = Some SAMPLETYPE_REAL32"
| "constant_sampleType Dt_double = Some SAMPLETYPE_REAL64"
| "constant_sampleType _ = None"

section \<open>Tuples\<close>

text \<open>
  \<open>AsynchronousSignal::createTuples\<close>, with as many time stamps as values. Tuples that are in the
  output already and lie behind the last one stay.
\<close>

definition createTuples :: "byte list list \<Rightarrow> u64 list \<Rightarrow> (u64 \<times> byte list) list \<Rightarrow> (u64 \<times> byte list) list" where
  "createTuples dat timestamps tuplesOut =
     (let tuples = (if length tuplesOut < length dat then tuplesOut @ replicate (length dat - length tuplesOut) (0, []) else tuplesOut)
      in foldl (\<lambda>ts i. ts[i := (timestamps ! i, dat ! i)]) tuples [0..<length dat])"

lemma createTuples_zip:
  assumes "length timestamps = length dat"
  shows "createTuples dat timestamps tuplesOut = zip timestamps dat @ drop (length dat) tuplesOut"
proof -
  have fold: "foldl (\<lambda>ts i. ts[i := (timestamps ! i, dat ! i)]) ts [0..<n] = take n (zip timestamps dat) @ drop n ts"
    if "n \<le> length dat" "n \<le> length ts" for ts n
    using that
  proof (induction n)
    case (Suc n)
    then have "take n (zip timestamps dat) @ drop n ts = take n (zip timestamps dat) @ ts ! n # drop (Suc n) ts"
      by (simp add: Cons_nth_drop_Suc)
    with Suc assms show ?case
      by (simp add: list_update_append take_Suc_conv_app_nth)
  qed simp
  show ?thesis using fold [of "length dat"] assms by (simp add: createTuples_def Let_def)
qed

section \<open>The type of a value signal\<close>

text \<open>What the class of a signal says of its type; \<open>None\<close> if it is not instantiated for it.\<close>

definition class_memberType :: "'j value_signal \<Rightarrow> string option" where
  "class_memberType s = (case vs_rule s of
     Constant_rule v \<Rightarrow> constant_memberType (vs_dataType s)
   | Synchronous i \<Rightarrow> Some (synchronous_memberType (vs_dataType s))
   | Asynchronous \<Rightarrow> Some (dataType_name (vs_dataType s)))"

definition class_sampleType :: "'j value_signal \<Rightarrow> sample_type option" where
  "class_sampleType s = (case vs_rule s of
     Constant_rule v \<Rightarrow> constant_sampleType (vs_dataType s)
   | Synchronous i \<Rightarrow> Some (synchronous_sampleType (vs_dataType s))
   | Asynchronous \<Rightarrow> Some (getSampleType (vs_dataType s)))"

lemma synchronous_types: "synchronous_memberType t = dataType_name t" "synchronous_sampleType t = getSampleType t"
  by (cases t; simp)+

lemma constant_types:
  "constant_sampleType t = Some st \<Longrightarrow> constant_memberType t = Some (dataType_name t) \<and> st = getSampleType t"
  by (cases t) auto

lemma class_types:
  assumes "class_sampleType s = Some st"
  shows "class_memberType s = Some (dataType_name (vs_dataType s))" and "st = getSampleType (vs_dataType s)"
  using assms constant_types
  by (auto simp: class_sampleType_def class_memberType_def synchronous_types split: value_rule.splits)

section \<open>Properties\<close>

text \<open>
  C14: types agree. For every class of value signals and every type it is instantiated for, the
  type name that \<open>getMemberInformation\<close> passes on is in the description that the signal writes;
  a consumer that processes it gives its signal the sample type that \<open>getSampleType\<close> of the
  producer's class returns, and the size that a value of the type has in memory.
\<close>

theorem typed_description:
  assumes "json_laws J" and "describable s" and "start_ok J s" and "class_sampleType s = Some st"
  shows "\<exists>name p d s'. class_memberType s = Some name \<and> j_find J (value_meta J s) PARAMS = Some p \<and>
    j_find J p META_DEFINITION = Some d \<and> j_find J d META_DATATYPE = Some (j_of_string J name) \<and>
    processSignalMetaInformation J META_METHOD_SIGNAL p ((SubscribedSignal_init J n)\<lparr>s_id := i\<rparr>) = (Inr 0, s') \<and>
    s_valueType s' = st \<and> s_valueSize s' = word_of_nat (dataType_size (vs_dataType s))"
proof -
  let ?p = "composeRelatedSignals J s (value_params J s)"
  note t = class_types [OF assms(4)] and f = createMember_finds [OF assms(1)]
  have d: "j_find J ?p META_DEFINITION = Some (value_member J s)"
    using related_finds(1) [OF assms(1), of META_DEFINITION s] value_params_finds(4) [OF assms(1), of s] by simp
  moreover have "j_find J (value_member J s) META_DATATYPE = Some (j_of_string J (dataType_name (vs_dataType s)))"
    using value_member_finds(2) [OF assms(1), of META_DATATYPE s] f by simp
  moreover have "s_valueType (described_value J n s) = st" "s_valueSize (described_value J n s) = word_of_nat (dataType_size (vs_dataType s))"
    using t(2) by (simp_all add: described_value_def)
  ultimately show ?thesis
    using t(1) value_meta_finds(2) [OF assms(1), of s] value_described [OF assms(1-3) refl, where n = n and i = i]
    by (intro exI [of _ "dataType_name (vs_dataType s)"] exI [of _ ?p] exI [of _ "value_member J s"]
        exI [of _ "(described_value J n s)\<lparr>s_id := i\<rparr>"]) simp
qed

theorem typed_description_witness:
  "\<exists>p s'. j_find tree_lib (value_meta tree_lib example_value) PARAMS = Some p \<and>
    processSignalMetaInformation tree_lib META_METHOD_SIGNAL p ((SubscribedSignal_init tree_lib 7)\<lparr>s_id := ''sig''\<rparr>) = (Inr 0, s') \<and>
    s_valueType s' = SAMPLETYPE_REAL64 \<and> s_valueSize s' = 8"
proof -
  have e: "describable example_value" "start_ok tree_lib example_value" "class_sampleType example_value = Some SAMPLETYPE_REAL64"
    "vs_dataType example_value = Dt_double"
    by (simp_all add: example_value_def describable_def start_ok_def class_sampleType_def SynchronousSignal_init_def
        BaseValueSignal_init_def setRange_def setRelatedSignals_def nextSignalNumber_def Let_def Unit_representable_def Unit_clear_def)
  from typed_description [OF tree_json_laws e(1-3), where n = 7 and i = "''sig''"] show ?thesis by (auto simp: e(4))
qed

end
