(* ===== verification/Domain_Epoch.thy ===== *)
theory Domain_Epoch
  imports Producer_Signals
begin

text \<open>
  The conversions of \<open>BaseDomainSignal\<close> between ticks, points in time and the text of an epoch,
  with the C library's \<open>gmtime\<close> and \<open>strftime\<close> for the format they are called with. Shown: the
  date that \<open>gmtime\<close> gives has the right number of days before it, and the epoch of a point in
  time, read again, is that time in seconds.
\<close>

section \<open>The calendar\<close>

text \<open>The proleptic Gregorian calendar repeats after 400 years, which have 146097 days.\<close>

definition leap :: "int \<Rightarrow> bool" where
  "leap y \<longleftrightarrow> y mod 4 = 0 \<and> (y mod 100 \<noteq> 0 \<or> y mod 400 = 0)"

definition days_in_year :: "int \<Rightarrow> nat" where
  "days_in_year y = (if leap y then 366 else 365)"

definition month_lengths :: "int \<Rightarrow> nat list" where
  "month_lengths y = [31, if leap y then 29 else 28, 31, 30, 31, 30, 31, 31, 30, 31, 30, 31]"

function year_of :: "int \<Rightarrow> nat \<Rightarrow> int \<times> nat" where
  "year_of y d = (if d < days_in_year y then (y, d) else year_of (y + 1) (d - days_in_year y))"
  by pat_completeness auto

termination year_of
  by (relation "measure snd") (auto simp: days_in_year_def split: if_splits)

declare year_of.simps [simp del]

fun month_of :: "nat list \<Rightarrow> nat \<Rightarrow> nat \<times> nat" where
  "month_of [] d = (0, d)"
| "month_of (l # ls) d = (if d < l then (0, d) else (case month_of ls (d - l) of (m, d') \<Rightarrow> (Suc m, d')))"

text \<open>\<open>struct tm\<close>, with month and day counted from 1 and the year in full.\<close>

record tm =
  tm_year :: int
  tm_mon :: nat
  tm_mday :: nat
  tm_hour :: nat
  tm_min :: nat
  tm_sec :: nat

definition gmtime :: "int \<Rightarrow> tm" where
  "gmtime seconds =
     (let days = seconds div 86400; rest = nat (seconds mod 86400);
          (y, yday) = year_of 1970 (nat (days mod 146097));
          (m, mday) = month_of (month_lengths y) yday
      in \<lparr>tm_year = y + 400 * (days div 146097), tm_mon = m + 1, tm_mday = mday + 1,
          tm_hour = rest div 3600, tm_min = rest mod 3600 div 60, tm_sec = rest mod 60\<rparr>)"

text \<open>\<open>strftime\<close> with \<open>%FT%TZ\<close>, for years of four digits.\<close>

definition two_digits :: "nat \<Rightarrow> string" where
  "two_digits n = [digit_char (n div 10), digit_char (n mod 10)]"

definition strftime_FT :: "tm \<Rightarrow> string" where
  "strftime_FT t = to_decimal (nat (tm_year t)) @ ''-'' @ two_digits (tm_mon t) @ ''-'' @ two_digits (tm_mday t) @ ''T'' @
     two_digits (tm_hour t) @ '':'' @ two_digits (tm_min t) @ '':'' @ two_digits (tm_sec t) @ ''Z''"

section \<open>Domain signals\<close>

text \<open>
  A point in time is a count of nanoseconds since 1970; \<open>to_time_t\<close> truncates it to seconds.
  \<open>granularityNs\<close> is the build option \<open>TIME_GRANULARITY_NS\<close>.
\<close>

definition setEpoch_time :: "int \<Rightarrow> 'j domain_signal \<Rightarrow> 'j domain_signal" where
  "setEpoch_time epoch s = s\<lparr>ds_epoch := strftime_FT (gmtime (duration_div epoch 1000000000))\<rparr>"

definition timeFromTimeTicks :: "bool \<Rightarrow> u64 \<Rightarrow> u64 \<Rightarrow> int option" where
  "timeFromTimeTicks granularityNs timeTicks timeTicksPerSecond =
     (case nanosecondsFromTimeTicks timeTicks timeTicksPerSecond of
        None \<Rightarrow> None
      | Some ns \<Rightarrow> Some (if granularityNs then sint ns else duration_div (sint ns) 1000 * 1000))"

definition getEpoch :: "'j domain_signal \<Rightarrow> string" where
  "getEpoch s = ds_epoch s"

definition getTimeStart :: "'j domain_signal \<Rightarrow> u64" where
  "getTimeStart s = ds_startInTicks s"

section \<open>Days before a date\<close>

text \<open>The days from 1970 to the start of a year, counted with the rule for leap years.\<close>

definition days_before :: "int \<Rightarrow> int" where
  "days_before y = 365 * (y - 1970) + ((y - 1969) div 4 - (y - 1901) div 100 + (y - 1601) div 400)"

definition days_of_date :: "int \<Rightarrow> nat \<Rightarrow> nat \<Rightarrow> int" where
  "days_of_date y m d = days_before y + int (sum_list (take (m - 1) (month_lengths y))) + int (d - 1)"

lemma div_step: "0 < n \<Longrightarrow> (k + 1) div n = k div n + (if (k + 1) mod n = 0 then 1 else 0)" for k n :: int
proof -
  assume n: "0 < n"
  have k: "k + 1 = n * (k div n) + (k mod n + 1)" by simp
  show ?thesis
  proof (cases "k mod n + 1 = n")
    case True
    with k have "k + 1 = n * (k div n + 1) + 0" by (simp add: distrib_left)
    with n have "(k + 1) div n = k div n + 1" "(k + 1) mod n = 0"
      using int_div_pos_eq [of "k + 1" n "k div n + 1" 0] int_mod_pos_eq [of "k + 1" n "k div n + 1" 0] by simp_all
    then show ?thesis by simp
  next
    case False
    have r: "0 \<le> k mod n" "k mod n < n" using n by simp_all
    with False k have "(k + 1) div n = k div n" "(k + 1) mod n = k mod n + 1"
      using int_div_pos_eq [of "k + 1" n "k div n" "k mod n + 1"] int_mod_pos_eq [of "k + 1" n "k div n" "k mod n + 1"] by linarith+
    with r show ?thesis by simp
  qed
qed

lemma days_before_next: "days_before (y + 1) = days_before y + int (days_in_year y)"
proof -
  have m: "(y - 1968) mod 4 = y mod 4" "(y - 1900) mod 100 = y mod 100" "(y - 1600) mod 400 = y mod 400"
    using mod_mult_self2 [of "y - 1968" 4 492] mod_mult_self2 [of "y - 1900" 100 19] mod_mult_self2 [of "y - 1600" 400 4] by simp_all
  have e: "y - 1968 = y - 1969 + 1" "y - 1900 = y - 1901 + 1" "y - 1600 = y - 1601 + 1" by simp_all
  have d: "(y - 1968) div 4 = (y - 1969) div 4 + (if y mod 4 = 0 then 1 else 0)"
    "(y - 1900) div 100 = (y - 1901) div 100 + (if y mod 100 = 0 then 1 else 0)"
    "(y - 1600) div 400 = (y - 1601) div 400 + (if y mod 400 = 0 then 1 else 0)"
    unfolding m [symmetric] unfolding e by (rule div_step, simp)+
  have n: "y + 1 - 1969 = y - 1968" "y + 1 - 1901 = y - 1900" "y + 1 - 1601 = y - 1600" by simp_all
  define a b c where "a = (y - 1969) div 4" and "b = (y - 1901) div 100" and "c = (y - 1601) div 400"
  define p q r where "p \<longleftrightarrow> y mod 4 = 0" and "q \<longleftrightarrow> y mod 100 = 0" and "r \<longleftrightarrow> y mod 400 = 0"
  have "q \<Longrightarrow> p" "r \<Longrightarrow> q" unfolding p_def q_def r_def by presburger+
  then show ?thesis
    unfolding days_before_def n d days_in_year_def leap_def
    unfolding a_def [symmetric] b_def [symmetric] c_def [symmetric] p_def [symmetric] q_def [symmetric] r_def [symmetric]
    by (cases p; cases q; cases r) simp_all
qed

lemma leap_cycle: "leap (y + 400 * c) = leap y"
  using mod_mult_self2 [of y 4 "100 * c"] mod_mult_self2 [of y 100 "4 * c"] by (simp add: leap_def)

lemma days_before_cycle: "days_before (y + 400 * c) = days_before y + 146097 * c"
  using div_mult_self2 [of 4 "y - 1969" "100 * c"] div_mult_self2 [of 100 "y - 1901" "4 * c"] div_mult_self2 [of 400 "y - 1601" c]
  by (simp add: days_before_def algebra_simps)

lemma year_of_days:
  assumes "year_of y d = (y', r)"
  shows "days_before y' + int r = days_before y + int d \<and> r < days_in_year y' \<and> y \<le> y' \<and> y' \<le> y + int d"
  using assms
proof (induction y d arbitrary: y' r rule: year_of.induct)
  case (1 y d)
  show ?case
  proof (cases "d < days_in_year y")
    case True
    with "1.prems" show ?thesis by (simp add: year_of.simps [of y d])
  next
    case False
    with "1.prems" have "year_of (y + 1) (d - days_in_year y) = (y', r)" by (simp add: year_of.simps [of y d])
    from "1.IH" [OF False this] False show ?thesis
      by (auto simp: days_before_next of_nat_diff) (auto simp: days_in_year_def split: if_splits)
  qed
qed

lemma month_of_days:
  assumes "month_of ls d = (m, r)" and "d < sum_list ls"
  shows "m < length ls \<and> r < ls ! m \<and> sum_list (take m ls) + r = d"
  using assms
proof (induction ls arbitrary: d m r)
  case (Cons l ls)
  show ?case
  proof (cases "d < l")
    case False
    obtain m' r' where e: "month_of ls (d - l) = (m', r')" by fastforce
    with False Cons.prems have "m = Suc m'" "r = r'" "d - l < sum_list ls" by auto
    with Cons.IH [OF e] False show ?thesis by auto
  qed (use Cons.prems in auto)
qed simp

lemma month_lengths_sum: "sum_list (month_lengths y) = days_in_year y" "length (month_lengths y) = 12"
  "m < 12 \<Longrightarrow> month_lengths y ! m \<le> 31"
proof -
  have "\<forall>l \<in> set (month_lengths y). l \<le> 31" by (auto simp: month_lengths_def)
  moreover have "length (month_lengths y) = 12" by (simp add: month_lengths_def)
  ultimately show "m < 12 \<Longrightarrow> month_lengths y ! m \<le> 31" by (metis nth_mem)
qed (simp_all add: month_lengths_def days_in_year_def)

text \<open>The date and the time of day that \<open>gmtime\<close> gives, for every number of seconds.\<close>

lemma gmtime_seconds:
  fixes seconds :: int
  defines "t \<equiv> gmtime seconds"
  shows "86400 * days_of_date (tm_year t) (tm_mon t) (tm_mday t) + int (3600 * tm_hour t + 60 * tm_min t + tm_sec t) = seconds"
    and "tm_mon t \<in> {1..12}" and "tm_mday t \<in> {1..31}" and "tm_hour t < 24" and "tm_min t < 60" and "tm_sec t < 60"
    and "0 \<le> seconds \<Longrightarrow> 1970 \<le> tm_year t"
proof -
  define days where "days = seconds div 86400"
  define rest where "rest = nat (seconds mod 86400)"
  obtain y yday where y: "year_of 1970 (nat (days mod 146097)) = (y, yday)" by fastforce
  obtain m mday where m: "month_of (month_lengths y) yday = (m, mday)" by fastforce
  let ?y = "y + 400 * (days div 146097)"
  have t: "t = \<lparr>tm_year = ?y, tm_mon = m + 1, tm_mday = mday + 1,
      tm_hour = rest div 3600, tm_min = rest mod 3600 div 60, tm_sec = rest mod 60\<rparr>"
    unfolding t_def gmtime_def Let_def days_def [symmetric] rest_def [symmetric] y prod.case m ..
  note yd = year_of_days [OF y]
  then have "yday < sum_list (month_lengths y)" by (simp add: month_lengths_sum)
  from month_of_days [OF m this] have md: "m < 12" "mday < month_lengths y ! m" "sum_list (take m (month_lengths y)) + mday = yday"
    by (simp_all add: month_lengths_sum)
  have "month_lengths ?y = month_lengths y" by (simp add: month_lengths_def leap_cycle)
  then have "days_of_date ?y (m + 1) (mday + 1) = days_before y + int yday + 146097 * (days div 146097)"
    using md(3) by (simp add: days_of_date_def days_before_cycle)
  also have "days_before y + int yday = days mod 146097" using yd by (simp add: days_before_def)
  finally have date: "days_of_date ?y (m + 1) (mday + 1) = days" by simp
  have "rest div 3600 * 3600 + rest mod 3600 = rest" "rest mod 3600 div 60 * 60 + rest mod 3600 mod 60 = rest mod 3600"
    by (rule div_mult_mod_eq)+
  moreover have "rest mod 3600 mod 60 = rest mod 60" by (simp add: mod_mod_cancel)
  ultimately have rest: "3600 * (rest div 3600) + 60 * (rest mod 3600 div 60) + rest mod 60 = rest" by linarith
  have "int rest = seconds mod 86400" by (simp add: rest_def)
  then have "86400 * days + int rest = seconds" by (simp add: days_def)
  then show "86400 * days_of_date (tm_year t) (tm_mon t) (tm_mday t) + int (3600 * tm_hour t + 60 * tm_min t + tm_sec t) = seconds"
    using date rest by (simp add: t)
  have "rest < 86400" by (simp add: rest_def nat_less_iff)
  then show "tm_hour t < 24" "tm_min t < 60" "tm_sec t < 60" by (simp_all add: t div_less_iff_less_mult)
  show "tm_mon t \<in> {1..12}" using md(1) by (simp add: t)
  show "tm_mday t \<in> {1..31}" using md(1,2) month_lengths_sum(3) [of m y] by (simp add: t)
  show "1970 \<le> tm_year t" if "0 \<le> seconds" 
  proof -
    have "0 \<le> days div 146097" using that by (simp add: days_def pos_imp_zdiv_nonneg_iff)
    with yd show ?thesis by (simp add: t)
  qed
qed

section \<open>Reading an epoch\<close>

text \<open>The seconds that a text of the form \<open>YYYY-MM-DDThh:mm:ssZ\<close> stands for.\<close>

definition epoch_seconds :: "string \<Rightarrow> int" where
  "epoch_seconds text =
     (let year = int (of_decimal (takeWhile is_digit text)); rest = dropWhile is_digit text;
          two = (\<lambda>i. of_decimal (take 2 (drop i rest)))
      in 86400 * days_of_date year (two 1) (two 4) + int (3600 * two 7 + 60 * two 10 + two 13))"

lemma two_digits: "n < 100 \<Longrightarrow> of_decimal (two_digits n) = n" "length (two_digits n) = 2"
  by (simp_all add: two_digits_def of_decimal_def)

lemma epoch_seconds_text:
  assumes "0 \<le> tm_year t" and "tm_mon t < 100" "tm_mday t < 100" "tm_hour t < 100" "tm_min t < 100" "tm_sec t < 100"
  shows "epoch_seconds (strftime_FT t) =
    86400 * days_of_date (tm_year t) (tm_mon t) (tm_mday t) + int (3600 * tm_hour t + 60 * tm_min t + tm_sec t)"
proof -
  define rest where "rest = ''-'' @ two_digits (tm_mon t) @ ''-'' @ two_digits (tm_mday t) @ ''T'' @
     two_digits (tm_hour t) @ '':'' @ two_digits (tm_min t) @ '':'' @ two_digits (tm_sec t) @ ''Z''"
  have form: "strftime_FT t = to_decimal (nat (tm_year t)) @ rest" by (simp add: strftime_FT_def rest_def)
  have "takeWhile is_digit rest = []" "dropWhile is_digit rest = rest" by (simp_all add: rest_def is_digit_def)
  then have split: "takeWhile is_digit (strftime_FT t) = to_decimal (nat (tm_year t))" "dropWhile is_digit (strftime_FT t) = rest"
    using to_decimal_digits [of "nat (tm_year t)"] by (simp_all add: form takeWhile_append2 dropWhile_append2)
  have "take 2 (drop 1 rest) = two_digits (tm_mon t)" "take 2 (drop 4 rest) = two_digits (tm_mday t)"
    "take 2 (drop 7 rest) = two_digits (tm_hour t)" "take 2 (drop 10 rest) = two_digits (tm_min t)"
    "take 2 (drop 13 rest) = two_digits (tm_sec t)"
    by (simp_all add: rest_def two_digits_def)
  then show ?thesis
    using assms by (simp add: epoch_seconds_def split of_decimal_to_decimal two_digits Let_def)
qed

lemma epoch_of_seconds: "0 \<le> seconds \<Longrightarrow> epoch_seconds (strftime_FT (gmtime seconds)) = seconds"
  using gmtime_seconds [of seconds] by (subst epoch_seconds_text) auto

section \<open>Properties\<close>

text \<open>
  C39: ticks, time and epoch. For up to 18446744073 ticks per second, as long as the nanoseconds
  fit a signed count: \<open>timeFromTimeTicks\<close> gives exactly the time of the ticks, rounded down to
  nanoseconds or microseconds as the build has it, although the product of ticks and 1000000000
  does not fit; and the epoch that is set from this time is the text of a date and a time of
  day which is the whole number of seconds of the ticks after the start of 1970.
\<close>

theorem epoch_of_ticks:
  assumes "p \<noteq> 0" and "unat p \<le> 18446744073" and "unat t div unat p * 1000000000 + 1000000000 < 2 ^ 63"
  shows "\<exists>time. timeFromTimeTicks granularityNs t p = Some time \<and>
    time = (let ns = int (unat t * 1000000000 div unat p) in if granularityNs then ns else ns div 1000 * 1000) \<and>
    epoch_seconds (getEpoch (setEpoch_time time s)) = int (unat t div unat p)"
proof -
  let ?ns = "unat t * 1000000000 div unat p"
  have p: "0 < unat p" using assms(1) by (simp add: word_unat_eq_iff)
  obtain ns where ns: "nanosecondsFromTimeTicks t p = Some ns" "unat ns = ?ns"
    using nanoseconds_exact [OF assms(1,2), of t] assms(3) by fastforce
  have secs: "?ns div 1000000000 = unat t div unat p"
    using p div_mult2_eq [of "unat t * 1000000000" "unat p" 1000000000] by simp
  have "?ns < 2 ^ 63"
  proof -
    have "?ns < (?ns div 1000000000 + 1) * 1000000000" 
      using dividend_less_times_div [of 1000000000 ?ns] by (simp add: algebra_simps)
    with secs assms(3) show ?thesis by simp
  qed
  then have sint: "sint ns = int ?ns"
    using ns(2) signed_take_bit_int_eq_self [of 63 "int ?ns"] by (simp add: sint_uint uint_nat)
  define time where "time = (let ns = int ?ns in if granularityNs then ns else ns div 1000 * 1000)"
  have "timeFromTimeTicks granularityNs t p = Some time"
    using ns(1) duration_div_nonneg [of "int ?ns" 1000] by (simp add: timeFromTimeTicks_def time_def sint)
  moreover have "time div 1000000000 = int (unat t div unat p)"
  proof -
    have "int ?ns div 1000 * 1000 div (1000 * 1000000) = int ?ns div 1000 div 1000000"
      by (simp add: zdiv_zmult2_eq [of 1000000 _ 1000])
    also have "\<dots> = int ?ns div 1000000000" by (simp add: zdiv_zmult2_eq [symmetric])
    finally have "int ?ns div 1000 * 1000 div 1000000000 = int ?ns div 1000000000" by simp
    moreover have "int ?ns div 1000000000 = int (unat t div unat p)" by (metis secs of_nat_numeral zdiv_int)
    ultimately show ?thesis by (simp add: time_def Let_def)
  qed
  moreover have "0 \<le> time" by (simp add: time_def Let_def)
  ultimately show ?thesis
    using duration_div_nonneg [of time 1000000000] epoch_of_seconds [of "time div 1000000000"]
    by (intro exI [of _ time]) (simp add: time_def [symmetric] getEpoch_def setEpoch_time_def)
qed

theorem epoch_of_ticks_witness:
  "\<exists>time. timeFromTimeTicks False 10000000000001 3000000 = Some time \<and> time = 3333333333333000 \<and>
     epoch_seconds (getEpoch (setEpoch_time time example_time_signal)) = 3333333"
  using epoch_of_ticks [of 3000000 10000000000001 False example_time_signal] by simp

end
