(* ===== verification/Factorization.thy ===== *)
theory Factorization
  imports Signal_Generator
begin

text \<open>
  Prime factor exponents of rates (\<open>tool/SignalGenerator/factorization.cpp\<close>): trial division, the
  product of a factorization, and the change of signs that leads from frequencies to periods.
  A \<open>std::map\<close> from primes to exponents is a list of entries sorted by key. The numbers are
  \<open>unsigned int\<close>; no operation leaves that range, since both the divisor and what is left of
  the input are at most the input, so that they are natural numbers here. The multiplier that
  \<open>getFactorForFactorization\<close> finds may wrap and is a word; its loop may not end.
\<close>

type_synonym prime_factor_exponents = "(nat \<times> int) list"

text \<open>The inner loop: how often \<open>i\<close> divides the input, and what is left of it.\<close>

function divide_out :: "nat \<Rightarrow> nat \<Rightarrow> nat \<times> nat" where
  "divide_out i n =
     (if 1 < i \<and> 0 < n \<and> n mod i = 0 then (case divide_out i (n div i) of (k, m) \<Rightarrow> (Suc k, m)) else (0, n))"
  by pat_completeness auto

termination divide_out
  by (relation "measure snd") auto

declare divide_out.simps [simp del]

lemma divide_out_spec:
  assumes "1 < i" and "0 < n" and "divide_out i n = (k, m)"
  shows "n = i ^ k * m \<and> 0 < m \<and> \<not> i dvd m \<and> (k = 0 \<longleftrightarrow> \<not> i dvd n)"
  using assms
proof (induction i n arbitrary: k m rule: divide_out.induct)
  case (1 i n)
  show ?case
  proof (cases "n mod i = 0")
    case True
    obtain k' m' where d: "divide_out i (n div i) = (k', m')" by fastforce
    have "0 < n div i" using True "1.prems"(1,2) by (simp add: div_greater_zero_iff dvd_imp_le mod_eq_0_iff_dvd)
    from "1.IH" [OF _ "1.prems"(1) this d] have "n div i = i ^ k' * m'" "0 < m'" "\<not> i dvd m'"
      using True "1.prems" by simp_all
    moreover have "k = Suc k'" "m = m'" using "1.prems" True d by (simp_all add: divide_out.simps [of i n])
    moreover have "n = i * (n div i)" using True by auto
    ultimately show ?thesis using True by (simp add: mod_eq_0_iff_dvd mult.assoc)
  next
    case False
    with "1.prems" show ?thesis by (simp add: divide_out.simps [of i n] mod_eq_0_iff_dvd)
  qed
qed

text \<open>The outer loop, whose bound shrinks with the input.\<close>

function factor_loop :: "nat \<Rightarrow> nat \<Rightarrow> prime_factor_exponents" where
  "factor_loop i input =
     (if 2 \<le> i \<and> i \<le> input then
        (case divide_out i input of
           (k, rest) \<Rightarrow> (if k = 0 then [] else [(i, int k)]) @ factor_loop (Suc i) rest)
      else [])"
  by pat_completeness auto

lemma divide_out_le: "snd (divide_out i n) \<le> n"
proof (induction i n rule: divide_out.induct)
  case (1 i n)
  show ?case
  proof (cases "1 < i \<and> 0 < n \<and> n mod i = 0")
    case True
    with 1 have "snd (divide_out i (n div i)) \<le> n div i" by blast
    also have "\<dots> \<le> n" by simp
    finally show ?thesis using True by (simp add: divide_out.simps [of i n] case_prod_beta)
  qed (auto simp: divide_out.simps [of i n])
qed

termination factor_loop
proof (relation "measure (\<lambda>(i, n). Suc n - i)")
  fix i n k rest
  assume "2 \<le> i \<and> i \<le> n" and "(k, rest) = divide_out i n"
  then show "((Suc i, rest), i, n) \<in> measure (\<lambda>(i, n). Suc n - i)"
    using divide_out_le [of i n] by (metis (no_types, lifting) Suc_diff_le case_prod_conv diff_Suc_Suc diff_le_mono in_measure le_imp_less_Suc snd_conv)
qed simp

declare factor_loop.simps [simp del]

definition getprimeFactorExponents :: "nat \<Rightarrow> prime_factor_exponents" where
  "getprimeFactorExponents input = factor_loop 2 input"

definition composePrimeFactorExponents :: "'j json_lib \<Rightarrow> prime_factor_exponents \<Rightarrow> 'j" where
  "composePrimeFactorExponents J es =
     foldl (\<lambda>d (p, e). j_put J d (to_decimal p) (j_of_int32 J (word_of_int e))) (j_null J) es"

text \<open>\<open>std::pow\<close> of a prime and an exponent is a parameter, as the arithmetic is.\<close>

definition getProduct :: "('f, 'v) arith \<Rightarrow> ('f \<Rightarrow> int \<Rightarrow> 'f) \<Rightarrow> prime_factor_exponents \<Rightarrow> 'f" where
  "getProduct A pow es =
     (if es = [] then f_lit A 0
      else foldl (\<lambda>product (p, e). f_mul A product (pow (f_of_int A (int p)) e)) (f_lit A 1) es)"

definition changeSigns :: "prime_factor_exponents \<Rightarrow> prime_factor_exponents" where
  "changeSigns es = map (\<lambda>(p, e). (p, - e)) es"

section \<open>Correctness of the factorization\<close>

definition is_prime :: "nat \<Rightarrow> bool" where
  "is_prime p \<longleftrightarrow> 1 < p \<and> (\<forall>d. d dvd p \<longrightarrow> d = 1 \<or> d = p)"

text \<open>The invariant of the outer loop: nothing below the divisor divides what is left.\<close>

lemma factor_loop_spec:
  assumes "2 \<le> i" and "0 < n" and "\<forall>d. 2 \<le> d \<and> d < i \<longrightarrow> \<not> d dvd n"
  shows "(\<Prod>(p, e) \<leftarrow> factor_loop i n. p ^ nat e) = n \<and> sorted_wrt (<) (map fst (factor_loop i n)) \<and>
    (\<forall>(p, e) \<in> set (factor_loop i n). i \<le> p \<and> is_prime p \<and> 0 < e)"
  using assms
proof (induction i n rule: factor_loop.induct)
  case (1 i n)
  show ?case
  proof (cases "i \<le> n")
    case True
    obtain k m where d: "divide_out i n = (k, m)" by fastforce
    note s = divide_out_spec [OF _ "1.prems"(2) d]
    have below: "\<forall>d. 2 \<le> d \<and> d < Suc i \<longrightarrow> \<not> d dvd m"
      using s "1.prems"(1,3) by (metis One_nat_def Suc_1 Suc_le_lessD dvd_triv_right dvd_trans less_antisym)
    have IH: "(\<Prod>(p, e) \<leftarrow> factor_loop (Suc i) m. p ^ nat e) = m" "sorted_wrt (<) (map fst (factor_loop (Suc i) m))"
      "\<forall>(p, e) \<in> set (factor_loop (Suc i) m). Suc i \<le> p \<and> is_prime p \<and> 0 < e"
      using "1.IH" [OF _ d [symmetric]] True below s "1.prems"(1) by auto
    have prime: "is_prime i" if "k \<noteq> 0"
      unfolding is_prime_def
    proof (intro conjI allI impI)
      fix q assume q: "q dvd i"
      have "i dvd n" using that s "1.prems"(1) by simp
      with q have "q dvd n" by (rule dvd_trans)
      moreover have "q \<le> i" using q "1.prems"(1) by (simp add: dvd_imp_le)
      moreover have "q \<noteq> 0" using q "1.prems"(1) by (metis dvd_0_left_iff not_numeral_le_zero)
      ultimately show "q = 1 \<or> q = i" using "1.prems"(3) by (metis One_nat_def Suc_1 le_antisym less_Suc_eq_le not_less not_less_eq_eq le_0_eq)
    qed (use "1.prems"(1) in simp)
    have loop: "factor_loop i n = (if k = 0 then [] else [(i, int k)]) @ factor_loop (Suc i) m"
      using True "1.prems"(1) d by (simp add: factor_loop.simps [of i n])
    show ?thesis unfolding loop using IH prime s "1.prems"(1) by (cases "k = 0") fastforce+
  next
    case False
    have "n = 1"
    proof (rule ccontr)
      assume "n \<noteq> 1"
      with False "1.prems" have "2 \<le> n" "n < i" "n dvd n" by auto
      with "1.prems"(3) show False by blast
    qed
    moreover have "factor_loop i n = []" using False by (simp add: factor_loop.simps [of i n])
    ultimately show ?thesis by simp
  qed
qed


text \<open>Products of powers in exact arithmetic.\<close>

lemma foldl_product: "foldl (\<lambda>x (p, e). x * (real p) powi e) a es = a * (\<Prod>(p, e) \<leftarrow> es. real p powi e)"
  by (induction es arbitrary: a) auto

lemma getProduct_real:
  "es \<noteq> [] \<Longrightarrow> getProduct real_arith (powi) es = (\<Prod>(p, e) \<leftarrow> es. real p powi e)"
  using foldl_product [of 1 es] by (simp add: getProduct_def real_arith_def)

lemma product_of_nat:
  assumes "\<forall>(p, e) \<in> set es. 0 < e"
  shows "(\<Prod>(p, e) \<leftarrow> es. real p powi e) = real (\<Prod>(p, e) \<leftarrow> es. p ^ nat e)"
  using assms by (induction es) (auto simp: power_int_def)

lemma product_inverse: "(\<Prod>(p, e) \<leftarrow> changeSigns es. real p powi e) = inverse (\<Prod>(p, e) \<leftarrow> es. real p powi e)"
  by (induction es) (auto simp: changeSigns_def power_int_minus)

text \<open>The period of a rate and the rate of a period.\<close>

lemma getProduct_factors:
  assumes "1 < n"
  shows "getProduct real_arith (powi) (getprimeFactorExponents n) = real n \<and>
    getProduct real_arith (powi) (changeSigns (getprimeFactorExponents n)) = 1 / real n"
proof -
  let ?es = "getprimeFactorExponents n"
  have s: "(\<Prod>(p, e) \<leftarrow> ?es. p ^ nat e) = n" "\<forall>(p, e) \<in> set ?es. 0 < e"
    using factor_loop_spec [of 2 n] assms unfolding getprimeFactorExponents_def by fastforce+
  have ne: "?es \<noteq> []" "changeSigns ?es \<noteq> []" using s(1) assms by (auto simp: changeSigns_def)
  have "(\<Prod>(p, e) \<leftarrow> ?es. real p powi e) = real n" using product_of_nat [OF s(2)] s(1) by simp
  then show ?thesis
    unfolding getProduct_real [OF ne(1)] getProduct_real [OF ne(2)] product_inverse by (simp add: inverse_eq_divide)
qed

section \<open>A multiplier that makes a number whole\<close>

definition f_fabs :: "('f, 'v) arith \<Rightarrow> 'f \<Rightarrow> 'f" where
  "f_fabs A x = (if f_less A x (f_lit A 0) then f_sub A (f_lit A 0) x else x)"

definition factor_epsilon :: "('f, 'v) arith \<Rightarrow> 'f" where
  "factor_epsilon A = f_lit A (1 / 1000000)"

partial_function (option) shift_left :: "('f, 'v) arith \<Rightarrow> 'f \<Rightarrow> u32 \<Rightarrow> ('f \<times> u32) option" where
  "shift_left A number multiplier =
     (if f_less A (factor_epsilon A) (f_fabs A (fst (f_modf A number)))
      then shift_left A (f_mul A number (f_of_int A 10)) (multiplier * 10)
      else Some (number, multiplier))"

definition getFactorForFactorization :: "('f, 'v) arith \<Rightarrow> 'f \<Rightarrow> u32 option" where
  "getFactorForFactorization A number =
     (if f_less A (f_fabs A number) (factor_epsilon A) then Some 0
      else (case shift_left A number 1 of
              None \<Rightarrow> None
            | Some (number', multiplier) \<Rightarrow>
                Some (if f_less A (f_sub A (f_fabs A number') (f_lit A 1)) (factor_epsilon A) then multiplier * 2 else multiplier)))"

text \<open>In exact arithmetic: the distance to the whole part decides whether the loop goes on.\<close>

definition nearly_whole :: "real \<Rightarrow> bool" where
  "nearly_whole x \<longleftrightarrow> \<bar>x - of_int (trunc_real x)\<bar> \<le> 1 / 1000000"

lemma exact_steps:
  "f_fabs real_arith x = \<bar>x\<bar>" "factor_epsilon real_arith = 1 / 1000000"
  "shift_left real_arith x m = (if nearly_whole x then Some (x, m) else shift_left real_arith (x * 10) (m * 10))"
proof -
  have e: "f_fabs real_arith y = \<bar>y\<bar>" "factor_epsilon real_arith = 1 / 1000000" for y
    by (simp_all add: f_fabs_def factor_epsilon_def real_arith_def of_rat_divide)
  show "shift_left real_arith x m = (if nearly_whole x then Some (x, m) else shift_left real_arith (x * 10) (m * 10))"
    by (subst shift_left.simps, simp only: e, simp add: real_arith_def nearly_whole_def)
  show "f_fabs real_arith x = \<bar>x\<bar>" "factor_epsilon real_arith = 1 / 1000000" by (rule e)+
qed

lemma shift_left_exact:
  assumes "nearly_whole (x * 10 ^ d)"
  shows "\<exists>n \<le> d. shift_left real_arith x m = Some (x * 10 ^ n, m * 10 ^ n) \<and> nearly_whole (x * 10 ^ n) \<and>
    (\<forall>k < n. \<not> nearly_whole (x * 10 ^ k))"
  using assms
proof (induction d arbitrary: x m)
  case (Suc d)
  show ?case
  proof (cases "nearly_whole x")
    case False
    from Suc.IH [of "x * 10" "m * 10"] Suc.prems obtain n where n: "n \<le> d" "nearly_whole (x * 10 ^ Suc n)"
      "shift_left real_arith (x * 10) (m * 10) = Some (x * 10 ^ Suc n, m * 10 ^ Suc n)" "\<forall>k < n. \<not> nearly_whole (x * 10 ^ Suc k)"
      by (auto simp: mult.assoc)
    with False have "\<forall>k < Suc n. \<not> nearly_whole (x * 10 ^ k)" by (auto simp: less_Suc_eq_0_disj)
    with n False show ?thesis by (intro exI [of _ "Suc n"]) (simp add: exact_steps(3) [of x])
  qed (auto simp: exact_steps(3) [of x] intro: exI [of _ 0])
qed (subst exact_steps(3), simp)

text \<open>
  For a number with \<open>d\<close> decimals the function returns, and the result is the least power of ten
  that leaves a fraction below the bound (reduced to 32 bits), doubled if the product is 1 or less.
\<close>

lemma factor_of_decimal:
  assumes "1 / 1000000 \<le> \<bar>x\<bar>" and "x * 10 ^ d \<in> \<int>"
  shows "\<exists>n \<le> d. nearly_whole (x * 10 ^ n) \<and> (\<forall>k < n. \<not> nearly_whole (x * 10 ^ k)) \<and>
    getFactorForFactorization real_arith x = Some (if \<bar>x * 10 ^ n\<bar> < 1 + 1 / 1000000 then 2 * 10 ^ n else 10 ^ n)"
proof -
  have "nearly_whole (x * 10 ^ d)" using assms(2) by (auto simp: nearly_whole_def trunc_real_def elim: Ints_cases)
  then obtain n where n: "n \<le> d" "shift_left real_arith x 1 = Some (x * 10 ^ n, 10 ^ n)" "nearly_whole (x * 10 ^ n)"
    "\<forall>k < n. \<not> nearly_whole (x * 10 ^ k)" using shift_left_exact [of x d 1] by auto
  moreover have "f_less real_arith = (<)" "f_sub real_arith = (-)" "f_lit real_arith 1 = 1" by (simp_all add: real_arith_def)
  ultimately show ?thesis using assms(1)
    by (intro exI [of _ n]) (auto simp: getFactorForFactorization_def exact_steps(1,2))
qed

section \<open>Properties\<close>

text \<open>
  C35: prime factors. The loops of \<open>getprimeFactorExponents\<close> end for every input; for an input
  greater than 1 the result has the input as its product, its keys are primes in ascending
  order and its exponents positive; for 0 and 1 it is empty. In exact arithmetic \<open>getProduct\<close>
  gives the input back, and with the signs of the exponents changed its inverse, which is the
  period of a rate and the rate of a period.
\<close>

theorem prime_factors:
  "(1 < n \<longrightarrow> (\<Prod>(p, e) \<leftarrow> getprimeFactorExponents n. p ^ nat e) = n \<and>
     sorted_wrt (<) (map fst (getprimeFactorExponents n)) \<and>
     (\<forall>(p, e) \<in> set (getprimeFactorExponents n). is_prime p \<and> 0 < e) \<and>
     getProduct real_arith (powi) (getprimeFactorExponents n) = real n \<and>
     getProduct real_arith (powi) (changeSigns (getprimeFactorExponents n)) = 1 / real n) \<and>
   (n \<le> 1 \<longrightarrow> getprimeFactorExponents n = [])"
proof -
  have "getprimeFactorExponents n = []" if "n \<le> 1"
    using that by (simp add: getprimeFactorExponents_def factor_loop.simps)
  moreover have "\<forall>d. 2 \<le> d \<and> d < 2 \<longrightarrow> \<not> d dvd n" by force
  then have "(\<Prod>(p, e) \<leftarrow> getprimeFactorExponents n. p ^ nat e) = n \<and> sorted_wrt (<) (map fst (getprimeFactorExponents n)) \<and>
      (\<forall>(p, e) \<in> set (getprimeFactorExponents n). is_prime p \<and> 0 < e)" if "1 < n"
    using factor_loop_spec [of 2 n] that unfolding getprimeFactorExponents_def by fastforce
  ultimately show ?thesis using getProduct_factors [of n] by blast
qed

theorem prime_factors_witness:
  "(\<Prod>(p, e) \<leftarrow> getprimeFactorExponents 360. p ^ nat e) = 360 \<and>
   getProduct real_arith (powi) (changeSigns (getprimeFactorExponents 360)) = 1 / 360 \<and> getprimeFactorExponents 1 = []"
  using prime_factors [of 360] prime_factors [of 1] by simp

end
