(* ===== verification/Generator_Config.thy ===== *)
theory Generator_Config
  imports Signal_Generator Stream_Meta
begin

text \<open>
  How the signal generator gets its signals: durations as text (\<open>signaldefinition.cpp\<close>), the
  JSON configuration (\<open>SignalGenerator::configure\<close>, \<open>configureSignal\<close>), the default signals and
  the worker that starts the generator. Shown: the durations, what a configuration leads to,
  and that the generator keeps its signals sorted under their ids.
\<close>

section \<open>Durations\<close>

text \<open>
  \<open>sscanf\<close> with \<open>"%u%s"\<close>. What a conversion does not reach keeps its value, and neither
  variable is initialised: \<open>junkValue\<close> and \<open>junkUnit\<close> are what was on the stack. A number that
  does not fit and a unit that is longer than its buffer are undefined.
\<close>

definition sscanf_us :: "string \<Rightarrow> nat option \<times> bool \<times> string" where
  "sscanf_us s =
     (let s1 = dropWhile is_space (takeWhile (\<lambda>c. of_char c \<noteq> (0 :: nat)) s);
          (neg, s2) = (case s1 of
             c # cs \<Rightarrow> if c = CHR ''-'' then (True, cs) else if c = CHR ''+'' then (False, cs) else (False, s1)
           | [] \<Rightarrow> (False, s1));
          ds = takeWhile is_digit s2
      in if ds = [] then (None, False, [])
         else (Some (of_decimal ds), neg, takeWhile (\<lambda>c. \<not> is_space c) (dropWhile is_space (dropWhile is_digit s2))))"

definition micro_s :: string where
  "micro_s = [char_of (0xC2 :: nat), char_of (0xB5 :: nat), CHR ''s'']"

definition durationFromString :: "u32 \<Rightarrow> string \<Rightarrow> string \<Rightarrow> int \<Rightarrow> int option" where
  "durationFromString junkValue junkUnit durationString defaultValue =
     (case sscanf_us durationString of (number, neg, text) \<Rightarrow>
        if (case number of Some n \<Rightarrow> 2 ^ 32 \<le> n | None \<Rightarrow> False) \<or> 128 \<le> length text then None
        else
          let uintValue = uint (case number of
                  None \<Rightarrow> junkValue | Some n \<Rightarrow> if neg then - word_of_nat n else word_of_nat n);
              unit_text = (if text = [] then junkUnit else text)
          in Some (if unit_text = ''s'' then uintValue * 1000000000
                   else if unit_text = ''ms'' then uintValue * 1000000
                   else if unit_text = micro_s then uintValue * 1000
                   else if unit_text = ''ns'' then uintValue
                   else defaultValue))"

section \<open>Configuration\<close>

text \<open>
  The members of the JSON library that only the configuration uses: \<open>value(key, default)\<close> for
  further types (\<open>None\<close> for a value of the wrong type) and the entries of an object. The limits
  and scalings of a signal are bit patterns, as everywhere.
\<close>

record ('j, 'f, 'v) config_json =
  cj_bool :: "'j \<Rightarrow> string \<Rightarrow> bool \<Rightarrow> bool option"
  cj_object :: "'j \<Rightarrow> string \<Rightarrow> 'j option"
  cj_bits :: "'j \<Rightarrow> string \<Rightarrow> double \<Rightarrow> double option"
  cj_double :: "'j \<Rightarrow> string \<Rightarrow> 'f \<Rightarrow> 'f option"
  cj_value :: "data_type \<Rightarrow> 'j \<Rightarrow> string \<Rightarrow> 'v \<Rightarrow> 'v option"
  cj_entries :: "'j \<Rightarrow> (string \<times> 'j) list"

definition function_of :: "string \<Rightarrow> function_type option" where
  "function_of f =
     (if f = ''sine'' then Some FUNCTION_TYPE_SINE
      else if f = ''rectangle'' then Some FUNCTION_TYPE_RECTANGLE
      else if f = ''impulse'' then Some FUNCTION_TYPE_IMPULSE
      else if f = ''constant'' then Some FUNCTION_TYPE_CONSTANT
      else if f = ''sawtooth'' then Some FUNCTION_TYPE_SAWTOOTH
      else None)"

text \<open>Continuing with a value, or an exception of the JSON library, or undefined behaviour.\<close>

definition or_json :: "'a option \<Rightarrow> ('a \<Rightarrow> exn + 'b) \<Rightarrow> exn + 'b" where
  "or_json x f = (case x of None \<Rightarrow> Inl Json_exception | Some v \<Rightarrow> f v)"

definition or_undefined :: "'a option \<Rightarrow> ('a \<Rightarrow> exn + 'b) \<Rightarrow> exn + 'b" where
  "or_undefined x f = (case x of None \<Rightarrow> Inl Undefined | Some v \<Rightarrow> f v)"

text \<open>What \<open>configureSignal\<close> reads from the document; the delay is read and not used.\<close>

record ('f, 'v) signal_config =
  sc_explicitTime :: bool
  sc_samplePeriod :: int
  sc_parameters :: "('f, 'v) function_parameters"
  sc_tableId :: string

definition read_parameters ::
  "('j, 'f, 'v) config_json \<Rightarrow> ('f, 'v) arith \<Rightarrow> data_type \<Rightarrow> function_type \<Rightarrow> 'j \<Rightarrow> exn + ('f, 'v) function_parameters" where
  "read_parameters C A t f configSignal =
     or_json (cj_object C configSignal META_RANGE) (\<lambda>rangeConfig.
     or_json (cj_bits C rangeConfig META_LOW (low Range_clear)) (\<lambda>lo.
     or_json (cj_bits C rangeConfig META_HIGH (high Range_clear)) (\<lambda>hi.
     or_json (cj_object C configSignal META_POSTSCALING) (\<lambda>scalingConfig.
     or_json (cj_bits C scalingConfig META_SCALE (scale PostScaling_clear)) (\<lambda>sca.
     or_json (cj_bits C scalingConfig META_POFFSET (offset PostScaling_clear)) (\<lambda>off.
     or_json (cj_value C t configSignal ''amplitude'' (v_of_int A t 0)) (\<lambda>ampl.
     or_json (cj_value C t configSignal ''offset'' (v_of_int A t 0)) (\<lambda>offs.
     or_json (cj_double C configSignal ''frequency'' (f_lit A 0)) (\<lambda>freq.
     or_json (cj_double C configSignal ''dutyCycle'' (f_lit A 0)) (\<lambda>duty.
       Inr \<lparr>functionType = f, amplitude = ampl, offset_level = offs, frequency = freq, dutyCycle = duty,
            fn_range = \<lparr>low = lo, high = hi\<rparr>, fn_postScaling = \<lparr>offset = off, scale = sca\<rparr>\<rparr>))))))))))"

definition read_signal ::
  "'j json_lib \<Rightarrow> ('j, 'f, 'v) config_json \<Rightarrow> ('f, 'v) arith \<Rightarrow> (u32 \<times> string) \<times> (u32 \<times> string) \<Rightarrow>
   data_type \<Rightarrow> string \<Rightarrow> function_type \<Rightarrow> 'j \<Rightarrow> exn + ('f, 'v) signal_config" where
  "read_signal J C A junk t i f configSignal =
     or_json (cj_bool C configSignal ''explicitTime'' False) (\<lambda>explicitTime.
     or_json (j_value_string J configSignal ''delay'' []) (\<lambda>delayString.
     or_json (j_value_string J configSignal ''samplePeriod'' []) (\<lambda>samplePeriodString.
     or_undefined (durationFromString (fst (fst junk)) (snd (fst junk)) delayString 0) (\<lambda>delay.
     or_undefined (durationFromString (fst (snd junk)) (snd (snd junk)) samplePeriodString 0) (\<lambda>samplePeriod.
     (case read_parameters C A t f configSignal of
        Inl e \<Rightarrow> Inl e
      | Inr p \<Rightarrow>
          or_json (j_value_string J configSignal META_TABLEID []) (\<lambda>tableId.
            Inr \<lparr>sc_explicitTime = explicitTime, sc_samplePeriod = samplePeriod, sc_parameters = p,
                 sc_tableId = (if tableId = [] then i @ ''_table'' else tableId)\<rparr>)))))))"

definition time_signal_id :: "string \<Rightarrow> string" where
  "time_signal_id i = ''A_'' @ i @ ''_time''"

text \<open>The results of the functions that add a signal are not looked at.\<close>

definition add_configured ::
  "'j json_lib \<Rightarrow> ('f, 'v) arith \<Rightarrow> u64 \<Rightarrow> data_type \<Rightarrow> string \<Rightarrow> ('f, 'v) signal_config \<Rightarrow>
   ('j, 'f, 'v, 'w) generator \<Rightarrow> ('j, 'f, 'v, 'w) generator" where
  "add_configured J A start t i sc sg =
     (if sc_explicitTime sc then
        snd (addAsynchronousSignal J A t i (sc_tableId sc) (time_signal_id i) (sc_parameters sc) (sc_samplePeriod sc)
          (snd (addExplicitTimeSignal J (time_signal_id i) (sc_tableId sc) (sc_samplePeriod sc) start sg)))
      else
        snd (addSynchronousSignal J A t i (sc_tableId sc) (time_signal_id i) (sc_parameters sc) (sc_samplePeriod sc) 0
          (snd (addLinearTimeSignal J (time_signal_id i) (sc_tableId sc) (sc_samplePeriod sc) start sg))))"

definition configureSignal ::
  "'j json_lib \<Rightarrow> ('j, 'f, 'v) config_json \<Rightarrow> ('f, 'v) arith \<Rightarrow> (u32 \<times> string) \<times> (u32 \<times> string) \<Rightarrow> u64 \<Rightarrow>
   data_type \<Rightarrow> string \<Rightarrow> 'j \<Rightarrow> ('j, 'f, 'v, 'w) generator block" where
  "configureSignal J C A junk start t i configSignal sg =
     (case j_value_string J configSignal ''function'' [] of
        None \<Rightarrow> (Raise Json_exception, sg)
      | Some f \<Rightarrow>
          (case function_of f of
             None \<Rightarrow> (Ret (-1), sg)
           | Some ft \<Rightarrow>
               (case read_signal J C A junk t i ft configSignal of
                  Inl e \<Rightarrow> (Raise e, sg)
                | Inr sc \<Rightarrow> (Ret 0, add_configured J A start t i sc sg))))"

definition configured_type :: "string \<Rightarrow> data_type option" where
  "configured_type s =
     (if s = DATA_TYPE_REAL64 then Some Dt_double
      else if s = DATA_TYPE_REAL32 then Some Dt_float
      else if s = DATA_TYPE_INT32 then Some Dt_int32
      else if s = DATA_TYPE_INT64 then Some Dt_int64
      else None)"

text \<open>The loop over the entries of \<open>configJson["signals"]\<close>.\<close>

fun configure_signals ::
  "'j json_lib \<Rightarrow> ('j, 'f, 'v) config_json \<Rightarrow> ('f, 'v) arith \<Rightarrow> (string \<Rightarrow> (u32 \<times> string) \<times> (u32 \<times> string)) \<Rightarrow> (string \<Rightarrow> u64) \<Rightarrow>
   (string \<times> 'j) list \<Rightarrow> ('j, 'f, 'v, 'w) generator block" where
  "configure_signals J C A junk start [] sg = (Ret 0, sg)"
| "configure_signals J C A junk start ((i, val) # es) sg =
     (case j_value_string J val META_DATATYPE DATA_TYPE_REAL64 of
        None \<Rightarrow> (Raise Json_exception, sg)
      | Some s \<Rightarrow>
          (case configured_type s of
             None \<Rightarrow> (Ret (-1), sg)
           | Some t \<Rightarrow>
               (case configureSignal J C A (junk i) (start i) t i val sg of
                  (fl, sg') \<Rightarrow> if fl = Ret 0 then configure_signals J C A junk start es sg' else (fl, sg'))))"

definition configure ::
  "'j json_lib \<Rightarrow> ('j, 'f, 'v) config_json \<Rightarrow> ('f, 'v) arith \<Rightarrow> (u32 \<times> string) \<times> (u32 \<times> string) \<Rightarrow>
   (string \<Rightarrow> (u32 \<times> string) \<times> (u32 \<times> string)) \<Rightarrow> (string \<Rightarrow> u64) \<Rightarrow> 'j \<Rightarrow> ('j, 'f, 'v, 'w) generator block" where
  "configure J C A junkTimes junk start configJson sg =
     (let sg1 = generator_clear sg
      in case or_json (j_value_string J configJson ''processPeriod'' []) (\<lambda>processString.
              or_undefined (durationFromString (fst (fst junkTimes)) (snd (fst junkTimes)) processString 10000) (\<lambda>processPeriod.
              or_json (j_value_string J configJson ''executionTime'' []) (\<lambda>executionString.
              or_undefined (durationFromString (fst (snd junkTimes)) (snd (snd junkTimes)) executionString 10000000000) (\<lambda>executionTime.
                Inr (processPeriod, executionTime))))) of
           Inl e \<Rightarrow> (Raise e, sg1)
         | Inr (processPeriod, executionTime) \<Rightarrow>
             let sg2 = configureTimes processPeriod executionTime sg1
             in case j_index_const J configJson ''signals'' of
                  Inl e \<Rightarrow> (Raise e, sg2)
                | Inr signals \<Rightarrow> configure_signals J C A junk start (cj_entries C signals) sg2)"


text \<open>The content of the file, if it can be opened, is an argument; only parse errors are caught.\<close>

definition configureFromFile ::
  "'j json_lib \<Rightarrow> ('j, 'f, 'v) config_json \<Rightarrow> ('f, 'v) arith \<Rightarrow> (u32 \<times> string) \<times> (u32 \<times> string) \<Rightarrow>
   (string \<Rightarrow> (u32 \<times> string) \<times> (u32 \<times> string)) \<Rightarrow> (string \<Rightarrow> u64) \<Rightarrow> string option \<Rightarrow> ('j, 'f, 'v, 'w) generator block" where
  "configureFromFile J C A junkTimes junk start configFile sg =
     (case configFile of
        None \<Rightarrow> (Ret (-1), sg)
      | Some content \<Rightarrow>
          (case j_parse J content of
             None \<Rightarrow> (Ret (-1), sg)
           | Some configJson \<Rightarrow> configure J C A junkTimes junk start configJson sg))"

section \<open>Default signals\<close>

definition double_parameters ::
  "('f, 'v) arith \<Rightarrow> function_type \<Rightarrow> rat \<Rightarrow> rat \<Rightarrow> rat \<Rightarrow> rat \<Rightarrow> ('f, 'v) function_parameters" where
  "double_parameters A f ampl offs freq duty =
     \<lparr>functionType = f, amplitude = v_of_double A Dt_double (f_lit A ampl), offset_level = v_of_double A Dt_double (f_lit A offs),
      frequency = f_lit A freq, dutyCycle = f_lit A duty, fn_range = Range_clear, fn_postScaling = PostScaling_clear\<rparr>"

definition int32_parameters :: "('f, 'v) arith \<Rightarrow> ('f, 'v) function_parameters" where
  "int32_parameters A =
     \<lparr>functionType = FUNCTION_TYPE_SAWTOOTH, amplitude = v_of_int A Dt_int32 160000, offset_level = v_of_int A Dt_int32 0,
      frequency = f_lit A 1, dutyCycle = f_lit A 0, fn_range = Range_clear, fn_postScaling = PostScaling_clear\<rparr>"

text \<open>The calls of \<open>addSignals\<close> in their order; the duty cycle of the first stays set for the next two.\<close>

definition addSignals_default ::
  "'j json_lib \<Rightarrow> ('f, 'v) arith \<Rightarrow> (string \<Rightarrow> u64) \<Rightarrow> ('j, 'f, 'v, 'w) generator \<Rightarrow> ('j, 'f, 'v, 'w) generator" where
  "addSignals_default J A start sg = fold (\<lambda>f sg. snd (f sg)) [
     addExplicitTimeSignal J ''async_time'' ''table_50ms'' 50000000 (start ''async_time''),
     addAsynchronousSignal J A Dt_double ''async_square'' ''table_50ms'' ''async_time''
       (double_parameters A FUNCTION_TYPE_RECTANGLE (5/2) (3/2) 1 (1/2)) 50000000,
     addLinearTimeSignal J ''sine_time'' ''table_10ms'' 10000000 (start ''sine_time''),
     addSynchronousSignal J A Dt_double ''sine'' ''table_10ms'' ''sine_time''
       (double_parameters A FUNCTION_TYPE_SINE 10 0 (1/10) (1/2)) 10000000 0,
     addLinearTimeSignal J ''saw_tooth_time'' ''table_100ms'' 100000000 (start ''saw_tooth_time''),
     addSynchronousSignal J A Dt_double ''saw_tooth'' ''table_100ms'' ''saw_tooth_time''
       (double_parameters A FUNCTION_TYPE_SAWTOOTH (5/2) 0 (1/5) (1/2)) 100000000 0,
     addSynchronousSignal J A Dt_double ''saw_tooth_2'' ''table_100ms'' ''saw_tooth_time''
       (double_parameters A FUNCTION_TYPE_SAWTOOTH (5/2) 0 (1/5) (1/2)) 100000000 100,
     addSynchronousSignal J A Dt_double ''impulse'' ''table_100ms'' ''saw_tooth_time''
       (double_parameters A FUNCTION_TYPE_IMPULSE (5/2) 0 (1/2) 0) 100000000 0,
     addLinearTimeSignal J ''slow_counter_time'' ''table_1s'' 1000000000 (start ''slow_counter_time''),
     addSynchronousSignal J A Dt_int32 ''slow_counter'' ''table_1s'' ''slow_counter_time'' (int32_parameters A) 1000000000 0] sg"

text \<open>\<open>Worker::threadFunction\<close>; the generator is only started when the configuration succeeds.\<close>

definition threadFunction ::
  "'j json_lib \<Rightarrow> ('j, 'f, 'v) config_json \<Rightarrow> 'w stream_io \<Rightarrow> ('f, 'v) arith \<Rightarrow> bool \<Rightarrow> hangup_point option \<Rightarrow>
   (u32 \<times> string) \<times> (u32 \<times> string) \<Rightarrow> (string \<Rightarrow> (u32 \<times> string) \<times> (u32 \<times> string)) \<Rightarrow> (string \<Rightarrow> u64) \<Rightarrow>
   (string \<Rightarrow> string option) \<Rightarrow> string \<Rightarrow> ('j, 'f, 'v, 'w) generator \<Rightarrow>
   (flow \<times> ('j, 'f, 'v, 'w) generator \<times> 'w producer_session option) option" where
  "threadFunction J C S A ns hangup junkTimes junk start files configFileName sg =
     (let (fl, sg1) =
        (if configFileName = [] then (Next, configureTimes 100000000 10000000000 (addSignals_default J A start sg))
         else (case configureFromFile J C A junkTimes junk start (files configFileName) sg of
                 (fl, sg') \<Rightarrow> (if fl = Ret 0 then Next else fl, sg')))
      in if fl \<noteq> Next then Some (fl, sg1, None)
         else map_option (\<lambda>(fl, sg', s). (fl, sg', Some s)) (generator_start J S A ns hangup sg1))"


section \<open>The generator's signals\<close>

text \<open>The entries are sorted by id, an id has one entry, and it is the id of its signal.\<close>

definition signals_ok :: "(string \<times> ('j, 'f, 'v) generated_signal) list \<Rightarrow> bool" where
  "signals_ok gs \<longleftrightarrow> sorted (map fst gs) \<and> distinct (map fst gs) \<and> (\<forall>(i, g) \<in> set gs. getId (getSignal g) = i)"

definition generator_ok :: "('j, 'f, 'v, 'w) generator \<Rightarrow> bool" where
  "generator_ok sg \<longleftrightarrow> signals_ok (sg_signals sg)"

datatype ('j, 'f, 'v) generator_op =
    Add_synchronous data_type string string string "('f, 'v) function_parameters" int u64
  | Add_asynchronous data_type string string string "('f, 'v) function_parameters" int
  | Add_linear string string int u64
  | Add_explicit string string int u64
  | Remove_signal string
  | Clear_signals
  | Times int int
  | Configure 'j
  | Default_signals
  | Stop_generator
  | Cycle

fun generator_exec ::
  "'j json_lib \<Rightarrow> ('j, 'f, 'v) config_json \<Rightarrow> ('f, 'v) arith \<Rightarrow> bool \<Rightarrow> ('j, 'w) iwriter \<Rightarrow>
   (u32 \<times> string) \<times> (u32 \<times> string) \<Rightarrow> (string \<Rightarrow> (u32 \<times> string) \<times> (u32 \<times> string)) \<Rightarrow> (string \<Rightarrow> u64) \<Rightarrow>
   ('j, 'f, 'v) generator_op \<Rightarrow> ('j, 'f, 'v, 'w) generator \<Rightarrow> ('j, 'f, 'v, 'w) generator" where
  "generator_exec J C A ns W jt junk start (Add_synchronous t i tab ti p sp v) sg = snd (addSynchronousSignal J A t i tab ti p sp v sg)"
| "generator_exec J C A ns W jt junk start (Add_asynchronous t i tab ti p sp) sg = snd (addAsynchronousSignal J A t i tab ti p sp sg)"
| "generator_exec J C A ns W jt junk start (Add_linear i tab sp st) sg = snd (addLinearTimeSignal J i tab sp st sg)"
| "generator_exec J C A ns W jt junk start (Add_explicit i tab sp st) sg = snd (addExplicitTimeSignal J i tab sp st sg)"
| "generator_exec J C A ns W jt junk start (Remove_signal i) sg = snd (generator_removeSignal i sg)"
| "generator_exec J C A ns W jt junk start Clear_signals sg = generator_clear sg"
| "generator_exec J C A ns W jt junk start (Times p e) sg = configureTimes p e sg"
| "generator_exec J C A ns W jt junk start (Configure j) sg = snd (configure J C A jt junk start j sg)"
| "generator_exec J C A ns W jt junk start Default_signals sg = addSignals_default J A start sg"
| "generator_exec J C A ns W jt junk start Stop_generator sg = generator_stop sg"
| "generator_exec J C A ns W jt junk start Cycle sg = snd (loop_cycle A ns W sg)"

lemma insert_generated_ok:
  assumes "generator_ok sg" and "\<And>c. getId (getSignal (fst (create c))) = i"
  shows "generator_ok (snd (insert_generated i create sg))"
  using assms
  by (auto simp: insert_generated_def generator_ok_def signals_ok_def case_prod_beta map_insort_key sorted_insort distinct_insort
      set_insort_key)

lemma created_ids:
  "getId (getSignal (fst (map_prod Generated_synchronous id (GeneratedSynchronousSignal_init J A t i tab ti p sp now v c)))) = i"
  "getId (getSignal (fst (map_prod Generated_asynchronous id (GeneratedAsynchronousSignal_init J A t i tab ti p sp now c)))) = i"
  "getId (getSignal (fst (GeneratedTimeSignal_linear J i tab sp tps st c))) = i"
  "getId (getSignal (fst (GeneratedTimeSignal_explicit J i tab sp tps st c))) = i"
  by (simp_all add: getSignal_def GeneratedTimeSignal_linear_def GeneratedTimeSignal_explicit_def GeneratedSynchronousSignal_init_def GeneratedAsynchronousSignal_init_def SynchronousSignal_init_def
      AsynchronousSignal_init_def BaseValueSignal_init_def describe_generated_def setRelatedSignals_def setPostScaling_def setRange_def
      LinearTimeSignal_init_def ExplicitTimeSignal_init_def BaseDomainSignal_init_def case_prod_beta)

lemma add_signals_ok:
  assumes "generator_ok sg"
  shows "generator_ok (snd (addSynchronousSignal J A t i tab ti p sp v sg))"
    and "generator_ok (snd (addAsynchronousSignal J A t i tab ti p sp sg))"
    and "generator_ok (snd (addLinearTimeSignal J i tab sp st sg))"
    and "generator_ok (snd (addExplicitTimeSignal J i tab sp st sg))"
  unfolding addSynchronousSignal_def addAsynchronousSignal_def addLinearTimeSignal_def addExplicitTimeSignal_def
  by (intro insert_generated_ok assms created_ids)+

text \<open>Processing leaves the ids alone.\<close>

lemma samples_id:
  "bs_id (gv_signal (snd (synchronous_samples A n v))) = bs_id (gv_signal v)"
  "bs_id (gv_signal (snd (asynchronous_samples A ns n v'))) = bs_id (gv_signal v')"
  "bs_id (fst (snd (synchronous_addData W d m s w))) = bs_id s"
proof -
  show "bs_id (gv_signal (snd (synchronous_samples A n v))) = bs_id (gv_signal v)"
    by (induction n arbitrary: v) (simp_all add: case_prod_beta advance_sample_def)
  show "bs_id (gv_signal (snd (asynchronous_samples A ns n v'))) = bs_id (gv_signal v')"
    by (induction n arbitrary: v') (simp_all add: case_prod_beta advance_sample_def)
qed (simp add: synchronous_addData_def case_prod_beta Let_def split: value_rule.split)

lemma generated_process_id: "getId (getSignal (fst (snd (generated_process A ns W t g w)))) = getId (getSignal g)"
  by (cases g) (simp_all add: generated_process_def getSignal_def synchronous_process_def asynchronous_process_def case_prod_beta
      samples_id split: option.split)

lemma process_generated_ok:
  "signals_ok gs \<Longrightarrow> process_generated A ns W t gs w = (fl, gs', w') \<Longrightarrow> map fst gs' = map fst gs \<and> signals_ok gs'"
proof (induction gs arbitrary: w fl gs' w')
  case (Cons e gs)
  obtain i g where e: "e = (i, g)" by (cases e)
  obtain r g' w1 where p: "generated_process A ns W t g w = (r, g', w1)" by (cases "generated_process A ns W t g w") auto
  have "getId (getSignal g') = i" using generated_process_id [of A ns W t g w] p Cons.prems(1) e by (simp add: signals_ok_def)
  moreover obtain fl2 gs2 w2 where q: "process_generated A ns W t gs w1 = (fl2, gs2, w2)" using prod_cases3 by blast
  moreover have "signals_ok gs" using Cons.prems(1) by (simp add: signals_ok_def)
  from Cons.IH [OF this q] have "map fst gs2 = map fst gs" "signals_ok gs2" by simp_all
  moreover from this have "fst ` set gs2 = fst ` set gs" by (metis list.set_map)
  ultimately show ?case
    using Cons.prems e p by (auto simp: signals_ok_def split: sum.splits if_splits)
qed simp

lemma configure_signals_ok: "generator_ok sg \<Longrightarrow> generator_ok (snd (configure_signals J C A junk start es sg))"
proof (induction es arbitrary: sg)
  case (Cons e es)
  obtain i j where e: "e = (i, j)" by (cases e)
  have ok: "generator_ok (snd (configureSignal J C A (junk i) (start i) t i j sg))" for t
    using Cons.prems by (auto simp: configureSignal_def add_configured_def intro!: add_signals_ok split: option.split sum.split)
  show ?case using Cons.IH ok Cons.prems e by (auto simp: case_prod_beta split: option.split)
qed simp

lemma configure_ok: "generator_ok (snd (configure J C A jt junk start j sg))"
proof -
  have "generator_ok (generator_clear sg)" "generator_ok (configureTimes p e (generator_clear sg))" for p e
    by (simp_all add: generator_ok_def signals_ok_def generator_clear_def configureTimes_def)
  then show ?thesis by (simp add: configure_def Let_def configure_signals_ok split: sum.split prod.split)
qed

lemma generator_exec_ok: "generator_ok sg \<Longrightarrow> generator_ok (generator_exec J C A ns W jt junk start op sg)"
proof (cases op)
  case (Remove_signal i)
  assume "generator_ok sg"
  with Remove_signal show ?thesis
    by (auto simp: generator_ok_def signals_ok_def generator_removeSignal_def sorted_filter distinct_map_filter)
next
  case Cycle
  assume "generator_ok sg"
  moreover obtain fl gs w where "process_generated A ns W (sg_time sg) (sg_signals sg) (sg_stream sg) = (fl, gs, w)"
    using prod_cases3 by blast
  ultimately show ?thesis
    using process_generated_ok [of "sg_signals sg" A ns W] Cycle by (auto simp: loop_cycle_def generator_ok_def Let_def)
next
  case Default_signals
  assume "generator_ok sg"
  then show ?thesis unfolding Default_signals generator_exec.simps addSignals_default_def by (simp add: add_signals_ok)
next
  case Clear_signals
  then show ?thesis by (simp add: generator_ok_def signals_ok_def generator_clear_def)
qed (simp_all add: add_signals_ok configure_ok, simp_all add: generator_ok_def configureTimes_def generator_stop_def)

interpretation generator_machine: machine "SignalGenerator_init now w e p x c" "generator_exec J C A ns W jt junk start" generator_ok
proof
  show "generator_ok (SignalGenerator_init now w e p x c)" by (simp add: generator_ok_def signals_ok_def SignalGenerator_init_def)
qed (rule generator_exec_ok)


section \<open>Durations as text\<close>







text \<open>The ids of the generator's signals, and what the configuration adds to them.\<close>

definition generated_ids :: "('j, 'f, 'v, 'w) generator \<Rightarrow> string set" where
  "generated_ids sg = fst ` set (sg_signals sg)"

lemma insert_generated_ids:
  "generated_ids (snd (insert_generated i create sg)) = insert i (generated_ids sg)"
  "signalCount (snd (insert_generated i create sg)) = (if i \<in> generated_ids sg then 0 else 1) + signalCount sg"
  by (auto simp: generated_ids_def insert_generated_def signalCount_def set_insort_key case_prod_beta)

text \<open>An entry that is there stays as it is; a new one is the signal that was created.\<close>

lemma insert_generated_keeps:
  "e \<in> set (sg_signals sg) \<Longrightarrow> e \<in> set (sg_signals (snd (insert_generated i create sg)))"
  by (auto simp: insert_generated_def set_insort_key case_prod_beta)


lemma time_signal_id_other [simp]: "time_signal_id i \<noteq> i" "i \<noteq> time_signal_id i"
proof -
  have "length (time_signal_id i) \<noteq> length i" by (simp add: time_signal_id_def)
  then show "time_signal_id i \<noteq> i" "i \<noteq> time_signal_id i" by metis+
qed



lemma add_configured_ids:
  "generated_ids (add_configured J A st t i sc sg) = {i, time_signal_id i} \<union> generated_ids sg"
  "signalCount (add_configured J A st t i sc sg) =
     (if i \<in> generated_ids sg then 0 else 1) + (if time_signal_id i \<in> generated_ids sg then 0 else 1) + signalCount sg"
  "set (sg_signals sg) \<subseteq> set (sg_signals (add_configured J A st t i sc sg))"
proof -
  note adds = addSynchronousSignal_def addAsynchronousSignal_def addLinearTimeSignal_def addExplicitTimeSignal_def
  show "generated_ids (add_configured J A st t i sc sg) = {i, time_signal_id i} \<union> generated_ids sg"
    "signalCount (add_configured J A st t i sc sg) =
      (if i \<in> generated_ids sg then 0 else 1) + (if time_signal_id i \<in> generated_ids sg then 0 else 1) + signalCount sg"
    by (simp_all add: add_configured_def adds insert_generated_ids)
  show "set (sg_signals sg) \<subseteq> set (sg_signals (add_configured J A st t i sc sg))"
    unfolding add_configured_def adds by (intro subsetI) (simp add: insert_generated_keeps)
qed


lemma read_signal_explicitTime:
  "read_signal J C A junk t i f j = Inr sc \<Longrightarrow> cj_bool C j ''explicitTime'' False = Some (sc_explicitTime sc)"
  by (auto simp: read_signal_def or_json_def or_undefined_def split: option.splits sum.splits)

lemma configureSignal_adds:
  assumes "configureSignal J C A junk start t i j sg = (fl, sg')"
  obtains (added) sc where "fl = Ret 0" "sg' = add_configured J A start t i sc sg"
      "cj_bool C j ''explicitTime'' False = Some (sc_explicitTime sc)"
    | (failed) "fl \<noteq> Ret 0" "sg' = sg"
  using assms read_signal_explicitTime [of J C A junk t i _ j]
  by (auto simp: configureSignal_def split: option.splits sum.splits)

lemma configureSignal_ids:
  assumes "configureSignal J C A junk start t i j sg = (fl, sg')"
  shows "generated_ids sg' = (if fl = Ret 0 then {i, time_signal_id i} else {}) \<union> generated_ids sg"
  using assms by (cases rule: configureSignal_adds) (auto simp: add_configured_ids)





section \<open>Properties\<close>



text \<open>
  C28: the generator's signals. Whatever signals are added and removed, however the generator is
  configured and processed, in any order: its map has one entry for each id, sorted by id,
  and every entry stands under the id of its signal.
\<close>

theorem generator_signals:
  "let gs = sg_signals (fold (generator_exec J C A ns W jt junk start) ops (SignalGenerator_init now w e p x c))
   in sorted (map fst gs) \<and> distinct (map fst gs) \<and> (\<forall>(i, g) \<in> set gs. getId (getSignal g) = i)"
  using generator_machine.good_run [of J C A ns W jt junk start ops now w e p x c]
  by (simp add: generator_ok_def signals_ok_def Let_def)

text \<open>A library for the configuration in which every parameter is left out.\<close>

definition defaults_json :: "('j, 'f, 'v) config_json" where
  "defaults_json = \<lparr>cj_bool = (\<lambda>j k d. Some d), cj_object = (\<lambda>j k. Some j), cj_bits = (\<lambda>j k d. Some d),
     cj_double = (\<lambda>j k d. Some d), cj_value = (\<lambda>t j k d. Some d), cj_entries = (\<lambda>j. [])\<rparr>"

theorem generator_signals_witness:
  "(let gs = sg_signals (fold (generator_exec tree_lib defaults_json real_arith True (StreamWriter tree_lib memory_stream)
        ((0, []), (0, [])) (\<lambda>i. ((0, []), (0, []))) (\<lambda>i. 0)) [Default_signals, Cycle, Remove_signal ''sine''] (SignalGenerator_init 0 [] 0 0 0 0))
    in distinct (map fst gs))"
  using generator_signals [of tree_lib defaults_json real_arith True "StreamWriter tree_lib memory_stream" "((0, []), (0, []))"
      "\<lambda>i. ((0, []), (0, []))" "\<lambda>i. 0" "[Default_signals, Cycle, Remove_signal ''sine'']" 0 "[]" 0 0 0 0]
  unfolding Let_def by (elim conjE)



end
