(* ===== verification/Generator_Programs.thy ===== *)
theory Generator_Programs
  imports Generator_Config
begin

text \<open>
  The programs of the signal generator: \<open>siggen2socket\<close> and \<open>siggen2websocket\<close>, which serve
  every client that connects with a worker of its own, and \<open>siggen2file\<close>. Shown: which port
  the text of an argument gives, and that the default configuration is one whose signals fit
  their time signals and with which the programs end.
\<close>

section \<open>Arguments\<close>

text \<open>\<open>std::strtoul\<close> with base 10: 0 without a number, the largest value for one that does not fit.\<close>

definition strtoul :: "string \<Rightarrow> u64" where
  "strtoul s = (case scan_number s of
     None \<Rightarrow> 0
   | Some (neg, n) \<Rightarrow> if 2 ^ 64 \<le> n then - 1 else if neg then - word_of_nat n else word_of_nat n)"

definition StreamingPort :: "16 word" where
  "StreamingPort = 7411"

text \<open>Port and name of the configuration file from the arguments behind the name of the program.\<close>

definition server_arguments :: "string list \<Rightarrow> 16 word \<times> string" where
  "server_arguments args =
     (case args of [] \<Rightarrow> StreamingPort | p # _ \<Rightarrow> ucast (strtoul p),
      case args of _ # configFile # _ \<Rightarrow> configFile | _ \<Rightarrow> [])"

section \<open>Programs\<close>

text \<open>
  \<open>AcceptCb\<close>: a worker with a generator of its own on the new stream. \<open>now\<close> is the time of its
  construction, \<open>junk_members\<close> what is uninitialised in it, \<open>counter\<close> the next signal number.
\<close>

definition AcceptCb ::
  "'j json_lib \<Rightarrow> ('j, 'f, 'v) config_json \<Rightarrow> 'w stream_io \<Rightarrow> ('f, 'v) arith \<Rightarrow> bool \<Rightarrow> hangup_point option \<Rightarrow>
   (u32 \<times> string) \<times> (u32 \<times> string) \<Rightarrow> (string \<Rightarrow> (u32 \<times> string) \<times> (u32 \<times> string)) \<Rightarrow> (string \<Rightarrow> u64) \<Rightarrow>
   (string \<Rightarrow> string option) \<Rightarrow> string \<Rightarrow> int \<Rightarrow> int \<times> int \<times> int \<Rightarrow> u32 \<Rightarrow> 'w \<Rightarrow>
   (flow \<times> ('j, 'f, 'v, 'w) generator \<times> 'w producer_session option) option" where
  "AcceptCb J C S A ns hangup junkTimes junk start files configFile now junk_members counter newStream =
     (case junk_members of (endTime, processPeriod, executionTime) \<Rightarrow>
        threadFunction J C S A ns hangup junkTimes junk start files configFile
          (SignalGenerator_init now newStream endTime processPeriod executionTime counter))"

text \<open>
  \<open>main\<close> of \<open>siggen2file\<close>: \<open>ec\<close> is the result of opening the file. The outcome is the exit
  code, or the exception that leaves \<open>main\<close>.
\<close>

definition siggen2file ::
  "'j json_lib \<Rightarrow> ('j, 'f, 'v) config_json \<Rightarrow> 'w stream_io \<Rightarrow> ('f, 'v) arith \<Rightarrow> bool \<Rightarrow> hangup_point option \<Rightarrow>
   (u32 \<times> string) \<times> (u32 \<times> string) \<Rightarrow> (string \<Rightarrow> (u32 \<times> string) \<times> (u32 \<times> string)) \<Rightarrow> (string \<Rightarrow> u64) \<Rightarrow>
   (string \<Rightarrow> string option) \<Rightarrow> string list \<Rightarrow> error_code \<Rightarrow> int \<Rightarrow> int \<times> int \<times> int \<Rightarrow> u32 \<Rightarrow> 'w \<Rightarrow>
   ((exn + nat) \<times> ('j, 'f, 'v, 'w) generator) option" where
  "siggen2file J C S A ns hangup junkTimes junk start files args ec startTime junk_members counter fileStream =
     (case junk_members of (endTime, processPeriod, executionTime) \<Rightarrow>
        let signalGenerator = SignalGenerator_init startTime fileStream endTime processPeriod executionTime counter
        in if ec \<noteq> 0 then Some (Inr 1, signalGenerator)
           else
             (case (case args of
                      configFile # _ \<Rightarrow> configureFromFile J C A junkTimes junk start (files configFile) signalGenerator
                    | [] \<Rightarrow> (Ret 0, configureTimes 10000 10000000000 (addSignals_default J A start signalGenerator))) of
                (Raise e, sg) \<Rightarrow> Some (Inl e, sg)
              | (fl, sg) \<Rightarrow>
                  if fl \<noteq> Ret 0 then Some (Inr 1, sg)
                  else map_option (\<lambda>(fl, sg', s). (case fl of Raise e \<Rightarrow> Inl e | _ \<Rightarrow> Inr 0, sg'))
                         (generator_start J S A ns hangup sg)))"

section \<open>Signals and their time signals\<close>

definition provides :: "('j, 'f, 'v, 'w) generator \<Rightarrow> string \<Rightarrow> string \<Rightarrow> domain_rule \<Rightarrow> bool" where
  "provides sg i tab r \<longleftrightarrow> (\<exists>T. (i, Generated_time T) \<in> set (sg_signals sg) \<and> bs_tableId T = tab \<and> ds_rule T = r)"

text \<open>
  A signal that has a time signal of its table. The delta of a linear one is the sample period
  of the signal itself, multiplied by the ticks in a second and divided by the nanoseconds in
  one, which are the same number, in 64 bits: the product wraps for periods above 18446744073 ns
  (18.4 seconds), and up to that the delta is the period.
\<close>

fun timed_by :: "('j, 'f, 'v, 'w) generator \<Rightarrow> ('j, 'f, 'v) generated_signal \<Rightarrow> bool" where
  "timed_by sg (Generated_time T) \<longleftrightarrow> True"
| "timed_by sg (Generated_synchronous v) \<longleftrightarrow> (\<exists>i delta.
     vs_relatedSignals (gv_signal v) = [(META_TIME, i)] \<and> provides sg i (bs_tableId (gv_signal v)) (Linear_time delta) \<and>
     delta = word_of_int (1000000000 * gv_samplePeriod v) div 1000000000 \<and>
     (0 \<le> gv_samplePeriod v \<and> gv_samplePeriod v \<le> 18446744073 \<longrightarrow> delta = word_of_int (gv_samplePeriod v)))"
| "timed_by sg (Generated_asynchronous a) \<longleftrightarrow> (\<exists>i.
     vs_relatedSignals (gv_signal a) = [(META_TIME, i)] \<and> provides sg i (bs_tableId (gv_signal a)) Explicit_time)"

definition all_timed :: "('j, 'f, 'v, 'w) generator \<Rightarrow> bool" where
  "all_timed sg \<longleftrightarrow> (\<forall>(i, g) \<in> set (sg_signals sg). timed_by sg g)"

lemma provides_insert: "provides sg i tab r \<Longrightarrow> provides (snd (insert_generated k create sg)) i tab r"
  by (auto simp: provides_def insert_generated_def set_insort_key case_prod_beta)

lemma provides_new:
  assumes "i \<notin> generated_ids sg" and "fst (create (sg_counter sg)) = Generated_time T" and "bs_tableId T = tab" and "ds_rule T = r"
  shows "provides (snd (insert_generated i create sg)) i tab r"
  using assms by (auto simp: provides_def insert_generated_def generated_ids_def set_insort_key case_prod_beta)

lemma timed_insert: "timed_by sg g \<Longrightarrow> timed_by (snd (insert_generated k create sg)) g"
  using provides_insert by (cases g) (simp_all, blast+)

lemma all_timed_insert:
  assumes "all_timed sg" and "timed_by sg (fst (create (sg_counter sg)))"
  shows "all_timed (snd (insert_generated i create sg))"
proof -
  have "set (sg_signals (snd (insert_generated i create sg))) \<subseteq> insert (i, fst (create (sg_counter sg))) (set (sg_signals sg))"
    by (auto simp: insert_generated_def set_insort_key case_prod_beta)
  then show ?thesis using assms timed_insert [of sg _ i create] by (fastforce simp: all_timed_def)
qed

lemma rate_of_period:
  assumes "0 \<le> p" and "p \<le> 18446744073"
  shows "ticks_of_rate 1000000000 (word_of_int p) = word_of_int p"
proof -
  define n where "n = nat p"
  have n: "n \<le> 18446744073" "word_of_int p = (word_of_nat n :: u64)" using assms by (simp_all add: n_def)
  then have "unat (1000000000 * word_of_nat n :: u64) = 1000000000 * n" by (simp add: unat_word_ariths unat_of_nat)
  then show ?thesis unfolding ticks_of_rate_def n(2) using n(1) by (simp add: word_unat_eq_iff unat_div unat_of_nat)
qed

lemma rate_exact: "ticks_of_rate 1000000000 (word_of_int p) = word_of_int (1000000000 * p) div 1000000000"
  by (simp add: ticks_of_rate_def)

lemmas generated_inits = GeneratedTimeSignal_linear_def GeneratedTimeSignal_explicit_def GeneratedSynchronousSignal_init_def
  GeneratedAsynchronousSignal_init_def SynchronousSignal_init_def AsynchronousSignal_init_def BaseValueSignal_init_def
  describe_generated_def setRelatedSignals_def setPostScaling_def setRange_def LinearTimeSignal_init_def
  ExplicitTimeSignal_init_def BaseDomainSignal_init_def

text \<open>The four functions that add a signal.\<close>

lemma add_linear:
  fixes sg :: "('j, 'f, 'v, 'w) generator" and J :: "'j json_lib" and i tab :: string and sp :: int and st :: u64
  defines "sg' \<equiv> snd (addLinearTimeSignal J i tab sp st sg)"
  shows "provides sg k tab' r \<Longrightarrow> provides sg' k tab' r"
    and "i \<notin> generated_ids sg \<Longrightarrow> provides sg' i tab (Linear_time (ticks_of_rate 1000000000 (word_of_int sp)))"
    and "all_timed sg \<Longrightarrow> all_timed sg'" and "generated_ids sg' = insert i (generated_ids sg)"
proof -
  show "all_timed sg \<Longrightarrow> all_timed sg'"
    unfolding sg'_def addLinearTimeSignal_def by (erule all_timed_insert) (simp add: generated_inits case_prod_beta)
  show "i \<notin> generated_ids sg \<Longrightarrow> provides sg' i tab (Linear_time (ticks_of_rate 1000000000 (word_of_int sp)))"
    unfolding sg'_def addLinearTimeSignal_def by (erule provides_new, simp add: generated_inits case_prod_beta, simp_all)
qed (simp_all add: sg'_def addLinearTimeSignal_def provides_insert insert_generated_ids)

lemma add_explicit:
  fixes sg :: "('j, 'f, 'v, 'w) generator" and J :: "'j json_lib" and i tab :: string and sp :: int and st :: u64
  defines "sg' \<equiv> snd (addExplicitTimeSignal J i tab sp st sg)"
  shows "provides sg k tab' r \<Longrightarrow> provides sg' k tab' r"
    and "i \<notin> generated_ids sg \<Longrightarrow> provides sg' i tab Explicit_time"
    and "all_timed sg \<Longrightarrow> all_timed sg'" and "generated_ids sg' = insert i (generated_ids sg)"
proof -
  show "all_timed sg \<Longrightarrow> all_timed sg'"
    unfolding sg'_def addExplicitTimeSignal_def by (erule all_timed_insert) (simp add: generated_inits case_prod_beta)
  show "i \<notin> generated_ids sg \<Longrightarrow> provides sg' i tab Explicit_time"
    unfolding sg'_def addExplicitTimeSignal_def by (erule provides_new, simp add: generated_inits case_prod_beta, simp_all)
qed (simp_all add: sg'_def addExplicitTimeSignal_def provides_insert insert_generated_ids)

lemma add_synchronous:
  fixes sg :: "('j, 'f, 'v, 'w) generator" and J :: "'j json_lib" and A :: "('f, 'v) arith" and i tab ti :: string and sp :: int and v :: u64
    and t :: data_type and p :: "('f, 'v) function_parameters"
  defines "sg' \<equiv> snd (addSynchronousSignal J A t i tab ti p sp v sg)"
  shows "provides sg k tab' r \<Longrightarrow> provides sg' k tab' r"
    and "all_timed sg \<Longrightarrow> provides sg ti tab (Linear_time (ticks_of_rate 1000000000 (word_of_int sp))) \<Longrightarrow> all_timed sg'"
    and "generated_ids sg' = insert i (generated_ids sg)"
proof -
  assume "all_timed sg" "provides sg ti tab (Linear_time (ticks_of_rate 1000000000 (word_of_int sp)))"
  then show "all_timed sg'"
    unfolding sg'_def addSynchronousSignal_def
    by (intro all_timed_insert) (auto simp: generated_inits case_prod_beta rate_of_period [unfolded ticks_of_rate_def] rate_exact)
qed (simp_all add: sg'_def addSynchronousSignal_def provides_insert insert_generated_ids)

lemma add_asynchronous:
  fixes sg :: "('j, 'f, 'v, 'w) generator" and J :: "'j json_lib" and A :: "('f, 'v) arith" and i tab ti :: string and sp :: int
    and t :: data_type and p :: "('f, 'v) function_parameters"
  defines "sg' \<equiv> snd (addAsynchronousSignal J A t i tab ti p sp sg)"
  shows "provides sg k tab' r \<Longrightarrow> provides sg' k tab' r"
    and "all_timed sg \<Longrightarrow> provides sg ti tab Explicit_time \<Longrightarrow> all_timed sg'"
    and "generated_ids sg' = insert i (generated_ids sg)"
proof -
  assume "all_timed sg" "provides sg ti tab Explicit_time"
  then show "all_timed sg'"
    unfolding sg'_def addAsynchronousSignal_def by (intro all_timed_insert) (auto simp: generated_inits case_prod_beta)
qed (simp_all add: sg'_def addAsynchronousSignal_def provides_insert insert_generated_ids)

lemmas added_ids = add_linear(4) add_explicit(4) add_synchronous(3) add_asynchronous(3)
lemmas added_timed = add_linear(2,3) add_explicit(2,3) add_synchronous(2) add_asynchronous(2)
  add_linear(1) add_explicit(1) add_synchronous(1) add_asynchronous(1)

lemma default_timed:
  assumes "sg_signals sg = []"
  shows "all_timed (addSignals_default J A start sg)" and "card (generated_ids (addSignals_default J A start sg)) = 10"
proof -
  have sg: "all_timed sg" "generated_ids sg = {}" using assms by (simp_all add: all_timed_def generated_ids_def)
  show "all_timed (addSignals_default J A start sg)"
    unfolding addSignals_default_def fold_simps comp_def id_def
    by (rule added_timed sg | simp add: added_ids sg)+
  show "card (generated_ids (addSignals_default J A start sg)) = 10"
    unfolding addSignals_default_def by (simp add: added_ids sg)
qed

lemma configured_timed:
  assumes "all_timed sg" and "time_signal_id i \<notin> generated_ids sg"
  shows "all_timed (add_configured J A st t i sc sg)"
  unfolding add_configured_def by (simp, intro conjI impI; (rule added_timed assms)+)

lemma configured_run:
  assumes "configure_signals J C A junk start es sg = (Ret 0, sg')" and "all_timed sg"
    and "distinct (concat (map (\<lambda>(i, j). [i, time_signal_id i]) es))"
    and "\<forall>(i, j) \<in> set es. time_signal_id i \<notin> generated_ids sg"
  shows "all_timed sg'"
  using assms
proof (induction es arbitrary: sg)
  case (Cons e es)
  obtain i j where e: "e = (i, j)" by (cases e)
  obtain s t where st: "j_value_string J j META_DATATYPE DATA_TYPE_REAL64 = Some s" "configured_type s = Some t"
    using Cons.prems(1) e by (auto split: option.splits)
  obtain fl sg1 where c: "configureSignal J C A (junk i) (start i) t i j sg = (fl, sg1)" by fastforce
  then have run: "fl = Ret 0" "configure_signals J C A junk start es sg1 = (Ret 0, sg')"
    using Cons.prems(1) e st by (auto split: if_splits)
  obtain sc where "sg1 = add_configured J A (start i) t i sc sg"
    using c run(1) by (auto simp: configureSignal_def split: option.splits sum.splits)
  moreover have "time_signal_id i \<notin> generated_ids sg" using Cons.prems(4) e by simp
  ultimately have "all_timed sg1" using configured_timed [OF Cons.prems(2)] by simp
  moreover have "generated_ids sg1 = {i, time_signal_id i} \<union> generated_ids sg" using configureSignal_ids(1) [OF c] run(1) by simp
  then have "\<forall>(i', j') \<in> set es. time_signal_id i' \<notin> generated_ids sg1" using Cons.prems(3,4) e by auto
  ultimately show ?case using Cons.IH [OF run(2)] Cons.prems(3) e by simp
qed simp

section \<open>Properties\<close>

text \<open>Without a configuration the programs come to an end, however the session goes.\<close>

theorem default_programs_end:
  "(\<exists>r. AcceptCb J C S A ns hangup junkTimes junk start files [] now junk_members counter w = Some r) \<and>
   (\<exists>r. siggen2file J C S A ns hangup junkTimes junk start files [] ec now junk_members counter w = Some r)"
proof -
  have step: "0 < time_step ns 10000" "0 < time_step ns 100000000" by (simp_all add: time_step_def duration_div_def)
  have "\<exists>r. generator_start J S A ns hangup sg = Some r" if "0 < time_step ns (sg_processPeriod sg)" for sg
  proof -
    obtain s sg1 where s: "start_session J S A (set_endTime ns sg) = (s, sg1)" by fastforce
    then have "sg_processPeriod sg1 = sg_processPeriod sg" by (auto simp: start_session_def set_endTime_def Let_def split: prod.splits)
    then show ?thesis
      using generate_loop_total [of ns sg1 A "StreamWriter J S" hangup 0] that by (auto simp: generator_start_def s Let_def)
  qed
  then have "\<exists>r. generator_start J S A ns hangup (configureTimes p x sg) = Some r" if "p \<in> {10000, 100000000}" for p x sg
    using that step by (auto simp: configureTimes_def)
  then show ?thesis
    by (cases junk_members) (fastforce simp: AcceptCb_def siggen2file_def threadFunction_def Let_def split: prod.splits)
qed

text \<open>
  C30: signals and their time. After a configuration that is accepted, and in which the ids of the
  signals and of their time signals are all different, and with the default signals too, every
  synchronous signal of the generator is related to a linear time signal of its table, whose
  delta is the sample period of the signal itself if that is not above 18446744073 ns (18.4
  seconds) and otherwise the quotient of a product that has wrapped in 64 bits. Every asynchronous
  signal is related to an explicit time signal of its table.
\<close>

theorem signals_have_time:
  assumes "configure_signals J C A junk start es (generator_clear sg) = (Ret 0, sg')"
    and "distinct (concat (map (\<lambda>(i, j). [i, time_signal_id i]) es))"
  shows "all_timed sg' \<and> all_timed (addSignals_default J A start (generator_clear sg))"
proof -
  have "all_timed (generator_clear sg)" "generated_ids (generator_clear sg) = {}"
    by (simp_all add: all_timed_def generated_ids_def generator_clear_def)
  then have "all_timed sg'" using configured_run [OF assms(1) _ assms(2)] by simp
  moreover have "sg_signals (generator_clear sg) = []" by (simp add: generator_clear_def)
  ultimately show ?thesis using default_timed(1) by blast
qed

theorem signals_have_time_witness:
  "all_timed (snd (configure_signals tree_lib defaults_json real_arith (\<lambda>i. ((0, []), (0, []))) (\<lambda>i. 0)
     [(''x'', TObj [(''function'', TStr ''sine'')])]
     (generator_clear (SignalGenerator_init 0 [] 0 0 0 0 :: (jtree, real, real, byte list) generator))))"
proof -
  let ?sg = "SignalGenerator_init 0 [] 0 0 0 0 :: (jtree, real, real, byte list) generator"
  let ?j = "TObj [(''function'', TStr ''sine'')]"
  let ?run = "configure_signals tree_lib defaults_json real_arith (\<lambda>i. ((0, []), (0, []))) (\<lambda>i. 0) [(''x'', ?j)] (generator_clear ?sg)"
  have j: "j_value_string tree_lib ?j META_DATATYPE DATA_TYPE_REAL64 = Some DATA_TYPE_REAL64"
    "j_value_string tree_lib ?j ''function'' [] = Some ''sine''" "j_value_string tree_lib ?j ''delay'' [] = Some []"
    "j_value_string tree_lib ?j ''samplePeriod'' [] = Some []" "j_value_string tree_lib ?j META_TABLEID [] = Some []"
    by code_simp+
  have "durationFromString 0 [] [] 0 = Some 0" by (simp add: durationFromString_def sscanf_us_def micro_s_def)
  then have "fst ?run = Ret 0"
    by (simp add: j configured_type_def configureSignal_def function_of_def read_signal_def read_parameters_def or_json_def
        or_undefined_def defaults_json_def)
  then have "?run = (Ret 0, snd ?run)" by (metis prod.collapse)
  from signals_have_time [OF this] show ?thesis by (simp add: time_signal_id_def)
qed

end
