(* ===== verification/Streaming_Client.thy ===== *)
theory Streaming_Client
  imports Connection
begin

text \<open>
  The consumer application: values as doubles (\<open>SubscribedSignal::interpretValuesAsDouble\<close>) and
  the callbacks of the streaming client (\<open>tool/StreamingClient\<close>), which subscribes what becomes
  available, prints the values and counts them. Shown: which values the client gets to see,
  what it prints, and that an announcement of the producer leads to the subscription of exactly
  the announced signals.
\<close>

section \<open>Values as doubles\<close>

text \<open>\<open>static_cast<double>\<close> from a float, a double and an integer; \<open>'f\<close> stands for \<open>double\<close>.\<close>

record 'f conversions =
  cv_float :: "u32 \<Rightarrow> 'f"
  cv_double :: "u64 \<Rightarrow> 'f"
  cv_int :: "int \<Rightarrow> 'f"

text \<open>The type \<open>convert\<close> is instantiated with; unsigned 64 bit values are read as signed ones.\<close>

fun converted_as :: "sample_type \<Rightarrow> data_type option" where
  "converted_as SAMPLETYPE_REAL32 = Some Dt_float"
| "converted_as SAMPLETYPE_REAL64 = Some Dt_double"
| "converted_as SAMPLETYPE_U8 = Some Dt_uint8"
| "converted_as SAMPLETYPE_U16 = Some Dt_uint16"
| "converted_as SAMPLETYPE_U32 = Some Dt_uint32"
| "converted_as SAMPLETYPE_BITFIELD32 = Some Dt_uint32"
| "converted_as SAMPLETYPE_U64 = Some Dt_int64"
| "converted_as SAMPLETYPE_BITFIELD64 = Some Dt_int64"
| "converted_as SAMPLETYPE_S8 = Some Dt_int8"
| "converted_as SAMPLETYPE_S16 = Some Dt_int16"
| "converted_as SAMPLETYPE_S32 = Some Dt_int32"
| "converted_as SAMPLETYPE_S64 = Some Dt_int64"
| "converted_as _ = None"

text \<open>\<open>memcpy\<close> into a variable of the type, and its conversion.\<close>

fun read_value :: "'f conversions \<Rightarrow> data_type \<Rightarrow> byte list \<Rightarrow> 'f" where
  "read_value C Dt_int8 bs = cv_int C (sint (of_le bs :: 8 word))"
| "read_value C Dt_uint8 bs = cv_int C (uint (of_le bs :: 8 word))"
| "read_value C Dt_int16 bs = cv_int C (sint (of_le bs :: 16 word))"
| "read_value C Dt_uint16 bs = cv_int C (uint (of_le bs :: 16 word))"
| "read_value C Dt_int32 bs = cv_int C (sint (of_le bs :: 32 word))"
| "read_value C Dt_uint32 bs = cv_int C (uint (of_le bs :: 32 word))"
| "read_value C Dt_int64 bs = cv_int C (sint (of_le bs :: 64 word))"
| "read_value C Dt_float bs = cv_float C (of_le bs)"
| "read_value C _ bs = cv_double C (of_le bs)"

text \<open>The loop of \<open>convert\<close>: a read behind the end of the data is undefined.\<close>

fun convert :: "'f conversions \<Rightarrow> data_type \<Rightarrow> rule_type \<Rightarrow> byte list \<Rightarrow> nat \<Rightarrow> 'f list option" where
  "convert C t rule pData 0 = Some []"
| "convert C t rule pData (Suc count) =
     (let p = (if rule = RULETYPE_EXPLICIT then pData else drop 8 pData)
      in if length pData < (if rule = RULETYPE_EXPLICIT then 0 else 8) + dataType_size t then None
         else map_option ((#) (read_value C t (take (dataType_size t) p)))
                (convert C t rule (drop (dataType_size t) p) count))"

definition interpretValuesAsDouble ::
  "'f conversions \<Rightarrow> 'j signal \<Rightarrow> byte list \<Rightarrow> nat \<Rightarrow> (nat \<times> 'f list) option" where
  "interpretValuesAsDouble C s pData count =
     (case converted_as (s_valueType s) of
        None \<Rightarrow> Some (0, [])
      | Some t \<Rightarrow> map_option (\<lambda>vs. (count, vs)) (convert C t (s_rule s) pData count))"

section \<open>The callbacks of the client\<close>

text \<open>
  \<open>s_signalInfos\<close> with signal id and number of values, the values printed, and the time of a
  subscription left out. \<open>at\<close> throws \<open>std::out_of_range\<close>, a \<open>std::logic_error\<close>.
\<close>

record 'f client =
  cl_infos :: "u32 \<rightharpoonup> string \<times> u64"
  cl_printed :: "'f list"

definition DOUBLE_VALUE_BUFFER_SIZE :: nat where
  "DOUBLE_VALUE_BUFFER_SIZE = 1024"

text \<open>The loop of \<open>rawDataCb\<close>: \<open>pPos\<close> stays at the start of the data in every round.\<close>

function print_loop :: "'f conversions \<Rightarrow> 'j signal \<Rightarrow> byte list \<Rightarrow> nat \<Rightarrow> 'f list option" where
  "print_loop C s pPos valuesRemaining =
     (if valuesRemaining = 0 then Some []
      else
        let valuesToProcess = (if valuesRemaining > DOUBLE_VALUE_BUFFER_SIZE then DOUBLE_VALUE_BUFFER_SIZE else valuesRemaining)
        in case interpretValuesAsDouble C s pPos valuesToProcess of
             None \<Rightarrow> None
           | Some (valuesConverted, buffer) \<Rightarrow>
               map_option ((@) (take valuesConverted buffer)) (print_loop C s pPos (valuesRemaining - valuesToProcess)))"
  by pat_completeness auto

termination print_loop
  by (relation "measure (\<lambda>(C, s, p, n). n)") (auto simp: DOUBLE_VALUE_BUFFER_SIZE_def)

declare print_loop.simps [simp del]

definition rawDataCb :: "'f conversions \<Rightarrow> 'j signal \<Rightarrow> byte list \<Rightarrow> 'f client block" where
  "rawDataCb C s d cl =
     (if dataValueSize s = 0 then (Raise Undefined, cl)
      else
        let valueCount = size_of d div dataValueSize s
        in case print_loop C s d (unat valueCount) of
             None \<Rightarrow> (Raise Undefined, cl)
           | Some vs \<Rightarrow>
               let cl1 = cl\<lparr>cl_printed := cl_printed cl @ vs\<rparr>
               in case cl_infos cl1 (s_number s) of
                    None \<Rightarrow> (Raise Logic_error, cl1)
                  | Some (i, n) \<Rightarrow> (Next, cl1\<lparr>cl_infos := (cl_infos cl1)(s_number s \<mapsto> (i, n + valueCount))\<rparr>))"

text \<open>\<open>emplace\<close> leaves an entry alone that is there already.\<close>

definition client_signalMetaCb :: "'j signal \<Rightarrow> string \<Rightarrow> 'f client block" where
  "client_signalMetaCb s method cl =
     (if method = META_METHOD_SUBSCRIBE then
        (Ret 0, if cl_infos cl (s_number s) = None
                then cl\<lparr>cl_infos := (cl_infos cl)(s_number s \<mapsto> (s_id s, 0))\<rparr> else cl)
      else if method = META_METHOD_UNSUBSCRIBE then
        (if cl_infos cl (s_number s) = None then (Raise Logic_error, cl)
         else (Next, cl\<lparr>cl_infos := (cl_infos cl)(s_number s := None)\<rparr>))
      else (Next, cl))"

text \<open>
  \<open>streamMetaInformationCb\<close>, as far as it is not output: the signals that become available and
  match the filter are subscribed.
\<close>

definition streamMetaInformationCb ::
  "'j json_lib \<Rightarrow> string set \<Rightarrow> string \<Rightarrow> 'j \<Rightarrow> ('j, 'w) handler \<Rightarrow> u32 \<Rightarrow> exn + command_outcome option \<times> u32" where
  "streamMetaInformationCb J signalFilter method params h counter =
     (if method = META_METHOD_APIVERSION then map_sum id (\<lambda>_. (None, counter)) (j_index_const J params VERSION)
      else if method = META_METHOD_AVAILABLE then
        (case j_index_const J params META_SIGNALIDS of
           Inl e \<Rightarrow> Inl e
         | Inr elements \<Rightarrow>
             (case strings_of J (j_items J elements) of
                None \<Rightarrow> Inl Json_exception
              | Some signalIds \<Rightarrow>
                  Inr (subscribe J (filter (\<lambda>i. signalFilter = {} \<or> i \<in> signalFilter) signalIds) h counter)))
      else if method = META_METHOD_UNAVAILABLE then map_sum id (\<lambda>_. (None, counter)) (j_index_const J params META_SIGNALIDS)
      else if method = META_METHOD_ALIVE then
        (case j_find J params META_FILLLEVEL of
           None \<Rightarrow> Inr (None, counter)
         | Some v \<Rightarrow> (case j_to_uint32 J v of None \<Rightarrow> Inl Json_exception | Some fill \<Rightarrow> Inr (None, counter)))
      else Inr (None, counter))"

section \<open>Lemmas\<close>

lemma converted_as_size: "converted_as (getSampleType t) = Some t' \<Longrightarrow> dataType_size t' = dataType_size t"
  by (cases t) auto

lemma convert_explicit:
  assumes "\<forall>b \<in> set bs. length b = dataType_size t"
  shows "convert C t RULETYPE_EXPLICIT (concat bs @ rest) (length bs) = Some (map (read_value C t) bs)"
  using assms by (induction bs) simp_all

lemma interpret_explicit:
  assumes "\<forall>b \<in> set bs. length b = dataType_size t" and "converted_as (s_valueType s) = Some t" and "s_rule s = RULETYPE_EXPLICIT"
    and "n \<le> length bs"
  shows "interpretValuesAsDouble C s (concat bs) n = Some (n, take n (map (read_value C t) bs))"
proof -
  have "concat bs = concat (take n bs) @ concat (drop n bs)" by (metis append_take_drop_id concat_append)
  then show ?thesis
    using assms convert_explicit [of "take n bs" t C "concat (drop n bs)"]
    by (auto simp: interpretValuesAsDouble_def take_map dest: in_set_takeD)
qed

text \<open>What the loop prints: the first block of the values, over and over again.\<close>

lemma print_loop_explicit:
  fixes vs :: "'f list"
  assumes "\<forall>m \<le> length vs. interpretValuesAsDouble C s d m = Some (m, take m vs)" and "n \<le> length vs"
  shows "print_loop C s d n = Some (concat (replicate (n div 1024) (take 1024 vs)) @ take (n mod 1024) vs)"
  using assms(2)
proof (induction n rule: less_induct)
  case (less n)
  consider "n = 0" | "0 < n" "n < 1024" | "n = 1024" | "1024 < n" by linarith
  then show ?case
  proof cases
    case 4
    then have "print_loop C s d (n - 1024) =
        Some (concat (replicate ((n - 1024) div 1024) (take 1024 vs)) @ take ((n - 1024) mod 1024) vs)"
      using less.prems by (intro less.IH) simp_all
    moreover have "n div 1024 = Suc ((n - 1024) div 1024)" "n mod 1024 = (n - 1024) mod 1024"
      using 4 by (simp_all add: le_div_geq le_mod_geq)
    ultimately show ?thesis
      using 4 assms(1) less.prems by (subst print_loop.simps) (simp add: DOUBLE_VALUE_BUFFER_SIZE_def Let_def)
  qed (use assms(1) less.prems in \<open>(subst print_loop.simps, simp add: DOUBLE_VALUE_BUFFER_SIZE_def print_loop.simps [of C s d 0])+\<close>)
qed

text \<open>A read of fewer values gives the first ones.\<close>

lemma convert_take: "convert C t r d n = Some vs \<Longrightarrow> m \<le> n \<Longrightarrow> convert C t r d m = Some (take m vs)"
proof (induction n arbitrary: d m vs)
  case (Suc n)
  then show ?case by (cases m) (auto simp: Let_def split: if_splits)
qed simp

lemma convert_length: "convert C t r d n = Some vs \<Longrightarrow> length vs = n"
  by (induction n arbitrary: d vs) (auto simp: Let_def split: if_splits)

lemma interpret_take:
  assumes "interpretValuesAsDouble C s d n = Some (n, vs)" and "m \<le> n"
  shows "interpretValuesAsDouble C s d m = Some (m, take m vs) \<and> length vs = n"
  using assms convert_take [OF _ assms(2)] convert_length
  by (auto simp: interpretValuesAsDouble_def split: option.splits)

lemma concat_replicate_single: "concat (replicate n [x]) = replicate n x"
  by (induction n) simp_all

text \<open>Values of the integer types, in memory and read back.\<close>

fun int_range :: "data_type \<Rightarrow> (int \<times> int) option" where
  "int_range Dt_int8 = Some (- (2 ^ 7), 2 ^ 7)"
| "int_range Dt_uint8 = Some (0, 2 ^ 8)"
| "int_range Dt_int16 = Some (- (2 ^ 15), 2 ^ 15)"
| "int_range Dt_uint16 = Some (0, 2 ^ 16)"
| "int_range Dt_int32 = Some (- (2 ^ 31), 2 ^ 31)"
| "int_range Dt_uint32 = Some (0, 2 ^ 32)"
| "int_range Dt_int64 = Some (- (2 ^ 63), 2 ^ 63)"
| "int_range Dt_uint64 = Some (0, 2 ^ 64)"
| "int_range _ = None"

definition int_bytes :: "data_type \<Rightarrow> int \<Rightarrow> byte list" where
  "int_bytes t v = le_bytes (dataType_size t) (word_of_int v :: u64)"

definition seen_as :: "data_type \<Rightarrow> int \<Rightarrow> int" where
  "seen_as t v = (if t = Dt_uint64 \<and> 2 ^ 63 \<le> v then v - 2 ^ 64 else v)"

lemma of_le_cast: "of_le (le_bytes n (w :: 'a::len word)) = (ucast (take_bit (8 * n) w) :: 'b::len word)"
proof (induction n arbitrary: w)
  case (Suc n)
  show ?case
  proof (rule bit_word_eqI)
    fix i assume "i < LENGTH('b)"
    then show "bit (of_le (le_bytes (Suc n) w) :: 'b word) i \<longleftrightarrow> bit (ucast (take_bit (8 * Suc n) w) :: 'b word) i"
      by (cases "i < 8") (auto simp: Suc.IH bit_simps not_less)
  qed
qed simp

lemma of_le_int:
  assumes "LENGTH('b) = 8 * n" and "n \<le> 8"
  shows "of_le (le_bytes n (word_of_int v :: u64)) = (word_of_int v :: 'b::len word)"
  unfolding of_le_cast using assms by (intro bit_word_eqI) (auto simp: bit_simps)

lemma signed_wrap: "(2 :: int) ^ 63 \<le> v \<Longrightarrow> v < 2 ^ 64 \<Longrightarrow> signed_take_bit 63 v = v - 2 ^ 64"
proof -
  assume v: "(2 :: int) ^ 63 \<le> v" "v < 2 ^ 64"
  then have "v div 2 ^ 63 = 1" by (intro div_pos_geq [THEN trans]) (auto simp: div_pos_pos_trivial)
  then have "bit v 63" by (simp add: bit_iff_odd)
  then show ?thesis using v by (simp add: signed_take_bit_eq_take_bit_minus take_bit_int_eq_self)
qed

lemma read_int:
  assumes "int_range t = Some (lo, hi)" and "lo \<le> v" and "v < hi" and "converted_as (getSampleType t) = Some t'"
  shows "read_value C t' (int_bytes t v) = cv_int C (seen_as t v)"
  using assms
  by (cases t)
    (auto simp: int_bytes_def of_le_int signed_of_int unsigned_of_int seen_as_def signed_take_bit_int_eq_self take_bit_int_eq_self
      signed_take_bit_take_bit signed_wrap)

lemma interpret_ints:
  assumes "int_range t = Some (lo, hi)" and "\<forall>v \<in> set vs. lo \<le> v \<and> v < hi"
    and "s_valueType s = getSampleType t" and "s_rule s = RULETYPE_EXPLICIT"
  shows "interpretValuesAsDouble C s (concat (map (int_bytes t) vs)) (length vs) =
    Some (length vs, map (\<lambda>v. cv_int C (seen_as t v)) vs)"
proof -
  obtain t' where t': "converted_as (getSampleType t) = Some t'" using assms(1) by (cases t) auto
  have "\<forall>b \<in> set (map (int_bytes t) vs). length b = dataType_size t'"
    using converted_as_size [OF t'] by (auto simp: int_bytes_def)
  moreover have "\<forall>v \<in> set vs. read_value C t' (int_bytes t v) = cv_int C (seen_as t v)"
    using read_int [OF assms(1) _ _ t'] assms(2) by blast
  ultimately show ?thesis
    using interpret_explicit [OF _ _ assms(4), of "map (int_bytes t) vs" t' "length vs" C] assms(3) t' by simp
qed

lemma streamMeta_available:
  assumes "json_laws J" and "j_find J p META_SIGNALIDS = Some v" and "j_items J v = map (j_of_string J) ids"
  shows "streamMetaInformationCb J F META_METHOD_AVAILABLE p h counter =
    Inr (subscribe J (filter (\<lambda>i. F = {} \<or> i \<in> F) ids) h counter)"
proof -
  have "j_is_object J p" using assms(1,2) unfolding json_laws_def object_laws_def by (metis option.distinct(1))
  with assms show ?thesis by (simp add: streamMetaInformationCb_def strings_of_map json_simps)
qed

lemma subscribe_posts:
  assumes J: "json_laws J" and h: "h_stream h \<noteq> None" "sm_streamId (h_streamMeta h) \<noteq> []"
      "sm_httpControlPort (h_streamMeta h) \<noteq> []" "sm_httpControlPath (h_streamMeta h) \<noteq> []"
    and ids: "ids \<noteq> []"
    and textual: "\<And>ct. ct_streamId ct = sm_streamId (h_streamMeta h) \<Longrightarrow>
      j_textual J (fst (createRequest J ct ids META_METHOD_SUBSCRIBE counter))"
  shows "\<exists>post. subscribe J ids h counter = (Some (Posted post), counter + 1) \<and>
    (CHR ''.'' \<notin> set (sm_streamId (h_streamMeta h)) \<longrightarrow> handle_request J cb (hp_request post) st =
       (case cb (sm_streamId (h_streamMeta h)) META_METHOD_SUBSCRIBE ids st of (r, st') \<Rightarrow> (Inr (answer (hp_request post) r), st'))) \<and>
    (\<forall>cut rest. sm_streamId (h_streamMeta h) = cut @ ''.'' @ rest \<and> CHR ''.'' \<notin> set cut \<longrightarrow>
       handle_request J cb (hp_request post) st =
         (case cb cut (rest @ ''.'' @ META_METHOD_SUBSCRIBE) ids st of (r, st') \<Rightarrow> (Inr (answer (hp_request post) r), st')))"
proof -
  let ?ct = "\<lparr>ct_streamId = sm_streamId (h_streamMeta h), ct_address = h_remoteHost h, ct_port = sm_httpControlPort (h_streamMeta h),
    ct_target = sm_httpControlPath (h_streamMeta h), ct_httpVersion = sm_httpVersion (h_streamMeta h)\<rparr>"
  obtain request where r: "createRequest J ?ct ids META_METHOD_SUBSCRIBE counter = (request, counter + 1)"
    by (simp add: createRequest_def Let_def)
  obtain p where p: "execute J ?ct request = Posted p" "rq_post (hp_request p)" "rq_body (hp_request p) = j_dump J request"
    using h(3,4) by (auto simp: execute_def HttpPost_init_def HttpPost_run_def)
  have "subscribe J ids h counter = (Some (Posted p), counter + 1)"
    using h ids r p(1) by (auto simp: subscribe_def handler_command_def Controller_init_def asyncSubscribe_def)
  moreover have t: "j_textual J request" using textual [of ?ct] r by simp
  have "handle_request J cb (hp_request p) st = (case cb s c ids st of (r, st') \<Rightarrow> (Inr (answer (hp_request p) r), st'))"
    if "split_method (sm_streamId (h_streamMeta h) @ ''.'' @ META_METHOD_SUBSCRIBE) = Some (s, c)" for s c
    using createRequest_command [OF J ids r t _ p(2,3)] that by (intro command_executes) simp
  ultimately show ?thesis
    by (intro exI [of _ p]) (auto simp: split_method_iff)
qed

section \<open>Properties\<close>

text \<open>
  C31: values seen by the client. Integers written by the producer in the memory format of the
  type of their signal, at any number, are seen by the client of that signal as the doubles of
  exactly these integers, in their order; unsigned 64 bit values from \<open>2 ^ 63\<close> on are seen
  \<open>2 ^ 64\<close> too small, as they are read as signed ones.
\<close>

theorem values_seen:
  assumes "int_range t = Some (lo, hi)" and "\<forall>v \<in> set vs. lo \<le> v \<and> v < hi"
    and "s_valueType s = getSampleType t" and "s_rule s = RULETYPE_EXPLICIT"
  shows "interpretValuesAsDouble C s (concat (map (int_bytes t) vs)) (length vs) =
    Some (length vs, map (\<lambda>v. cv_int C (if t = Dt_uint64 \<and> 2 ^ 63 \<le> v then v - 2 ^ 64 else v)) vs)"
  using interpret_ints [OF assms] by (simp add: seen_as_def)

definition example_conversions :: "int conversions" where
  "example_conversions = \<lparr>cv_float = uint, cv_double = uint, cv_int = id\<rparr>"

definition example_client_signal :: "data_type \<Rightarrow> jtree signal" where
  "example_client_signal t = (SubscribedSignal_init tree_lib 7)\<lparr>s_rule := RULETYPE_EXPLICIT, s_valueType := getSampleType t,
     s_valueSize := word_of_nat (dataType_size t)\<rparr>"

theorem values_seen_witness:
  "interpretValuesAsDouble example_conversions (example_client_signal Dt_int16) [1, 0, 0xff, 0xff] 2 = Some (2, [1, - 1])"
proof -
  have "concat (map (int_bytes Dt_int16) [1, - 1]) = [1, 0, 0xff, 0xff]" by code_simp
  with values_seen [of Dt_int16 "- (2 ^ 15)" "2 ^ 15" "[1, - 1]" "example_client_signal Dt_int16" example_conversions] show ?thesis
    by (simp add: example_client_signal_def example_conversions_def numeral_2_eq_2)
qed

text \<open>
  C32: what the client prints. For a packet whose values are \<open>vs\<close> the raw data callback of the
  client adds their number to the count of the signal. It prints exactly \<open>vs\<close> when there are not
  more than 1024 of them, the size of its buffer; of more values it prints the first 1024 again
  for every full block, and for the last block the first ones again.
\<close>

theorem client_prints:
  assumes "s_valueSize s \<noteq> 0" and "n = unat (size_of d div s_valueSize s)"
    and "interpretValuesAsDouble C s d n = Some (n, vs)" and "cl_infos cl (s_number s) = Some (i, m)"
  shows "rawDataCb C s d cl = (Next, cl\<lparr>
      cl_printed := cl_printed cl @ (if n \<le> 1024 then vs
        else concat (replicate (n div 1024) (take 1024 vs)) @ take (n mod 1024) vs),
      cl_infos := (cl_infos cl)(s_number s \<mapsto> (i, m + word_of_nat n))\<rparr>)"
proof -
  have vs: "length vs = n" "\<forall>m \<le> length vs. interpretValuesAsDouble C s d m = Some (m, take m vs)"
    using interpret_take [OF assms(3)] by auto
  have "concat (replicate (n div 1024) (take 1024 vs)) @ take (n mod 1024) vs = vs" if "n \<le> 1024"
  proof (cases "n = 1024")
    case False
    with that have "n div 1024 = 0" "n mod 1024 = n" by simp_all
    with vs(1) show ?thesis by simp
  qed (use vs(1) in simp)
  then have "print_loop C s d n = Some (if n \<le> 1024 then vs
      else concat (replicate (n div 1024) (take 1024 vs)) @ take (n mod 1024) vs)"
    using print_loop_explicit [OF vs(2) vs(1) [symmetric, THEN eq_imp_le]] by presburger
  moreover have "size_of d div s_valueSize s = word_of_nat n" "unat (word_of_nat n :: u64) = n" using assms(2) by simp_all
  ultimately show ?thesis using assms(1,4) by (simp only: rawDataCb_def Let_def) simp
qed

theorem client_prints_witness:
  "cl_printed (snd (rawDataCb example_conversions (example_client_signal Dt_int8) (int_bytes Dt_int8 1 @ replicate 1024 0)
       \<lparr>cl_infos = [7 \<mapsto> (''value'', 5)], cl_printed = []\<rparr>)) = (1 # replicate 1023 0) @ [1] \<and>
   cl_infos (snd (rawDataCb example_conversions (example_client_signal Dt_int8) (int_bytes Dt_int8 1 @ replicate 1024 0)
       \<lparr>cl_infos = [7 \<mapsto> (''value'', 5)], cl_printed = []\<rparr>)) 7 = Some (''value'', 1030)"
proof -
  let ?s = "example_client_signal Dt_int8" and ?vs = "1 # replicate 1024 (0 :: int)"
  have s: "s_valueSize ?s = 1" "s_number ?s = 7" "s_valueType ?s = getSampleType Dt_int8" "s_rule ?s = RULETYPE_EXPLICIT"
    by (simp_all add: example_client_signal_def SubscribedSignal_init_def)
  have "int_bytes Dt_int8 0 = [0]" "length (int_bytes Dt_int8 1) = 1" by (simp_all add: int_bytes_def)
  then have d: "int_bytes Dt_int8 1 @ replicate 1024 0 = concat (map (int_bytes Dt_int8) ?vs)"
    "length (concat (map (int_bytes Dt_int8) ?vs)) = 1025"
    by (simp_all only: list.map map_replicate concat.simps concat_replicate_single length_append length_replicate)
  have n: "1025 = unat (size_of (concat (map (int_bytes Dt_int8) ?vs)) div s_valueSize ?s)"
    unfolding size_of_def d(2) s(1) by simp
  have v: "interpretValuesAsDouble example_conversions ?s (concat (map (int_bytes Dt_int8) ?vs)) 1025 = Some (1025, ?vs)"
    using interpret_ints [of Dt_int8 _ _ ?vs ?s example_conversions] s by (simp add: example_conversions_def seen_as_def)
  show ?thesis
    using client_prints [OF _ n v, of "\<lparr>cl_infos = [7 \<mapsto> (''value'', 5)], cl_printed = []\<rparr>" "''value''" 5] d(1) s by simp
qed

text \<open>
  C11: from the announcement to the subscription. When a producer session adds signals, the bytes
  it writes make the handler of the consumer call the stream meta callback once. The callback of
  the client posts one command, and if the stream id has no dot, the control server executes it
  as a subscription of exactly the announced data signals that pass the filter of the client, in
  their order, for that stream id. A stream id with a dot, such as the URL of an end point may
  have, is cut: the server runs the callback for the part before the first dot with the rest as a
  part of the command. The handshake must have told a port and a path.
\<close>

theorem announced_then_subscribed:
  assumes J: "json_laws J" and S: "delivers S wire" and I: "reads I"
    and ids: "ids = map fst (filter (\<lambda>(i, r). isDataSignal (store r)) sigs)"
      "wanted = filter (\<lambda>i. F = {} \<or> i \<in> F) ids" "wanted \<noteq> []"
    and fits: "sendable J (Meta 0 (signalIds_doc J META_METHOD_AVAILABLE ids))"
    and h: "at_header I [] h" "sm_streamId (h_streamMeta h) = streamId" "streamId \<noteq> []"
      "sm_httpControlPort (h_streamMeta h) \<noteq> []" "sm_httpControlPath (h_streamMeta h) \<noteq> []"
    and textual: "\<And>ct. ct_streamId ct = streamId \<Longrightarrow> j_textual J (fst (createRequest J ct wanted META_METHOD_SUBSCRIBE counter))"
  shows "\<exists>bytes. wire (ps_stream (addSignals J S store sigs s)) = wire (ps_stream s) @ bytes \<and>
    (\<exists>h'. runs J I bytes h h' \<and> (\<nexists>h''. completes J I h' h'')) \<and>
    (\<forall>h'. runs J I bytes h h' \<and> (\<nexists>h''. completes J I h' h'') \<longrightarrow>
       (\<exists>p post. h_calls h' = h_calls h @ [StreamMeta_call META_METHOD_AVAILABLE p] \<and>
          streamMetaInformationCb J F META_METHOD_AVAILABLE p h' counter = Inr (Some (Posted post), counter + 1) \<and>
          (CHR ''.'' \<notin> set streamId \<longrightarrow> handle_request J cb (hp_request post) st =
             (case cb streamId META_METHOD_SUBSCRIBE wanted st of (r, st') \<Rightarrow> (Inr (answer (hp_request post) r), st'))) \<and>
          (\<forall>cut rest. streamId = cut @ ''.'' @ rest \<and> CHR ''.'' \<notin> set cut \<longrightarrow> handle_request J cb (hp_request post) st =
             (case cb cut (rest @ ''.'' @ META_METHOD_SUBSCRIBE) wanted st of
                (r, st') \<Rightarrow> (Inr (answer (hp_request post) r), st')))))"
proof -
  let ?m = "Meta 0 (signalIds_doc J META_METHOD_AVAILABLE ids)" and ?k = "view h"
  have ne: "ids \<noteq> []" using ids(2,3) by auto
  from announcement_delivered [OF J ne, of META_METHOD_AVAILABLE ?k] obtain p v
    where all: "deliver_all J [?m] ?k = Some (?k\<lparr>k_calls := h_calls h @ [StreamMeta_call META_METHOD_AVAILABLE p]\<rparr>)"
      (is "_ = Some ?k'")
    and p: "j_find J p META_SIGNALIDS = Some v" "j_items J v = map (j_of_string J) ids" by (auto simp: view_def)
  have bytes: "wire (ps_stream (addSignals J S store sigs s)) = wire (ps_stream s) @ concat (map (message_bytes J) [?m])"
    using ne stream_writer.send_wire [OF S, of J "[?m]" "ps_stream s"] ids(1) unfolding addSignals_sends by (auto split: list.split)
  define executed where "executed req \<longleftrightarrow>
      (CHR ''.'' \<notin> set streamId \<longrightarrow> handle_request J cb req st =
         (case cb streamId META_METHOD_SUBSCRIBE wanted st of (r, st') \<Rightarrow> (Inr (answer req r), st'))) \<and>
      (\<forall>cut rest. streamId = cut @ ''.'' @ rest \<and> CHR ''.'' \<notin> set cut \<longrightarrow> handle_request J cb req st =
         (case cb cut (rest @ ''.'' @ META_METHOD_SUBSCRIBE) wanted st of (r, st') \<Rightarrow> (Inr (answer req r), st')))" for req
  have "\<exists>p post. h_calls h' = h_calls h @ [StreamMeta_call META_METHOD_AVAILABLE p] \<and>
      streamMetaInformationCb J F META_METHOD_AVAILABLE p h' counter = Inr (Some (Posted post), counter + 1) \<and>
      executed (hp_request post)"
    if "view h' = ?k'" "at_header I [] h'" for h'
  proof -
    have h': "h_streamMeta h' = h_streamMeta h" "h_calls h' = h_calls h @ [StreamMeta_call META_METHOD_AVAILABLE p]" "h_stream h' \<noteq> None"
      using that(2) arg_cong [OF that(1), of k_streamMeta] arg_cong [OF that(1), of k_calls] by (auto simp: view_def at_header_def)
    have id: "sm_streamId (h_streamMeta h') = streamId" using h(2) h'(1) by simp
    have "\<exists>post. subscribe J wanted h' counter = (Some (Posted post), counter + 1) \<and> executed (hp_request post)"
      unfolding executed_def
      by (rule subscribe_posts [OF J h'(3), of wanted counter cb st, unfolded id]) (use h h'(1) ids(3) textual in simp_all)
    then obtain post where post: "subscribe J wanted h' counter = (Some (Posted post), counter + 1)" "executed (hp_request post)"
      by blast
    show ?thesis
      using h'(2) post streamMeta_available [OF J p, of F h' counter] unfolding ids(2)
      by (intro exI [of _ p] exI [of _ post]) simp
  qed
  moreover have "\<forall>m \<in> set [?m]. sendable J m" using fits by simp
  note messages_run [OF J I this h(1) all]
  ultimately show ?thesis using bytes unfolding executed_def [symmetric] by blast
qed

theorem announced_then_subscribed_witness:
  "let s = \<lparr>ps_stream = [], ps_allSignals = Map.empty, ps_errorCb = True, ps_pending = [], ps_errors = []\<rparr>;
       store = \<lambda>r :: nat. if r = 0 then Domain example_time_signal else Value example_value;
       h = example_session\<lparr>h_streamMeta := (StreamMeta_init 11)\<lparr>sm_streamId := ''S'', sm_httpControlPort := ''7438'',
             sm_httpControlPath := ''/''\<rparr>\<rparr>
   in \<exists>h' p post. runs tree_lib buffer_stream (ps_stream (addSignals tree_lib memory_stream store [(''time'', 0), (''value'', 1)] s)) h h' \<and>
        streamMetaInformationCb tree_lib {} META_METHOD_AVAILABLE p h' 41 = Inr (Some (Posted post), 42) \<and>
        handle_request tree_lib example_cb (hp_request post) [] = (Inr (answer (hp_request post) (0, [])), [[''value'']])"
proof -
  let ?h = "example_session\<lparr>h_streamMeta := (StreamMeta_init 11)\<lparr>sm_streamId := ''S'', sm_httpControlPort := ''7438'',
    sm_httpControlPath := ''/''\<rparr>\<rparr>"
  let ?store = "\<lambda>r :: nat. if r = 0 then Domain example_time_signal else Value example_value"
  have ids: "[''value''] = map fst (filter (\<lambda>(i, r). isDataSignal (?store r)) [(''time'', 0), (''value'', 1)])" by simp
  have "length (enc (signalIds_doc tree_lib META_METHOD_AVAILABLE [''value''])) < 2000" by code_simp
  then have fits: "sendable tree_lib (Meta 0 (signalIds_doc tree_lib META_METHOD_AVAILABLE [''value'']))"
    by (intro sendable_tree) (simp_all add: valid_number_def SIGNAL_NUMBER_MASK_def)
  have h: "at_header buffer_stream [] ?h" by (simp add: example_session_def at_header_def buffer_stream_def)
  have textual: "\<And>j. j_textual tree_lib j" by (simp add: tree_lib_def)
  show ?thesis
    using announced_then_subscribed [OF tree_json_laws memory_stream_delivers buffer_stream_reads ids _ _ fits h refl _ _ _ textual,
        where wanted = "[''value'']" and F = "{}" and counter = 41 and cb = example_cb and st = "[]" and
          s = "\<lparr>ps_stream = [], ps_allSignals = Map.empty, ps_errorCb = True, ps_pending = [], ps_errors = []\<rparr>"]
    by (simp add: Let_def example_cb_def) blast
qed

end
