(* ===== verification/Client_Program.thy ===== *)
theory Client_Program
  imports Streaming_Client Table_Connection
begin

text \<open>
  The program \<open>StreamingClient\<close> as a whole: what its options lead to, the container with the
  callbacks it registers, and these callbacks for everything the container reports. Shown: a
  client that reads what a producer writes handles every call, counts the values of every
  signal and prints them in blocks of 1024, or prints nothing in quiet mode.
\<close>

section \<open>Options\<close>

text \<open>The options that Boost found, with an argument or without; none if they do not parse.\<close>

record client_options =
  co_help :: bool
  co_host :: "string option"
  co_file :: "string option"
  co_port :: "string option"
  co_target :: "string option"
  co_quiet :: bool
  co_signalFilter :: "string list option"

definition no_options :: client_options where
  "no_options = \<lparr>co_help = False, co_host = None, co_file = None, co_port = None, co_target = None, co_quiet = False,
     co_signalFilter = None\<rparr>"

datatype client_stream = Websocket_client string string string | Tcp_client string string

text \<open>The exit code of \<open>main\<close>, or the stream it opens, whether it is quiet, and \<open>s_signalFilter\<close>.\<close>

definition client_main :: "client_options option \<Rightarrow> nat + client_stream \<times> bool \<times> string set" where
  "client_main optionMap =
     (case optionMap of
        None \<Rightarrow> Inl 1
      | Some om \<Rightarrow>
          if om = no_options \<or> co_help om then Inl 0
          else
            let text = (\<lambda>v. case v of None \<Rightarrow> [] | Some s \<Rightarrow> s);
                host = text (co_host om); port = text (co_port om); target = text (co_target om);
                quiet = co_quiet om;
                signalFilter = (case co_signalFilter om of None \<Rightarrow> {} | Some fs \<Rightarrow> set fs)
            in if target \<noteq> [] then Inr (Websocket_client host port target, quiet, signalFilter)
               else if host \<noteq> [] then Inr (Tcp_client host port, quiet, signalFilter)
               else Inl 0)"

text \<open>The container of \<open>main\<close>; both callbacks of the client have the identity 1.\<close>

definition client_container :: "bool \<Rightarrow> 'j container" where
  "client_container quiet =
     (let c = snd (setSignalMetaCb (Some 1) SignalContainer_init)
      in if quiet then c else snd (setDataAsRawCb (Some 1) c))"

text \<open>The session that is started; \<open>junk\<close> are the uninitialised members of the handler.\<close>

definition client_session ::
  "'j json_lib \<Rightarrow> 'w stream_in \<Rightarrow> (client_stream \<Rightarrow> 'w) \<Rightarrow> u32 \<times> u32 \<times> u32 \<times> u32 \<times> u32 \<Rightarrow> client_options option \<Rightarrow>
   nat + ('j, 'w) handler \<times> string set" where
  "client_session J I open_stream junk optionMap =
     (case junk of (header, len, number, type, httpVersion) \<Rightarrow>
        map_sum id (\<lambda>(e, quiet, signalFilter).
          (start I (open_stream e) True (ProtocolHandler_init J (client_container quiet) header len number type httpVersion),
           signalFilter)) (client_main optionMap))"

section \<open>Callbacks\<close>

text \<open>
  A call that the container has recorded: one for the identity 0 does nothing. The calls are
  handled in their order up to the first exception.
\<close>

definition client_event :: "'f conversions \<Rightarrow> nat \<times> 'j event \<Rightarrow> 'f client block" where
  "client_event C e cl =
     (case e of (cb, ev) \<Rightarrow>
        if cb \<noteq> 1 then (Next, cl)
        else (case ev of
                RawData s timeStamp d \<Rightarrow> rawDataCb C s d cl
              | ValueData s timeStamp d n \<Rightarrow> (Next, cl)
              | SignalMetaCb s method params \<Rightarrow> client_signalMetaCb s method cl))"

fun client_events :: "'f conversions \<Rightarrow> (nat \<times> 'j event) list \<Rightarrow> 'f client block" where
  "client_events C [] cl = (Next, cl)"
| "client_events C (e # es) cl =
     (case client_event C e cl of
        (Raise x, cl') \<Rightarrow> (Raise x, cl')
      | (_, cl') \<Rightarrow> client_events C es cl')"

definition client_init :: "'f client" where
  "client_init = \<lparr>cl_infos = Map.empty, cl_printed = []\<rparr>"

lemma client_events_append:
  "client_events C es cl = (Next, cl') \<Longrightarrow> client_events C (es @ fs) cl = client_events C fs cl'"
proof (induction es arbitrary: cl)
  case (Cons e es)
  obtain fl cl1 where e: "client_event C e cl = (fl, cl1)" by fastforce
  with Cons show ?case by (cases fl) simp_all
qed simp

section \<open>Subscriptions\<close>

lemma subscription_events:
  assumes "distinct (map getNumber sgs)" and "\<forall>sg \<in> set sgs. cl_infos cl (getNumber sg) = None"
  shows "client_events C (concat (map (\<lambda>sg.
     [(1, SignalMetaCb ((SubscribedSignal_init J (getNumber sg))\<lparr>s_id := getId sg\<rparr>) META_METHOD_SUBSCRIBE (p sg)),
      (1, SignalMetaCb (described J sg) META_METHOD_SIGNAL (q sg))]) sgs)) cl =
    (Next, cl\<lparr>cl_infos := cl_infos cl ++ map_of (map (\<lambda>sg. (getNumber sg, getId sg, 0)) sgs)\<rparr>)"
  using assms
proof (induction sgs arbitrary: cl)
  case (Cons sg sgs)
  let ?n = "getNumber sg" and ?f = "\<lambda>sg. (getNumber sg, getId sg, 0 :: u64)"
  let ?cl = "cl\<lparr>cl_infos := (cl_infos cl)(?n \<mapsto> (getId sg, 0))\<rparr>"
  have init: "s_number ((SubscribedSignal_init J ?n)\<lparr>s_id := getId sg\<rparr>) = ?n" by (simp add: SubscribedSignal_init_def)
  have fresh: "?n \<notin> getNumber ` set sgs" using Cons.prems(1) by simp
  have "\<forall>sg' \<in> set sgs. cl_infos ?cl (getNumber sg') = None" using Cons.prems(2) fresh by simp (metis imageI)
  with Cons have IH: "client_events C (concat (map (\<lambda>sg.
     [(1, SignalMetaCb ((SubscribedSignal_init J (getNumber sg))\<lparr>s_id := getId sg\<rparr>) META_METHOD_SUBSCRIBE (p sg)),
      (1, SignalMetaCb (described J sg) META_METHOD_SIGNAL (q sg))]) sgs)) ?cl =
    (Next, ?cl\<lparr>cl_infos := cl_infos ?cl ++ map_of (map ?f sgs)\<rparr>)" by simp
  have "?n \<notin> dom (map_of (map ?f sgs))" using fresh by (simp add: dom_map_of_conv_image_fst image_image)
  then have infos: "cl_infos ?cl ++ map_of (map ?f sgs) = cl_infos cl ++ map_of (map ?f (sg # sgs))"
    by (auto simp: fun_eq_iff map_add_def split: option.split)
  have "?cl\<lparr>cl_infos := cl_infos ?cl ++ map_of (map ?f sgs)\<rparr> = cl\<lparr>cl_infos := cl_infos cl ++ map_of (map ?f (sg # sgs))\<rparr>"
    unfolding infos by simp
  with IH have "client_events C (concat (map (\<lambda>sg.
     [(1, SignalMetaCb ((SubscribedSignal_init J (getNumber sg))\<lparr>s_id := getId sg\<rparr>) META_METHOD_SUBSCRIBE (p sg)),
      (1, SignalMetaCb (described J sg) META_METHOD_SIGNAL (q sg))]) sgs)) ?cl =
    (Next, cl\<lparr>cl_infos := cl_infos cl ++ map_of (map ?f (sg # sgs))\<rparr>)" by (simp only:)
  then show ?case using Cons.prems(2) init
    by (simp add: client_event_def client_signalMetaCb_def del: map_of.simps map_add_upd)
qed (simp add: map_add_def)

section \<open>Measured data\<close>

text \<open>The values of a packet as doubles, and the number of values of a signal in a list of packets.\<close>

definition decoded :: "'f conversions \<Rightarrow> 'j value_signal \<Rightarrow> byte list \<Rightarrow> 'f list" where
  "decoded C V d =
     (case converted_as (getSampleType (vs_dataType V)) of
        None \<Rightarrow> []
      | Some t \<Rightarrow> the (convert C t RULETYPE_EXPLICIT d (length d div dataType_size (vs_dataType V))))"

fun packet_values :: "'f conversions \<Rightarrow> 'j packet \<Rightarrow> 'f list" where
  "packet_values C (Samples V d) = decoded C V d"
| "packet_values C (Start T t) = []"

text \<open>
  What the loop over blocks prints of the values \<open>vs\<close> of a packet of \<open>n\<close> values: the first block
  again for every full block, and its first values again for the rest; all of them, once, when
  they fit into one block.
\<close>

definition printed_blocks :: "nat \<Rightarrow> 'f list \<Rightarrow> 'f list" where
  "printed_blocks n vs = concat (replicate (n div 1024) (take 1024 vs)) @ take (n mod 1024) vs"

fun packet_printed :: "'f conversions \<Rightarrow> 'j packet \<Rightarrow> 'f list" where
  "packet_printed C (Samples V d) = printed_blocks (length d div dataType_size (vs_dataType V)) (decoded C V d)"
| "packet_printed C (Start T t) = []"

lemma printed_blocks_small: "n \<le> 1024 \<Longrightarrow> length vs \<le> n \<Longrightarrow> printed_blocks n vs = vs"
  by (cases "n = 1024") (simp_all add: printed_blocks_def)

lemma printed_blocks_Nil [simp]: "printed_blocks n [] = []"
  by (simp add: printed_blocks_def)

fun values_in :: "u32 \<Rightarrow> 'j packet list \<Rightarrow> nat" where
  "values_in n [] = 0"
| "values_in n (Samples V d # ps) =
     (if bs_number V = n then length d div dataType_size (vs_dataType V) else 0) + values_in n ps"
| "values_in n (Start T t # ps) = values_in n ps"

lemma convert_enough:
  assumes "n * dataType_size t \<le> length d"
  shows "\<exists>vs. convert C t RULETYPE_EXPLICIT d n = Some vs"
  using assms by (induction n arbitrary: d) (simp_all add: Let_def)

lemma print_loop_empty:
  assumes "\<forall>m. interpretValuesAsDouble C s d m = Some (0, [])"
  shows "print_loop C s d n = Some []"
proof (induction n rule: less_induct)
  case (less n)
  then show ?case by (subst print_loop.simps) (simp add: assms DOUBLE_VALUE_BUFFER_SIZE_def Let_def)
qed

lemma raw_printed:
  assumes "reads_as V s" and "whole_packet (vs_dataType V) d"
  defines "n \<equiv> length d div dataType_size (vs_dataType V)"
  shows "print_loop C s d n = Some (printed_blocks n (decoded C V d))"
proof (cases "converted_as (getSampleType (vs_dataType V))")
  case None
  then have "\<forall>m. interpretValuesAsDouble C s d m = Some (0, [])"
    using assms(1) by (simp add: interpretValuesAsDouble_def reads_as_def)
  from print_loop_empty [OF this] None show ?thesis by (simp add: decoded_def)
next
  case (Some t)
  have "n * dataType_size t \<le> length d" using converted_as_size [OF Some] by (simp add: n_def)
  from convert_enough [OF this] obtain vs where vs: "convert C t RULETYPE_EXPLICIT d n = Some vs" by blast
  then have "interpretValuesAsDouble C s d n = Some (n, vs)"
    using assms(1) Some by (simp add: interpretValuesAsDouble_def reads_as_def)
  from interpret_take [OF this] have len: "length vs = n" "\<forall>m \<le> length vs. interpretValuesAsDouble C s d m = Some (m, take m vs)" by auto
  moreover have "decoded C V d = vs" using Some vs by (simp add: decoded_def n_def)
  ultimately show ?thesis
    using print_loop_explicit [OF len(2) len(1) [symmetric, THEN eq_imp_le]] by (simp add: printed_blocks_def)
qed

lemma decoded_length: "length (decoded C V d) \<le> length d div dataType_size (vs_dataType V)"
proof (cases "converted_as (getSampleType (vs_dataType V))")
  case (Some t)
  let ?n = "length d div dataType_size (vs_dataType V)"
  have "?n * dataType_size t \<le> length d" using converted_as_size [OF Some] by simp
  from convert_enough [OF this] obtain vs where "convert C t RULETYPE_EXPLICIT d ?n = Some vs" by blast
  with Some convert_length [OF this] show ?thesis by (simp add: decoded_def)
qed (simp add: decoded_def)

text \<open>Packets of not more than 1024 values are printed as they are.\<close>

lemma packet_printed_small:
  assumes "\<forall>V d. Samples V d \<in> set ps \<longrightarrow> length d div dataType_size (vs_dataType V) \<le> 1024"
  shows "map (packet_printed C) ps = map (packet_values C) ps"
proof (rule map_cong [OF refl])
  fix p
  assume p: "p \<in> set ps"
  show "packet_printed C p = packet_values C p"
  proof (cases p)
    case (Samples V d)
    with p assms printed_blocks_small [OF _ decoded_length [of C V d]] show ?thesis by simp
  qed simp
qed

lemma raw_counted:
  assumes "reads_as V s" and "whole_packet (vs_dataType V) d" and "cl_infos cl (bs_number V) = Some (i, m)"
  defines "n \<equiv> length d div dataType_size (vs_dataType V)"
  shows "rawDataCb C s d cl = (Next, cl\<lparr>cl_printed := cl_printed cl @ packet_printed C (Samples V d),
      cl_infos := (cl_infos cl)(bs_number V \<mapsto> (i, m + word_of_nat n))\<rparr>)"
proof -
  have "n \<le> length d" "length d < 2 ^ 32" using assms(2) by (simp_all add: n_def whole_packet_def)
  then have "unat (word_of_nat n :: u64) = n" by (simp add: unat_of_nat)
  moreover have "size_of d div dataValueSize s = word_of_nat n" "dataValueSize s \<noteq> 0"
    using whole_packet_count(2) [OF assms(2)] assms(1) by (simp_all add: reads_as_def sample_count_def n_def dataType_size_word)
  ultimately have "size_of d div dataValueSize s = word_of_nat n" "unat (word_of_nat n :: u64) = n" "dataValueSize s \<noteq> 0"
    by simp_all
  with raw_printed [OF assms(1,2), of C, folded n_def] assms(1,3) show ?thesis
    by (simp add: rawDataCb_def Let_def reads_as_def n_def [symmetric])
qed

text \<open>All calls for a list of packets, with the client's raw data callback and without.\<close>

lemma packet_events:
  assumes "in_time sgs st ps" and "\<forall>V d. Samples V d \<in> set ps \<longrightarrow> whole_packet (vs_dataType V) d"
    and "\<forall>V. Value V \<in> set sgs \<longrightarrow> cl_infos cl (bs_number V) \<noteq> None" and "distinct (map getNumber sgs)"
    and "reported sgs 1 0 (observed sgs started index ps) calls"
  shows "client_events C calls cl = (Next, \<lparr>
      cl_infos = (\<lambda>n. map_option (\<lambda>(i, m). (i, m + word_of_nat (values_in n ps))) (cl_infos cl n)),
      cl_printed = cl_printed cl @ concat (map (packet_printed C) ps)\<rparr>)"
  using assms(1,2,3,5)
proof (induction ps arbitrary: st started index calls cl)
  case Nil
  then show ?case by (simp add: option.map_ident_strong case_prod_beta)
next
  case (Cons p ps)
  show ?case
  proof (cases p)
    case (Start T t)
    then have "in_time sgs (insert (bs_number T) st) ps" "\<forall>V d. Samples V d \<in> set ps \<longrightarrow> whole_packet (vs_dataType V) d"
      "reported sgs 1 0 (observed sgs (started(bs_number T \<mapsto> t)) index ps) calls"
      using Cons.prems by simp_all
    from Cons.IH [OF this(1,2) Cons.prems(3) this(3)] Start show ?thesis by simp
  next
    case (Samples V d)
    let ?n = "bs_number V" and ?k = "length d div dataType_size (vs_dataType V)" and ?vs = "packet_printed C (Samples V d)"
    from Cons.prems(1) Samples have V: "Value V \<in> set sgs" "in_time sgs st ps" by simp_all
    from Cons.prems(4) Samples obtain V' s ts m rest where "Value V' \<in> set sgs" "?n = bs_number V'" "reads_as V' s"
      and calls: "calls = (1, RawData s ts d) # (0, ValueData s ts d m) # rest"
      and rest: "reported sgs 1 0 (observed sgs started (index(?n := index ?n + m)) ps) rest"
      by (auto simp: Let_def)
    then have s: "reads_as V s" using same_number [OF assms(4) _ V(1)] by force
    have whole: "whole_packet (vs_dataType V) d" using Cons.prems(2) Samples by simp
    obtain i c where i: "cl_infos cl ?n = Some (i, c)" using Cons.prems(3) V(1) by fastforce
    let ?cl = "cl\<lparr>cl_printed := cl_printed cl @ ?vs, cl_infos := (cl_infos cl)(?n \<mapsto> (i, c + word_of_nat ?k))\<rparr>"
    have "\<forall>V. Value V \<in> set sgs \<longrightarrow> cl_infos ?cl (bs_number V) \<noteq> None" using Cons.prems(3) by simp
    from Cons.IH [OF V(2) _ this rest] Cons.prems(2)
    have IH: "client_events C rest ?cl = (Next, \<lparr>
          cl_infos = (\<lambda>n. map_option (\<lambda>(i, m). (i, m + word_of_nat (values_in n ps))) (cl_infos ?cl n)),
          cl_printed = cl_printed ?cl @ concat (map (packet_printed C) ps)\<rparr>)"
      by simp
    have "(\<lambda>n. map_option (\<lambda>(i, m). (i, m + word_of_nat (values_in n ps))) (cl_infos ?cl n)) =
        (\<lambda>n. map_option (\<lambda>(i, m). (i, m + word_of_nat (values_in n (p # ps)))) (cl_infos cl n))"
      using i Samples by (auto simp: fun_eq_iff add.assoc)
    with IH raw_counted [OF s whole i, of C] calls Samples show ?thesis
      by (simp add: client_event_def)
  qed
qed

lemma quiet_events:
  "reported sgs 0 0 seen calls \<Longrightarrow> client_events C calls cl = (Next, cl)"
proof (induction seen arbitrary: calls)
  case (Cons e seen)
  then show ?case by (cases e) (auto simp: client_event_def)
qed simp

section \<open>Properties\<close>

lemma client_container_fields:
  "callbacks (client_container quiet) = (1, if quiet then 0 else 1, 0)" "c_signals (client_container quiet) n = None"
  "c_tables (client_container quiet) t = None" "c_calls (client_container quiet) = []"
  by (simp_all add: client_container_def setSignalMetaCb_def setDataAsRawCb_def SignalContainer_init_def callbacks_def Let_def)

lemma signal_info:
  assumes "distinct (map getNumber sgs)" and "sg \<in> set sgs"
  shows "map_of (map (\<lambda>sg. (getNumber sg, getId sg, 0 :: u64)) sgs) (getNumber sg) = Some (getId sg, 0)"
  using assms by (intro map_of_is_SomeI) (simp_all add: comp_def)

text \<open>The session of the client once its stream is connected.\<close>

lemma client_started:
  assumes "client_main om = Inr (e, quiet, F)" and "client_session J I open_stream junk om = Inr (h0, F')"
    and "complete J I Init_stream 0 h0 = (fl, h)" and "si_data I (open_stream e) = []"
  shows "at_header I [] h \<and> h_container h = client_container quiet"
  using assms
  by (auto simp: client_session_def at_header_def complete_def onInitComplete_def start_def schedule_def ProtocolHandler_init_def Let_def
      split: prod.splits)

text \<open>What the callbacks make of all calls of a run.\<close>

lemma client_run:
  fixes sgs :: "'j producer_signal list" and C :: "'f conversions"
  assumes "tabled sgs index" and "in_time sgs {} ps" and "\<forall>V d. Samples V d \<in> set ps \<longrightarrow> whole_packet (vs_dataType V) d"
    and "reported sgs (if quiet then 0 else 1) 0 (observed sgs Map.empty index ps) calls"
  shows "\<exists>cl. client_events C (c_calls (fold (subscribed_to J) sgs (client_container quiet)) @ calls) client_init = (Next, cl) \<and>
    (\<forall>sg \<in> set sgs. cl_infos cl (getNumber sg) =
       Some (getId sg, if quiet then 0 else word_of_nat (values_in (getNumber sg) ps))) \<and>
    cl_printed cl = (if quiet then [] else concat (map (packet_printed C) ps))"
proof -
  let ?infos = "map_of (map (\<lambda>sg. (getNumber sg, getId sg, 0 :: u64)) sgs)"
  define cl :: "'f client" where "cl = \<lparr>cl_infos = ?infos, cl_printed = []\<rparr>"
  have distinct: "distinct (map getNumber sgs)" using assms(1) by (simp add: tabled_def)
  have "c_signalMetaCb (client_container quiet :: 'j container) = 1"
    using client_container_fields(1) [where 'a = 'j and quiet = quiet] by (simp add: callbacks_def)
  with subscription_events [OF distinct, of client_init C J] 
  have subs: "client_events C (c_calls (fold (subscribed_to J) sgs (client_container quiet))) client_init = (Next, cl)"
    by (simp add: subscribed_calls(2) client_container_fields client_init_def cl_def)
  have info: "cl_infos cl (getNumber sg) = Some (getId sg, 0)" if "sg \<in> set sgs" for sg
    using signal_info [OF distinct that] by (simp add: cl_def)
  show ?thesis
  proof (cases quiet)
    case True
    then have "client_events C calls cl = (Next, cl)" using quiet_events assms(4) by simp
    with True info show ?thesis unfolding client_events_append [OF subs] by (simp add: cl_def)
  next
    case False
    have "\<forall>V. Value V \<in> set sgs \<longrightarrow> cl_infos cl (bs_number V) \<noteq> None" using info by fastforce
    moreover have "reported sgs 1 0 (observed sgs Map.empty index ps) calls" using assms(4) False by simp
    ultimately have "client_events C calls cl = (Next, \<lparr>
        cl_infos = (\<lambda>n. map_option (\<lambda>(i, m). (i, m + word_of_nat (values_in n ps))) (cl_infos cl n)),
        cl_printed = cl_printed cl @ concat (map (packet_printed C) ps)\<rparr>)"
      using packet_events [OF assms(2,3) _ distinct] by blast
    with False info show ?thesis unfolding client_events_append [OF subs] by (simp add: cl_def)
  qed
qed

text \<open>
  C9: the client as a whole. Let the options of the program lead to a session, whose stream
  connects. A producer subscribes linear time signals and synchronous signals in any number of
  tables and writes start times and packets; the client reads this in pieces of any size. Then its
  callbacks handle all calls without an exception, and it has an entry for every signal, with its
  id and the number of values that were written for it. It has printed, packet after packet in
  their order, the first 1024 values of the packet once for each full block of 1024 values and as
  many of the first values again as the rest has. So it has printed the values of all packets,
  each once and in order, when no packet has more than 1024 of them. The values are what
  \<open>interpretValuesAsDouble\<close> reads (\<open>decoded\<close>), which is nothing for complex numbers. In quiet
  mode the client counts and prints nothing.
\<close>

theorem client_end_to_end:
  fixes sgs :: "'j producer_signal list" and J :: "'j json_lib" and w :: 'w and h :: "('j, 'u) handler" and C :: "'f conversions"
    and ps :: "'j packet list" and index :: "u32 \<Rightarrow> u64" and store :: "u32 \<Rightarrow> 'j value_signal"
  assumes J: "json_laws J" and S: "delivers S wire" and I: "reads I" and "wire w = []"
    and sgs: "tabled sgs index" "\<forall>sg \<in> set sgs. signal_ready J sg" "\<forall>V. Value V \<in> set sgs \<longrightarrow> store (bs_number V) = V"
    and fits: "\<forall>sg \<in> set sgs. \<forall>m \<in> set (subscribe_messages J sg). sendable J m"
    and ps: "in_time sgs {} ps" "\<forall>V d. Samples V d \<in> set ps \<longrightarrow> whole_packet (vs_dataType V) d"
    and main: "client_main om = Inr (e, quiet, F)" "client_session J I open_stream junk om = Inr (h0, F)"
      "complete J I Init_stream 0 h0 = (Next, h)" "si_data I (open_stream e) = []"
  defines "W \<equiv> StreamWriter J S"
  defines "bytes \<equiv> wire (snd (produce W ps store (fold (signal_subscribe J W) sgs w)))"
  shows "(\<exists>h'. runs J I bytes h h' \<and> (\<nexists>h''. completes J I h' h'')) \<and>
    (\<forall>h'. runs J I bytes h h' \<and> (\<nexists>h''. completes J I h' h'') \<longrightarrow>
       (\<exists>cl. client_events C (c_calls (h_container h')) client_init = (Next, cl) \<and>
          (\<forall>sg \<in> set sgs. cl_infos cl (getNumber sg) =
             Some (getId sg, if quiet then 0 else word_of_nat (values_in (getNumber sg) ps))) \<and>
          cl_printed cl = (if quiet then [] else concat (map (packet_printed C) ps)) \<and>
          (\<not> quiet \<and> (\<forall>V d. Samples V d \<in> set ps \<longrightarrow> length d div dataType_size (vs_dataType V) \<le> 1024) \<longrightarrow>
             cl_printed cl = concat (map (packet_values C) ps))))"
proof -
  have h: "at_header I [] h" "h_container h = client_container quiet" using client_started [OF main] by simp_all
  have new: "\<forall>sg \<in> set sgs. c_signals (h_container h) (getNumber sg) = None \<and> c_tables (h_container h) (getTableId sg) = None"
    by (simp add: h(2) client_container_fields)
  have cb: "callbacks (h_container h) = (1, if quiet then 0 else 1, 0)" by (simp add: h(2) client_container_fields)
  obtain calls where calls: "reported sgs (if quiet then 0 else 1) 0 (observed sgs Map.empty index ps) calls"
    "\<exists>h'. runs J I bytes h h' \<and> (\<nexists>h''. completes J I h' h'')"
    and last: "\<And>h'. runs J I bytes h h' \<and> (\<nexists>h''. completes J I h' h'') \<Longrightarrow>
      c_calls (h_container h') = c_calls (fold (subscribed_to J) sgs (client_container quiet)) @ calls"
    using tables_run [OF J S I assms(4) sgs fits ps h(1) new cb, folded W_def, folded bytes_def]
    unfolding h(2) by blast
  have small: "map (packet_printed C) ps = map (packet_values C) ps"
    if "\<forall>V d. Samples V d \<in> set ps \<longrightarrow> length d div dataType_size (vs_dataType V) \<le> 1024"
    by (rule packet_printed_small [OF that])
  obtain cl where cl: "client_events C (c_calls (fold (subscribed_to J) sgs (client_container quiet)) @ calls) client_init = (Next, cl)"
    "\<forall>sg \<in> set sgs. cl_infos cl (getNumber sg) = Some (getId sg, if quiet then 0 else word_of_nat (values_in (getNumber sg) ps))"
    "cl_printed cl = (if quiet then [] else concat (map (packet_printed C) ps))"
    using client_run [OF sgs(1) ps calls(1), of C J] by blast
  show ?thesis
    by (intro conjI allI impI; (rule calls(2) | rule exI [of _ cl])) (simp add: last cl small)
qed

text \<open>The client without \<open>--quiet\<close> beside a producer with two tables; 8 bit values of one, an impulse of the other.\<close>

definition example_options :: client_options where
  "example_options = no_options\<lparr>co_host := Some ''localhost'', co_port := Some ''7411'', co_target := Some ''/''\<rparr>"

theorem client_end_to_end_witness:
  "\<exists>h0 h h' cl. client_session tree_lib buffer_stream (\<lambda>e. []) (0, 0, 0, 0, 0) (Some example_options) = Inr (h0, {}) \<and>
    complete tree_lib buffer_stream Init_stream 0 h0 = (Next, h) \<and> runs tree_lib buffer_stream
      (let W = StreamWriter tree_lib memory_stream
       in snd (produce W two_tables_packets two_tables_store (fold (signal_subscribe tree_lib W) two_tables []))) h h' \<and>
    client_events example_conversions (c_calls (h_container h')) client_init = (Next, cl) \<and>
    cl_infos cl 9 = Some (''signal'', 4) \<and> cl_infos cl 7 = Some (''sig'', 2) \<and>
    cl_printed cl = concat (map (packet_values example_conversions) two_tables_packets)"
proof -
  note s = example_signals other_signals
  let ?W = "StreamWriter tree_lib memory_stream"
  let ?bytes = "snd (produce ?W two_tables_packets two_tables_store (fold (signal_subscribe tree_lib ?W) two_tables []))"
  have quiet: "client_main (Some example_options) = Inr (Websocket_client ''localhost'' ''7411'' ''/'', False, {})"
    by (simp add: client_main_def example_options_def no_options_def Let_def)
  then obtain h0 h where h0: "client_session tree_lib buffer_stream (\<lambda>e. []) (0, 0, 0, 0, 0) (Some example_options) = Inr (h0, {})"
    and h: "complete tree_lib buffer_stream Init_stream 0 h0 = (Next, h)"
    by (simp add: client_session_def complete_def onInitComplete_def start_def schedule_def ProtocolHandler_init_def)
  have ids: "bs_id example_value = ''sig''" "bs_id other_value = ''signal''"
    by (simp_all add: example_value_def other_value_def SynchronousSignal_init_def BaseValueSignal_init_def setRange_def
        setRelatedSignals_def case_prod_beta)
  have members: "Value example_value \<in> set two_tables" "Value other_value \<in> set two_tables" by (simp_all add: two_tables_def)
  have counts: "values_in 7 two_tables_packets = 2" "values_in 9 two_tables_packets = 4"
    by (simp_all add: two_tables_packets_def s example_packet_def)
  have small: "\<forall>V d. Samples V d \<in> set two_tables_packets \<longrightarrow> length d div dataType_size (vs_dataType V) \<le> 1024"
    by (auto simp: two_tables_packets_def s example_packet_def)
  have empty: "si_data buffer_stream [] = []" by (simp add: buffer_stream_def)
  from client_end_to_end [OF tree_json_laws memory_stream_delivers buffer_stream_reads refl two_tables_facts(1-3)
      two_tables_fits two_tables_facts(4,5) quiet h0 h empty, of example_conversions] small
  obtain h' cl where "runs tree_lib buffer_stream ?bytes h h'"
    "client_events example_conversions (c_calls (h_container h')) client_init = (Next, cl)"
    and infos: "\<forall>sg \<in> set two_tables. cl_infos cl (getNumber sg) =
       Some (getId sg, word_of_nat (values_in (getNumber sg) two_tables_packets))"
    and "cl_printed cl = concat (map (packet_values example_conversions) two_tables_packets)"
    by auto
  moreover have "cl_infos cl 9 = Some (''signal'', 4)" "cl_infos cl 7 = Some (''sig'', 2)"
    using bspec [OF infos members(1)] bspec [OF infos members(2)] by (simp_all add: s ids counts)
  ultimately show ?thesis using h0 h unfolding Let_def by blast
qed

end
