(* ===== verification/Spec2Isabelle.thy ===== *)
theory Spec2Isabelle
  imports Generator_Connection Rule_Connection Signal_Types Domain_Epoch Factorization Generator_Programs Client_Program
begin

text \<open>
  A verification library of the openDAQ LT streaming protocol (\<open>lib\<close>, \<open>include/streaming_protocol\<close>
  and \<open>tool\<close> of the sources).

  \<^bold>\<open>The program.\<close> A producer describes signals, announces them and streams measured data over one
  byte stream; a consumer takes the stream apart and calls its callbacks. Measured values and
  their time come as separate signals: a table relates the data signals to the signal that
  carries their time. A second, HTTP based channel carries the commands subscribe and
  unsubscribe from the consumer to the producer. Two tools use the library: a signal generator
  and a client that prints what it receives.

  \<^bold>\<open>Theories and sources,\<close> from the bottom to the top:

  \<^item> \<open>Stream_Prelude\<close>: machine integers at their width, little-endian images, the control flow of a
    C++ statement (\<open>flow\<close>: fall through, return, throw), \<open>block\<close>s of statements on a state, their
    sequencing, and the locale \<open>machine\<close> of an initial state, operations and an invariant.
  \<^item> \<open>Json_Library\<close>: nlohmann::json as the parameter \<open>json_lib\<close> with its documented laws \<open>json_laws\<close>;
    \<open>Json_Tree\<close>: a library that satisfies them and that the witnesses compute with.
  \<^item> \<open>Protocol_Types\<close>: \<open>Defines.h\<close>, \<open>Types\<close>, \<open>Unit\<close>, \<open>TimeResolution\<close>. The locale \<open>meta_section\<close> is
    the contract of the four value types (parse after compose gives the value back, a section
    touches its own key only); each is an interpretation.
  \<^item> \<open>Transport\<close>: \<open>StreamWriter\<close> and the header fields as the consumer reads them. The locale
    \<open>message_writer\<close> is the contract of \<open>iWriter\<close>: writing a message appends its bytes.
  \<^item> \<open>Stream_Meta\<close>: \<open>MetaInformation\<close> and \<open>StreamMeta\<close>. \<open>Subscribed_Signal\<close>: \<open>SubscribedSignal\<close>.
    \<open>Signal_Container\<close>: \<open>SignalContainer\<close> and \<open>Table\<close>, with signal objects behind references.
  \<^item> \<open>Control\<close>: \<open>Controller\<close>, \<open>HttpPost\<close> and \<open>ControlServer\<close>. \<open>Protocol_Handler\<close>: \<open>ProtocolHandler\<close>,
    a state machine whose outstanding operations are values; \<open>completes\<close> is its step relation.
  \<^item> \<open>Producer_Signals\<close>: \<open>BaseSignal\<close> and its descendants. \<open>Signal_Types\<close>: the type tables of
    the three value signal templates. \<open>Domain_Epoch\<close>: the conversions of domain signals between
    ticks, points in time and the text of an epoch, with the calendar.
    \<open>Producer_Session\<close>: \<open>ProducerSession\<close> and \<open>Server\<close>.
  \<^item> \<open>Connection\<close>: producer and consumer composed; \<open>Rule_Connection\<close>: the same for signals with
    constant rule and for asynchronous signals. The locale \<open>data_path\<close> is what the three rules
    have in common: a packet leads to one round of callbacks. \<open>Table_Connection\<close>: any number of
    signals in any number of tables at once.
  \<^item> \<open>Streaming_Client\<close>: \<open>interpretValuesAsDouble\<close> and the callbacks of \<open>StreamingClient.cpp\<close>;
    \<open>Client_Program\<close>: its \<open>main\<close>, and the client beside a producer.
  \<^item> \<open>Signal_Generator\<close>, \<open>Generator_Config\<close>, \<open>Generator_Programs\<close>, \<open>Factorization\<close>:
    \<open>tool/SignalGenerator\<close>. \<open>Generator_Run\<close>: all that a run of the generator writes;
    \<open>Generator_Connection\<close>: the generator composed with a consumer.

  Definitions keep the names of the sources; an operation of a class takes and returns the record
  of its members. A method that may throw or return early is a \<open>block\<close>; dereferencing a null
  pointer, reading behind the end of a buffer and division by zero are exceptions of their own
  (\<open>Null_deref\<close>, \<open>Undefined\<close>), so that a theorem can say that they do not happen. Callbacks are
  recorded in the order of their calls.

  \<^bold>\<open>What is shown.\<close> Round trips: transport headers, value types, the descriptions of signals
  with their types, epochs, commands over the control channel, integer values. Refinement: the handler delivers exactly
  the messages whose bytes arrive, whatever the pieces; a subscription gives the consumer the
  producer's signal; announcement, client and control server together subscribe what was
  announced; the samples of all signals of a generator arrive with their time stamps; the client
  counts what was written and prints it, in blocks of 1024 values. Signals of several tables do not interfere. Invariants: the
  container over every sequence of inputs, the sessions of a server, listeners, the signals of the
  generator and their time signals. Safety: where null pointers and divisors are excluded. Errors: what is rejected,
  how a session ends and who is told, and that a message that breaks off is not delivered.
  Termination: the size of a data type, the loop of the generator, which makes exactly the rounds
  that are due, the factorization. Where the code falls short of what it means to do, the theorem
  states what it does.

  \<^bold>\<open>Recursion and bounds.\<close> \<open>getDataTypeSize\<close> recurses over a document of the JSON library and has
  the depth of the document as fuel, which \<open>getDataTypeSize_total\<close> shows to be enough. The loop of
  the generator is a \<open>partial_function\<close> into options, and \<open>generator_terminates\<close> states after how
  many rounds it returns, with and without a stop of the session, and when it never does; so is the search for a multiplier, which returns for numbers with finitely many
  decimals (\<open>factor_of_decimal\<close>). Every other recursion is over a list or has a measure. Integers wrap at their
  width; sizes of blocks are bounded by what a 32 bit length can say (\<open>sendable\<close>).

  \<^bold>\<open>Parameters.\<close> The stream below (\<open>stream_io\<close> for a writer, \<open>stream_in\<close> for a reader) with the
  hypotheses \<open>delivers\<close> and \<open>reads\<close>; the JSON library; Boost.Asio and Boost.Beast through the
  results of their operations; floating point arithmetic (\<open>arith\<close>, \<open>conversions\<close>). Doubles that are
  only stored are bit patterns.

  \<^bold>\<open>Not modelled.\<close> Logging, its arguments included, and other output except the values the client
  prints; the mutex of the writer and other synchronisation of threads (calls are sequential; the
  one exception is the stop of the generator from the thread of the io context, which may come
  before any check of its loop and during any round); sockets, time-outs and
  signal handlers; the parsing of options, which Boost does. \<open>socketwriter\<close> and \<open>transportheader\<close>
  of the generator are built by no target and rest on headers and constants of another library
  that are nowhere in the sources. The composition of the generator with a consumer is for
  linear time signals and synchronous signals; asynchronous signals are composed with a
  consumer one at a time (\<open>Rule_Connection\<close>), because of the start time that precedes their times.
\<close>

section \<open>From the producer's writer to the consumer's callbacks\<close>

text \<open>
  C1: the writer and the handler fit together. Messages written by \<open>StreamWriter\<close> one after
  the other to a stream that delivers its bytes in order, received by a session that waits for
  a header, in pieces of any size: there is a run that can read no further, and every such
  run has delivered exactly these messages, in their order.
\<close>

theorem writer_to_handler:
  assumes "json_laws J" and "delivers S wire" and "reads I" and "\<forall>m \<in> set ms. sendable J m"
    and "wire w = []" and "at_header I [] h" and "deliver_all J ms (view h) = Some k"
  defines "bytes \<equiv> wire (stream_writer.send J S ms w)"
  shows "(\<exists>h'. runs J I bytes h h' \<and> (\<nexists>h''. completes J I h' h'')) \<and>
    (\<forall>h'. runs J I bytes h h' \<and> (\<nexists>h''. completes J I h' h'') \<longrightarrow> view h' = k \<and> at_header I [] h')"
proof -
  have "bytes = concat (map (message_bytes J) ms)"
    unfolding bytes_def using stream_writer.send_wire [OF assms(2), of J ms w] assms(5) by simp
  then show ?thesis using messages_run [OF assms(1,3,4,6,7)] by simp
qed

theorem writer_to_handler_witness:
  "\<exists>h'. runs tree_lib buffer_stream (stream_writer.send tree_lib memory_stream example_messages []) example_session h' \<and>
     view h' = example_consumer \<and> at_header buffer_stream [] h'"
proof -
  note e = example_session_runs
  from writer_to_handler [OF tree_json_laws memory_stream_delivers buffer_stream_reads e(1) refl e(2,3)] show ?thesis by auto
qed

end
